(* ===== verification/Prelude.thy ===== *)
theory Prelude
  imports Main "HOL-Library.Word"
begin

section \<open>Shared vocabulary of the development\<close>

text \<open>
  Fixed-width integers, the result type of C++ code that may throw or be undefined, the
  program combinators over it, the preservation calculus \<open>keeps\<close> used by every invariant
  proof, little-endian byte access, and the bit lemmas the components share.
\<close>

unbundle bit_operations_syntax

type_synonym u8 = "8 word"
type_synonym u16 = "16 word"
type_synonym u32 = "32 word"
type_synonym u64 = "64 word"

named_theorems keeps_intros \<open>introduction rules of the preservation calculus\<close>
named_theorems prog_simps \<open>unfolding rules of the program combinators\<close>
named_theorems model_defs \<open>definitions that evaluate on concrete input\<close>

text \<open>Comparisons of word numerals with 1, which the library leaves to the user.\<close>

lemmas word_numeral_le_one [simp] =
  word_le_def [of "numeral a" 1] word_le_def [of 1 "numeral a"] for a

lemmas word_numeral_less_one [simp] =
  word_less_def [of "numeral a" 1] word_less_def [of 1 "numeral a"] for a

subsection \<open>Exceptions and outcomes\<close>

text \<open>
  The exception classes of inc/errors/errors.hpp, plus the two standard ones the sources
  throw (\<open>std::out_of_range\<close> in the Memory class, \<open>std::runtime_error\<close> in loaders).
  \<open>Undefined\<close> is C++ undefined behaviour (signed overflow, a shift by the width or more,
  an access past the end of a buffer, relocking a \<open>std::mutex\<close>); \<open>NoFuel\<close> says that the
  fuel of a modelled loop ran out, which for the real code means it is still running.
\<close>

datatype exn =
    BusAccessError
  | InstructionPageError
  | LoadPageError
  | StorePageError
  | ProgramExit int
  | OutOfRange
  | RuntimeError string

datatype ('a, 's) result =
    Ok 'a 's
  | Raise exn 's
  | Undefined
  | NoFuel

type_synonym ('s, 'a) prog = "'s \<Rightarrow> ('a, 's) result"

definition ret :: "'a \<Rightarrow> ('s, 'a) prog" where
  "ret a = (\<lambda>s. Ok a s)"

definition bnd :: "('s, 'a) prog \<Rightarrow> ('a \<Rightarrow> ('s, 'b) prog) \<Rightarrow> ('s, 'b) prog" where
  "bnd p k = (\<lambda>s. case p s of Ok a t \<Rightarrow> k a t | Raise e t \<Rightarrow> Raise e t
                  | Undefined \<Rightarrow> Undefined | NoFuel \<Rightarrow> NoFuel)"

text \<open>\<open>andthen p q\<close> is the sequence of two statements.\<close>

definition andthen :: "('s, 'a) prog \<Rightarrow> ('s, 'b) prog \<Rightarrow> ('s, 'b) prog" where
  "andthen p q = bnd p (\<lambda>_. q)"

definition throw :: "exn \<Rightarrow> ('s, 'a) prog" where
  "throw e = (\<lambda>s. Raise e s)"

definition undef :: "('s, 'a) prog" where
  "undef = (\<lambda>s. Undefined)"

definition reads :: "('s \<Rightarrow> 'a) \<Rightarrow> ('s, 'a) prog" where
  "reads f = (\<lambda>s. Ok (f s) s)"

definition updates :: "('s \<Rightarrow> 's) \<Rightarrow> ('s, unit) prog" where
  "updates f = (\<lambda>s. Ok () (f s))"

text \<open>\<open>catching p h\<close> is a \<open>try\<close> block with handlers: \<open>h e = None\<close> lets \<open>e\<close> propagate.\<close>

definition catching :: "('s, 'a) prog \<Rightarrow> (exn \<Rightarrow> ('s, 'a) prog option) \<Rightarrow> ('s, 'a) prog" where
  "catching p h = (\<lambda>s. case p s of
       Raise e t \<Rightarrow> (case h e of Some q \<Rightarrow> q t | None \<Rightarrow> Raise e t)
     | r \<Rightarrow> r)"

text \<open>A value the C++ standard leaves undefined when it is \<open>None\<close>.\<close>

definition defined :: "'a option \<Rightarrow> ('s, 'a) prog" where
  "defined x = (case x of Some a \<Rightarrow> ret a | None \<Rightarrow> undef)"

definition do_if :: "bool \<Rightarrow> ('s, unit) prog \<Rightarrow> ('s, unit) prog" where
  "do_if b p = (if b then p else ret ())"

fun final :: "('a, 's) result \<Rightarrow> 's option" where
  "final (Ok a s) = Some s"
| "final (Raise e s) = Some s"
| "final Undefined = None"
| "final NoFuel = None"

declare ret_def [prog_simps] bnd_def [prog_simps] andthen_def [prog_simps]
  throw_def [prog_simps] undef_def [prog_simps] reads_def [prog_simps]
  updates_def [prog_simps] catching_def [prog_simps] defined_def [prog_simps]
  do_if_def [prog_simps]

lemma bnd_ret [simp]: "bnd (ret a) k = k a"
  by (simp add: prog_simps)

lemma bnd_assoc: "bnd (bnd p k) l = bnd p (\<lambda>a. bnd (k a) l)"
  by (rule ext) (simp add: prog_simps split: result.splits)

lemma bnd_Ok_iff: "bnd p k s = Ok b u \<longleftrightarrow> (\<exists>a t. p s = Ok a t \<and> k a t = Ok b u)"
  by (cases "p s") (simp_all add: bnd_def)

subsection \<open>Preservation\<close>

text \<open>
  \<open>keeps P p\<close>: started in a state with \<open>P\<close>, \<open>p\<close> ends in one, whether it returns or
  throws. The rules below decompose a program along its combinators.
\<close>

definition keeps :: "('s \<Rightarrow> bool) \<Rightarrow> ('s, 'a) prog \<Rightarrow> bool" where
  "keeps P p \<longleftrightarrow> (\<forall>s. P s \<longrightarrow> (case final (p s) of Some t \<Rightarrow> P t | None \<Rightarrow> True))"

lemma keepsI:
  assumes "\<And>s a t. P s \<Longrightarrow> p s = Ok a t \<Longrightarrow> P t"
    and "\<And>s e t. P s \<Longrightarrow> p s = Raise e t \<Longrightarrow> P t"
  shows "keeps P p"
  unfolding keeps_def
proof (intro allI impI)
  fix s assume "P s"
  show "case final (p s) of Some t \<Rightarrow> P t | None \<Rightarrow> True"
    by (cases "p s") (simp_all add: assms [OF \<open>P s\<close>])
qed

lemma keeps_Ok: "keeps P p \<Longrightarrow> P s \<Longrightarrow> p s = Ok a t \<Longrightarrow> P t"
  by (force simp: keeps_def)

lemma keeps_Raise: "keeps P p \<Longrightarrow> P s \<Longrightarrow> p s = Raise e t \<Longrightarrow> P t"
  by (force simp: keeps_def)

lemma keeps_ret [keeps_intros]: "keeps P (ret a)"
  by (simp add: keeps_def prog_simps)

lemma keeps_throw [keeps_intros]: "keeps P (throw e)"
  by (simp add: keeps_def prog_simps)

lemma keeps_undef [keeps_intros]: "keeps P undef"
  by (simp add: keeps_def prog_simps)

lemma keeps_reads [keeps_intros]: "keeps P (reads f)"
  by (simp add: keeps_def prog_simps)

lemma keeps_defined [keeps_intros]: "keeps P (defined x)"
  by (cases x) (simp_all add: keeps_def prog_simps)

lemma keeps_updates [keeps_intros]: "(\<And>s. P s \<Longrightarrow> P (f s)) \<Longrightarrow> keeps P (updates f)"
  by (simp add: keeps_def prog_simps)

lemma keeps_bnd [keeps_intros]:
  "keeps P p \<Longrightarrow> (\<And>a. keeps P (k a)) \<Longrightarrow> keeps P (bnd p k)"
  by (rule keepsI)
    (auto simp: bnd_def split: result.splits dest: keeps_Ok keeps_Raise)

lemma keeps_andthen [keeps_intros]: "keeps P p \<Longrightarrow> keeps P q \<Longrightarrow> keeps P (andthen p q)"
  by (simp add: andthen_def keeps_bnd)

lemma keeps_catching [keeps_intros]:
  "keeps P p \<Longrightarrow> (\<And>e q. h e = Some q \<Longrightarrow> keeps P q) \<Longrightarrow> keeps P (catching p h)"
  by (rule keepsI)
    (auto simp: catching_def split: result.splits option.splits dest: keeps_Ok keeps_Raise)

lemma keeps_if [keeps_intros]:
  "(b \<Longrightarrow> keeps P p) \<Longrightarrow> (\<not> b \<Longrightarrow> keeps P q) \<Longrightarrow> keeps P (if b then p else q)"
  by simp

lemma keeps_do_if [keeps_intros]: "(b \<Longrightarrow> keeps P p) \<Longrightarrow> keeps P (do_if b p)"
  by (simp add: do_if_def keeps_ret)

lemma keeps_option [keeps_intros]:
  "(x = None \<Longrightarrow> keeps P p) \<Longrightarrow> (\<And>a. x = Some a \<Longrightarrow> keeps P (q a))
    \<Longrightarrow> keeps P (case x of None \<Rightarrow> p | Some a \<Rightarrow> q a)"
  by (cases x) auto

lemma keeps_prod [keeps_intros]:
  "(\<And>a b. x = (a, b) \<Longrightarrow> keeps P (q a b)) \<Longrightarrow> keeps P (case x of (a, b) \<Rightarrow> q a b)"
  by (cases x) auto

lemma keeps_let [keeps_intros]: "(\<And>a. a = x \<Longrightarrow> keeps P (q a)) \<Longrightarrow> keeps P (let a = x in q a)"
  by (simp add: Let_def)

lemma keeps_conj: "keeps P p \<Longrightarrow> keeps Q p \<Longrightarrow> keeps (\<lambda>s. P s \<and> Q s) p"
  by (rule keepsI) (blast dest: keeps_Ok keeps_Raise)+

subsection \<open>C++ integer arithmetic\<close>

text \<open>
  \<open>int32_t\<close> sums and differences: \<open>None\<close> when the mathematical result does not fit, which
  C++20 leaves undefined. Shift counts of 32 or more (or negative) are undefined as well.
\<close>

definition sfits32 :: "int \<Rightarrow> bool" where
  "sfits32 x \<longleftrightarrow> - (2 ^ 31) \<le> x \<and> x < 2 ^ 31"

definition sadd32 :: "u32 \<Rightarrow> u32 \<Rightarrow> u32 option" where
  "sadd32 a b = (if sfits32 (sint a + sint b) then Some (a + b) else None)"

definition ssub32 :: "u32 \<Rightarrow> u32 \<Rightarrow> u32 option" where
  "ssub32 a b = (if sfits32 (sint a - sint b) then Some (a - b) else None)"

definition shl32 :: "u32 \<Rightarrow> u32 \<Rightarrow> u32 option" where
  "shl32 a b = (if b < 32 then Some (push_bit (unat b) a) else None)"

definition shr32 :: "u32 \<Rightarrow> u32 \<Rightarrow> u32 option" where
  "shr32 a b = (if b < 32 then Some (drop_bit (unat b) a) else None)"

definition sar32 :: "u32 \<Rightarrow> u32 \<Rightarrow> u32 option" where
  "sar32 a b = (if b < 32 then Some (signed_drop_bit (unat b) a) else None)"

text \<open>Truncating division and remainder of \<open>int32_t\<close> (the divisor is not zero).\<close>

definition tdiv :: "int \<Rightarrow> int \<Rightarrow> int" where
  "tdiv a b = sgn a * sgn b * (\<bar>a\<bar> div \<bar>b\<bar>)"

definition trem :: "int \<Rightarrow> int \<Rightarrow> int" where
  "trem a b = a - b * tdiv a b"

text \<open>A truth value as the 0 or 1 of a C++ conversion.\<close>

definition b2w :: "bool \<Rightarrow> 'a::len word" where
  "b2w b = (if b then 1 else 0)"

text \<open>Bit \<open>n\<close> of a word, \<open>(w >> n) & 1\<close> used as a condition.\<close>

definition tst :: "'a::len word \<Rightarrow> nat \<Rightarrow> bool" where
  "tst w n \<longleftrightarrow> drop_bit n w AND 1 \<noteq> 0"

lemma tst_bit [simp]: "tst w n = bit w n"
  by (simp add: tst_def bit_iff_odd_drop_bit one_and_eq and_one_eq odd_iff_mod_2_eq_one)

text \<open>Contiguous masks, written as \<open>mask\<close> so that the bit simprules decide them.\<close>

lemma mask_lits:
  "(0x3 :: u32) = mask 2" "(0x7 :: u32) = mask 3" "(0xF :: u32) = mask 4"
  "(0x1F :: u32) = mask 5" "(0x3F :: u32) = mask 6" "(0xFF :: u32) = mask 8"
  "(0x3FF :: u32) = mask 10" "(0xFFF :: u32) = mask 12" "(0xFFFFF :: u32) = mask 20"
  "(0x3FFFFF :: u32) = mask 22"
  by (simp_all add: mask_numeral)

subsection \<open>Little-endian bytes\<close>

definition le16 :: "u8 \<Rightarrow> u8 \<Rightarrow> u16" where
  "le16 b0 b1 = ucast b0 OR push_bit 8 (ucast b1)"

definition le32 :: "u8 \<Rightarrow> u8 \<Rightarrow> u8 \<Rightarrow> u8 \<Rightarrow> u32" where
  "le32 b0 b1 b2 b3 =
     ucast b0 OR push_bit 8 (ucast b1) OR push_bit 16 (ucast b2) OR push_bit 24 (ucast b3)"

definition byte_of :: "nat \<Rightarrow> 'a::len word \<Rightarrow> u8" where
  "byte_of i v = ucast (drop_bit (8 * i) v)"

lemma le16_byte_of [simp]: "le16 (byte_of 0 v) (byte_of 1 v) = v"
  by (rule bit_word_eqI) (auto simp: le16_def byte_of_def bit_simps)

lemma le32_byte_of [simp]:
  "le32 (byte_of 0 v) (byte_of 1 v) (byte_of 2 v) (byte_of 3 v) = v"
proof (rule bit_word_eqI)
  fix n assume "n < LENGTH(32)"
  then consider "n < 8" | "8 \<le> n" "n < 16" | "16 \<le> n" "n < 24" | "24 \<le> n" "n < 32"
    by fastforce
  then show "bit (le32 (byte_of 0 v) (byte_of 1 v) (byte_of 2 v) (byte_of 3 v)) n = bit v n"
    by cases (simp_all add: le32_def byte_of_def bit_simps less_diff_conv2)
qed

lemma byte_of_le32 [simp]:
  "byte_of 0 (le32 a b c d) = a" "byte_of 1 (le32 a b c d) = b"
  "byte_of 2 (le32 a b c d) = c" "byte_of 3 (le32 a b c d) = d"
  by (rule bit_word_eqI; auto simp: le32_def byte_of_def bit_simps dest: bit_imp_le_length)+

lemmas le_byte_of_Suc [simp] =
  le16_byte_of [unfolded One_nat_def] le32_byte_of [unfolded One_nat_def]
  byte_of_le32 [unfolded One_nat_def]

subsection \<open>Offsets\<close>

lemma unat_add_of_nat:
  fixes a :: "'a::len word"
  assumes "unat a + i < 2 ^ LENGTH('a)"
  shows "unat (a + of_nat i) = unat a + i"
  using assms by (simp add: unat_word_ariths unat_of_nat take_bit_nat_def)

end
