(* ===== verification/Isa.thy ===== *)
theory Isa
  imports Prelude
begin

section \<open>Instruction kinds, decoded instructions, privilege levels\<close>

text \<open>
  The data of inc/isa/isa.hpp, inc/types.hpp and inc/cpu/cpu.hpp. The enumerators of
  \<open>InstrKind\<close> carry the prefix \<open>I_\<close>, because \<open>AND\<close>, \<open>OR\<close> and \<open>XOR\<close> are operators here.
\<close>

datatype (plugins only: code size) InstrKind =
    I_ADD | I_SUB | I_AND | I_OR | I_XOR | I_SLL | I_SLT | I_SLTU | I_SRL | I_SRA
  | I_ADDI | I_ANDI | I_ORI | I_XORI | I_SLTI | I_SLTIU | I_SLLI | I_SRLI | I_SRAI
  | I_LW | I_LH | I_LHU | I_LB | I_LBU
  | I_SW | I_SH | I_SB
  | I_BEQ | I_BNE | I_BLT | I_BGE | I_BLTU | I_BGEU
  | I_JAL | I_JALR
  | I_LUI | I_AUIPC
  | I_ECALL | I_EBREAK
  | I_FENCE
  | I_CSRRW | I_CSRRS | I_CSRRC | I_CSRRWI | I_CSRRSI | I_CSRRCI
  | I_MUL | I_MULH | I_MULHSU | I_MULHU
  | I_DIV | I_DIVU | I_REM | I_REMU
  | I_MRET | I_SRET | I_WFI
  | I_SFENCE_VMA
  | I_LR_W | I_SC_W | I_AMOSWAP_W | I_AMOADD_W | I_AMOAND_W | I_AMOOR_W | I_AMOXOR_W
  | I_AMOMAX_W | I_AMOMAXU_W | I_AMOMIN_W | I_AMOMINU_W
  | I_INVALID

text \<open>Fields carry the prefix \<open>di_\<close>. \<open>di_imm\<close> holds the bit pattern of the \<open>int32_t\<close>; \<open>sint\<close> reads it as a signed value.\<close>

record DecodedInstr =
  di_kind :: InstrKind
  di_rd :: u8
  di_rs1 :: u8
  di_rs2 :: u8
  di_imm :: u32
  di_csr :: u16
  di_raw :: u32
  di_instr_len :: u32

definition DecodedInstr0 :: DecodedInstr where
  "DecodedInstr0 = \<lparr>di_kind = I_INVALID, di_rd = 0, di_rs1 = 0, di_rs2 = 0, di_imm = 0, di_csr = 0,
                    di_raw = 0, di_instr_len = 0\<rparr>"

record Extensions =
  ext_m :: bool
  ext_c :: bool
  ext_a :: bool

datatype PrivilegeLevel = USER | SUPERVISOR | RESERVED2 | MACHINE

text \<open>
  The enumeration has no member 2, but \<open>static_cast<PrivilegeLevel>(2)\<close> is a value of its
  underlying type; the constructor \<open>RESERVED2\<close> stands for it, and the development shows
  that no reachable state of the emulator holds it.
\<close>

fun priv_num :: "PrivilegeLevel \<Rightarrow> u32" where
  "priv_num USER = 0"
| "priv_num SUPERVISOR = 1"
| "priv_num RESERVED2 = 2"
| "priv_num MACHINE = 3"

definition priv_of :: "u32 \<Rightarrow> PrivilegeLevel" where
  "priv_of n = (if n = 0 then USER else if n = 1 then SUPERVISOR
                else if n = 2 then RESERVED2 else MACHINE)"

datatype AccessType = FETCH | LOAD | STORE

lemma priv_of_num [simp]: "priv_of (priv_num p) = p"
  by (cases p) (simp_all add: priv_of_def)

lemma priv_num_less: "priv_num p < 4"
  by (cases p) simp_all

lemma priv_num_inj [simp]: "priv_num p = priv_num q \<longleftrightarrow> p = q"
  by (cases p; cases q) simp_all

text \<open>Comparison of levels is comparison of their numbers.\<close>

instantiation PrivilegeLevel :: linorder
begin

definition less_eq_PrivilegeLevel :: "PrivilegeLevel \<Rightarrow> PrivilegeLevel \<Rightarrow> bool" where
  "less_eq_PrivilegeLevel p q \<longleftrightarrow> priv_num p \<le> priv_num q"

definition less_PrivilegeLevel :: "PrivilegeLevel \<Rightarrow> PrivilegeLevel \<Rightarrow> bool" where
  "less_PrivilegeLevel p q \<longleftrightarrow> priv_num p < priv_num q"

instance
proof
  fix x y z :: PrivilegeLevel
  show "x < y \<longleftrightarrow> x \<le> y \<and> \<not> y \<le> x"
    unfolding less_eq_PrivilegeLevel_def less_PrivilegeLevel_def by (rule less_le_not_le)
  show "x \<le> x"
    unfolding less_eq_PrivilegeLevel_def by (rule order_refl)
  show "x \<le> y \<Longrightarrow> y \<le> z \<Longrightarrow> x \<le> z"
    unfolding less_eq_PrivilegeLevel_def by (rule order_trans)
  show "x \<le> y \<Longrightarrow> y \<le> x \<Longrightarrow> x = y"
    unfolding less_eq_PrivilegeLevel_def using priv_num_inj antisym by blast
  show "x \<le> y \<or> y \<le> x"
    unfolding less_eq_PrivilegeLevel_def by (rule linear)
qed

end

lemma priv_order_simps [simp]:
  "USER \<le> p" "p \<le> MACHINE" "\<not> p < USER" "\<not> MACHINE < p"
  "USER < SUPERVISOR" "SUPERVISOR < MACHINE" "USER < MACHINE" "\<not> MACHINE \<le> SUPERVISOR"
  unfolding less_eq_PrivilegeLevel_def less_PrivilegeLevel_def by (cases p, simp_all)+

text \<open>\<open>ExecutionMode\<close>, \<open>CPUState\<close> and the exception causes of inc/cpu/cpu.hpp.\<close>

datatype ExecutionMode = BARE_METAL_MODE | SYSTEM_MODE

datatype CPUState = IDLE | WAITING_FOR_INTERRUPT | ACTIVE | HALTED

datatype ExceptionCause =
    MISALIGNED_INSTRUCTION | INSTRUCTION_ACCESS_FAULT | ILLEGAL_INSTRUCTION | BREAKPOINT
  | MISALIGNED_LOAD_ADDRESS | LOAD_ACCESS_FAULT | MISALIGNED_STORE_ADDRESS
  | STORE_ACCESS_FAULT | U_MODE_ENVIRONMENT_CALL | S_MODE_ENVIRONMENT_CALL
  | M_MODE_ENVIRONMENT_CALL | INSTRUCTION_PAGE_FAULT | LOAD_PAGE_FAULT | STORE_PAGE_FAULT

fun cause_num :: "ExceptionCause \<Rightarrow> u32" where
  "cause_num MISALIGNED_INSTRUCTION = 0"
| "cause_num INSTRUCTION_ACCESS_FAULT = 1"
| "cause_num ILLEGAL_INSTRUCTION = 2"
| "cause_num BREAKPOINT = 3"
| "cause_num MISALIGNED_LOAD_ADDRESS = 4"
| "cause_num LOAD_ACCESS_FAULT = 5"
| "cause_num MISALIGNED_STORE_ADDRESS = 6"
| "cause_num STORE_ACCESS_FAULT = 7"
| "cause_num U_MODE_ENVIRONMENT_CALL = 8"
| "cause_num S_MODE_ENVIRONMENT_CALL = 9"
| "cause_num M_MODE_ENVIRONMENT_CALL = 11"
| "cause_num INSTRUCTION_PAGE_FAULT = 12"
| "cause_num LOAD_PAGE_FAULT = 13"
| "cause_num STORE_PAGE_FAULT = 15"

end
