(* ===== verification/Decode.thy ===== *)
theory Decode
  imports Isa
begin

section \<open>The instruction decoder\<close>

text \<open>
  \<open>CPU::decode\<close> of src/cpu/decode.cpp: the field extractors, one definition per opcode
  case of the switch, and the whole decoder.
\<close>

unbundle bit_operations_syntax

definition get_bits :: "u32 \<Rightarrow> nat \<Rightarrow> nat \<Rightarrow> u32" where
  "get_bits x hi lo = drop_bit lo x AND (push_bit (hi - lo + 1) 1 - 1)"

definition sign_extend :: "u32 \<Rightarrow> nat \<Rightarrow> u32" where
  "sign_extend value bits = (let m = push_bit (bits - 1) 1 in (value XOR m) - m)"

text \<open>Case 0x33: register-register arithmetic and the M extension.\<close>

definition decode_alu :: "u32 \<Rightarrow> u32 \<Rightarrow> InstrKind" where
  "decode_alu funct3 funct7 =
    (if funct3 = 0x0 then
       (if funct7 = 0x00 then I_ADD else if funct7 = 0x20 then I_SUB
        else if funct7 = 0x01 then I_MUL else I_INVALID)
     else if funct3 = 0x1 then (if funct7 = 0x01 then I_MULH else I_SLL)
     else if funct3 = 0x2 then (if funct7 = 0x01 then I_MULHSU else I_SLT)
     else if funct3 = 0x3 then (if funct7 = 0x01 then I_MULHU else I_SLTU)
     else if funct3 = 0x4 then (if funct7 = 0x01 then I_DIV else I_XOR)
     else if funct3 = 0x5 then
       (if funct7 = 0x00 then I_SRL else if funct7 = 0x20 then I_SRA
        else if funct7 = 0x1 then I_DIVU else I_INVALID)
     else if funct3 = 0x7 then (if funct7 = 0x01 then I_REMU else I_AND)
     else if funct3 = 0x6 then (if funct7 = 0x01 then I_REM else I_OR)
     else I_INVALID)"

text \<open>Case 0x13: immediate arithmetic.\<close>

definition decode_alu_imm :: "u32 \<Rightarrow> u32 \<Rightarrow> InstrKind" where
  "decode_alu_imm funct3 funct7 =
    (if funct3 = 0x0 then I_ADDI
     else if funct3 = 0x1 then I_SLLI
     else if funct3 = 0x2 then I_SLTI
     else if funct3 = 0x3 then I_SLTIU
     else if funct3 = 0x4 then I_XORI
     else if funct3 = 0x5 then
       (if funct7 = 0x00 then I_SRLI else if funct7 = 0x20 then I_SRAI else I_INVALID)
     else if funct3 = 0x6 then I_ORI
     else if funct3 = 0x7 then I_ANDI
     else I_INVALID)"

definition decode_load :: "u32 \<Rightarrow> InstrKind" where
  "decode_load funct3 =
    (if funct3 = 0x0 then I_LB else if funct3 = 0x1 then I_LH
     else if funct3 = 0x2 then I_LW else if funct3 = 0x4 then I_LBU
     else if funct3 = 0x5 then I_LHU else I_INVALID)"

definition decode_store :: "u32 \<Rightarrow> InstrKind" where
  "decode_store funct3 =
    (if funct3 = 0x0 then I_SB else if funct3 = 0x1 then I_SH
     else if funct3 = 0x2 then I_SW else I_INVALID)"

definition decode_branch :: "u32 \<Rightarrow> InstrKind" where
  "decode_branch funct3 =
    (if funct3 = 0x0 then I_BEQ else if funct3 = 0x1 then I_BNE
     else if funct3 = 0x4 then I_BLT else if funct3 = 0x5 then I_BGE
     else if funct3 = 0x6 then I_BLTU else if funct3 = 0x7 then I_BGEU
     else I_INVALID)"

text \<open>The immediates of the S, B and J formats before sign extension.\<close>

definition imm_s :: "u32 \<Rightarrow> u32" where
  "imm_s instr = push_bit 5 (get_bits instr 31 25) OR get_bits instr 11 7"

definition imm_b :: "u32 \<Rightarrow> u32" where
  "imm_b instr = push_bit 12 (get_bits instr 31 31) OR push_bit 11 (get_bits instr 7 7)
     OR push_bit 5 (get_bits instr 30 25) OR push_bit 1 (get_bits instr 11 8)"

definition imm_j :: "u32 \<Rightarrow> u32" where
  "imm_j instr = push_bit 20 (get_bits instr 31 31) OR push_bit 12 (get_bits instr 19 12)
     OR push_bit 11 (get_bits instr 20 20) OR push_bit 1 (get_bits instr 30 21)"

text \<open>Case 0x73: environment calls, returns, fences and CSR accesses.\<close>

definition decode_system :: "u32 \<Rightarrow> u32 \<Rightarrow> DecodedInstr \<Rightarrow> DecodedInstr" where
  "decode_system instr funct3 d0 =
    (let d = d0\<lparr>di_rd := ucast (get_bits instr 11 7), di_csr := ucast (get_bits instr 31 20)\<rparr>;
         funct12 = get_bits instr 31 20;
         funct7 = drop_bit 25 instr
     in if funct3 = 0x0 then
          (if funct7 = 0x09 then
             d\<lparr>di_kind := I_SFENCE_VMA, di_rs1 := ucast (drop_bit 15 instr AND 0x1F),
               di_rs2 := ucast (drop_bit 20 instr AND 0x1F)\<rparr>
           else if funct12 = 0x0 then d\<lparr>di_kind := I_ECALL\<rparr>
           else if funct12 = 0x1 then d\<lparr>di_kind := I_EBREAK\<rparr>
           else if funct12 = 0x302 then d\<lparr>di_kind := I_MRET\<rparr>
           else if funct12 = 0x102 then d\<lparr>di_kind := I_SRET\<rparr>
           else if funct12 = 0x105 then d\<lparr>di_kind := I_WFI\<rparr>
           else d)
        else if funct3 = 0x1 then d\<lparr>di_kind := I_CSRRW\<rparr>
        else if funct3 = 0x2 then d\<lparr>di_kind := I_CSRRS\<rparr>
        else if funct3 = 0x3 then d\<lparr>di_kind := I_CSRRC\<rparr>
        else if funct3 = 0x5 then d\<lparr>di_kind := I_CSRRWI, di_imm := ucast (di_rs1 d)\<rparr>
        else if funct3 = 0x6 then d\<lparr>di_kind := I_CSRRSI, di_imm := ucast (di_rs1 d)\<rparr>
        else if funct3 = 0x7 then d\<lparr>di_kind := I_CSRRCI, di_imm := ucast (di_rs1 d)\<rparr>
        else d)"

definition decode_amo :: "u32 \<Rightarrow> InstrKind" where
  "decode_amo funct5 =
    (if funct5 = 0x2 then I_LR_W else if funct5 = 0x3 then I_SC_W
     else if funct5 = 0x1 then I_AMOSWAP_W else if funct5 = 0x0 then I_AMOADD_W
     else if funct5 = 0xC then I_AMOAND_W else if funct5 = 0x8 then I_AMOOR_W
     else if funct5 = 0x4 then I_AMOXOR_W else if funct5 = 0x10 then I_AMOMIN_W
     else if funct5 = 0x14 then I_AMOMAX_W else if funct5 = 0x18 then I_AMOMINU_W
     else if funct5 = 0x1C then I_AMOMAXU_W else I_INVALID)"

definition decode :: "u32 \<Rightarrow> DecodedInstr" where
  "decode instr =
    (let opcode = get_bits instr 6 0;
         funct3 = get_bits instr 14 12;
         funct7 = get_bits instr 31 25;
         d = DecodedInstr0\<lparr>di_raw := instr,
               di_rd := ucast (get_bits instr 11 7),
               di_rs1 := ucast (get_bits instr 19 15),
               di_rs2 := ucast (get_bits instr 24 20)\<rparr>
     in if opcode = 0x33 then d\<lparr>di_kind := decode_alu funct3 funct7, di_imm := 0\<rparr>
        else if opcode = 0x13 then
          d\<lparr>di_imm := sign_extend (get_bits instr 31 20) 12,
            di_kind := decode_alu_imm funct3 funct7, di_rs2 := 0\<rparr>
        else if opcode = 0x03 then
          d\<lparr>di_imm := sign_extend (get_bits instr 31 20) 12, di_kind := decode_load funct3\<rparr>
        else if opcode = 0x23 then
          d\<lparr>di_imm := sign_extend (imm_s instr) 12, di_kind := decode_store funct3, di_rd := 0\<rparr>
        else if opcode = 0x63 then
          d\<lparr>di_imm := sign_extend (imm_b instr) 13, di_kind := decode_branch funct3, di_rd := 0\<rparr>
        else if opcode = 0x6F then
          d\<lparr>di_imm := sign_extend (imm_j instr) 21, di_kind := I_JAL, di_rs1 := 0, di_rs2 := 0\<rparr>
        else if opcode = 0x67 then
          d\<lparr>di_imm := sign_extend (get_bits instr 31 20) 12, di_kind := I_JALR\<rparr>
        else if opcode = 0x37 then
          d\<lparr>di_imm := push_bit 12 (get_bits instr 31 12), di_kind := I_LUI, di_rs1 := 0, di_rs2 := 0\<rparr>
        else if opcode = 0x17 then
          d\<lparr>di_imm := push_bit 12 (get_bits instr 31 12), di_kind := I_AUIPC, di_rs1 := 0, di_rs2 := 0\<rparr>
        else if opcode = 0x0F then
          (if funct3 = 0x0 \<or> funct3 = 0x1 then
             d\<lparr>di_kind := I_FENCE, di_rd := ucast (get_bits instr 11 7),
               di_rs1 := ucast (get_bits instr 19 15), di_imm := get_bits instr 31 20\<rparr>
           else d)
        else if opcode = 0x73 then decode_system instr funct3 d
        else if opcode = 0x2F then d\<lparr>di_kind := decode_amo (get_bits instr 31 27)\<rparr>
        else d\<lparr>di_kind := I_INVALID\<rparr>)"


subsection \<open>Field extraction as bits\<close>

lemma get_bits_take: "get_bits x hi lo = take_bit (hi - lo + 1) (drop_bit lo x)"
proof -
  have "push_bit n 1 - 1 = (mask n :: u32)" for n
    by (simp add: mask_eq_exp_minus_1 push_bit_eq_mult)
  then show ?thesis
    by (simp only: get_bits_def take_bit_eq_mask)
qed

lemma bit_get_bits [simp]:
  "bit (get_bits x hi lo) k \<longleftrightarrow> k < hi - lo + 1 \<and> bit x (lo + k)"
  by (auto simp: get_bits_take bit_simps dest: bit_imp_le_length)

lemma word_less_exp_bit:
  fixes w :: "'a::len word"
  assumes "w < 2 ^ n" and "bit w k"
  shows "k < n"
proof (cases "n < LENGTH('a)")
  case True
  then have "uint w < 2 ^ n"
    using assms(1) word_2p_lem [of n w] by (simp add: word_size)
  then have "take_bit n (uint w) = uint w"
    by (simp add: take_bit_int_eq_self)
  moreover have "bit (uint w) k"
    using assms(2) by (simp add: bit_uint_iff bit_imp_le_length)
  ultimately show ?thesis
    by (metis bit_take_bit_iff)
next
  case False
  then show ?thesis
    using assms(2) bit_imp_le_length by fastforce
qed

lemma get_bits_less: "hi - lo + 1 < 32 \<Longrightarrow> get_bits x hi lo < 2 ^ (hi - lo + 1)"
  unfolding get_bits_take take_bit_eq_mask by (rule and_mask_less_size) (simp add: word_size)

lemma get_bits_nat_less:
  assumes "hi - lo + 1 = n" and "n < 32"
  shows "unat (get_bits x hi lo) < 2 ^ n"
proof -
  have "unat (get_bits x hi lo) = take_bit n (unat (drop_bit lo x))"
    using assms by (simp add: get_bits_take unsigned_take_bit_eq)
  then show ?thesis by simp
qed

lemma sign_extend_signed:
  assumes "0 < n" "n \<le> 32" and "\<And>k. bit v k \<Longrightarrow> k < n"
  shows "sign_extend v n = signed_take_bit (n - 1) v"
proof -
  let ?m = "push_bit (n - 1) 1 :: u32"
  have mb: "bit ?m k \<longleftrightarrow> k = n - 1" if "k < 32" for k
    using that assms by (auto simp: bit_simps)
  have lt: "n - 1 < LENGTH(32)" using assms by simp
  show ?thesis
  proof (cases "bit v (n - 1)")
    case True
    have "v XOR ?m = v AND NOT ?m"
      by (rule bit_word_eqI) (use True mb in \<open>auto simp: bit_simps\<close>)
    also have "\<dots> = v - ?m"
    proof -
      have "(v AND NOT ?m) AND ?m = 0"
        by (rule bit_word_eqI) (auto simp: bit_simps)
      then have "(v AND NOT ?m) + ?m = (v AND NOT ?m) OR ?m"
        by (rule disjunctive_add_eq_or)
      also have "\<dots> = v"
        by (rule bit_word_eqI) (use True mb in \<open>auto simp: bit_simps\<close>)
      finally show ?thesis by (simp add: algebra_simps)
    qed
    finally have a: "sign_extend v n = v - 2 * ?m"
      by (simp add: sign_extend_def)
    have "2 * ?m = push_bit n 1"
      using assms(1) by (cases n) (simp_all add: push_bit_eq_mult)
    moreover have "signed_take_bit (n - 1) v = take_bit n v - push_bit n 1"
    proof -
      have "take_bit n v = v"
        by (rule bit_word_eqI) (use assms(3) in \<open>auto simp: bit_simps\<close>)
      have "signed_take_bit (n - 1) v = v OR NOT (mask n)"
      proof (rule bit_word_eqI)
        fix k assume k: "k < LENGTH(32)"
        consider "k < n - 1" | "k = n - 1" | "n \<le> k"
          using assms(1) by linarith
        then show "bit (signed_take_bit (n - 1) v) k \<longleftrightarrow> bit (v OR NOT (mask n)) k"
          using True k assms(3) [of k] by cases (auto simp: bit_simps min_def)
      qed
      also have "\<dots> = v + NOT (mask n)"
      proof (rule disjunctive_add_eq_or [symmetric])
        show "v AND NOT (mask n) = 0"
          by (rule bit_word_eqI) (use assms(3) in \<open>auto simp: bit_simps\<close>)
      qed
      also have "NOT (mask n) = - (push_bit n 1 :: u32)"
        by (simp add: minus_exp_eq_not_mask push_bit_eq_mult)
      finally show ?thesis using \<open>take_bit n v = v\<close> by simp
    qed
    moreover have "take_bit n v = v"
      by (rule bit_word_eqI) (use assms(3) in \<open>auto simp: bit_simps\<close>)
    ultimately show ?thesis using a by simp
  next
    case False
    have "v XOR ?m = v OR ?m"
      by (rule bit_word_eqI) (use False mb in \<open>auto simp: bit_simps\<close>)
    also have "\<dots> = v + ?m"
    proof (rule disjunctive_add_eq_or [symmetric])
      show "v AND ?m = 0"
        by (rule bit_word_eqI) (use False mb in \<open>auto simp: bit_simps\<close>)
    qed
    finally have "sign_extend v n = v" by (simp add: sign_extend_def)
    moreover have "signed_take_bit (n - 1) v = v"
    proof (rule bit_word_eqI)
      fix k assume "k < LENGTH(32)"
      show "bit (signed_take_bit (n - 1) v) k \<longleftrightarrow> bit v k"
        using False assms(1) assms(3) [of k] \<open>k < LENGTH(32)\<close>
        by (cases "k = n - 1") (auto simp: bit_simps min_def not_le)
    qed
    ultimately show ?thesis by simp
  qed
qed

text \<open>A 32-bit word as the signed sum of its bits.\<close>

lemma sint_horner:
  "sint (w :: u32) = horner_sum of_bool 2 (map (bit w) [0..<31]) - 2 ^ 31 * of_bool (bit w 31)"
proof -
  have "sint w = signed_take_bit 31 (uint w)"
    by (simp add: sint_uint)
  also have "\<dots> = take_bit 31 (uint w) - 2 ^ 31 * of_bool (bit (uint w) 31)"
    by (simp add: signed_take_bit_eq_take_bit_minus take_bit_Suc_from_most [of 31, simplified])
  also have "take_bit 31 (uint w) = horner_sum of_bool 2 (map (bit (uint w)) [0..<31])"
    by (simp add: horner_sum_bit_eq_take_bit)
  also have "map (bit (uint w)) [0..<31] = map (bit w) [0..<31]"
    by (simp add: bit_uint_iff)
  finally show ?thesis by (simp add: bit_uint_iff)
qed

text \<open>The signed value of a sign-extended field.\<close>

lemma sint_sign_extend:
  assumes "0 < n" "n \<le> 32" and "\<And>k. bit v k \<Longrightarrow> k < n"
  shows "sint (sign_extend v n) = signed_take_bit (n - 1) (uint v)"
proof -
  have "sint (signed_take_bit (n - 1) v) = signed_take_bit (n - 1) (uint v)"
  proof (rule bit_eqI)
    fix k
    show "bit (sint (signed_take_bit (n - 1) v)) k \<longleftrightarrow> bit (signed_take_bit (n - 1) (uint v)) k"
      using assms(1,2) by (auto simp: bit_simps min_def)
  qed
  then show ?thesis using sign_extend_signed [OF assms] by simp
qed

lemma sign_extend_range:
  assumes "0 < n" "n \<le> 32" and "\<And>k. bit v k \<Longrightarrow> k < n"
  shows "- (2 ^ (n - 1)) \<le> sint (sign_extend v n)" "sint (sign_extend v n) < 2 ^ (n - 1)"
proof -
  have "sint (sign_extend v n) = signed_take_bit (n - 1) (uint v)"
    by (rule sint_sign_extend) (fact assms)+
  then show "- (2 ^ (n - 1)) \<le> sint (sign_extend v n)"
    "sint (sign_extend v n) < 2 ^ (n - 1)"
    by (simp_all only: signed_take_bit_int_greater_eq_minus_exp signed_take_bit_int_less_exp)
qed

subsection \<open>What the decoder guarantees\<close>

lemma decode_system_fields:
  "di_rd (decode_system w f d) = ucast (get_bits w 11 7)"
  "di_csr (decode_system w f d) = ucast (get_bits w 31 20)"
  "di_raw (decode_system w f d) = di_raw d"
  by (simp_all add: decode_system_def Let_def)

lemma ucast_get_bits_less:
  assumes "hi - lo + 1 = n" and "n < 8"
  shows "unat (ucast (get_bits x hi lo) :: u8) < 2 ^ n"
proof -
  have "unat (ucast (get_bits x hi lo) :: u8) = take_bit 8 (unat (get_bits x hi lo))"
    by (simp add: unsigned_ucast_eq)
  also have "\<dots> \<le> unat (get_bits x hi lo)" by (rule take_bit_nat_less_eq_self)
  also have "\<dots> < 2 ^ n" using assms by (intro get_bits_nat_less) auto
  finally show ?thesis .
qed

lemma reg_field_less [simp]:
  "(ucast (get_bits x 11 7) :: u8) < 32" "(ucast (get_bits x 19 15) :: u8) < 32"
  "(ucast (get_bits x 24 20) :: u8) < 32"
  using ucast_get_bits_less [of 11 7 5 x] ucast_get_bits_less [of 19 15 5 x]
    ucast_get_bits_less [of 24 20 5 x]
  by (simp_all add: word_less_nat_alt)

lemma reg_mask_less [simp]: "(ucast (drop_bit n (x :: u32) AND 0x1F) :: u8) < 32"
proof -
  have "drop_bit n x AND 0x1F = get_bits (drop_bit n x) 4 0"
    by (simp add: get_bits_def)
  then show ?thesis
    using ucast_get_bits_less [of 4 0 5 "drop_bit n x"] by (simp add: word_less_nat_alt)
qed

lemma csr_field_less [simp]: "(ucast (get_bits x 31 20) :: u16) < 4096"
proof -
  have "unat (ucast (get_bits x 31 20) :: u16) = take_bit 16 (unat (get_bits x 31 20))"
    by (simp add: unsigned_ucast_eq)
  also have "\<dots> \<le> unat (get_bits x 31 20)" by (rule take_bit_nat_less_eq_self)
  also have "\<dots> < 2 ^ 12" by (rule get_bits_nat_less) auto
  finally show ?thesis by (simp add: word_less_nat_alt)
qed

lemma decode_system_regs:
  "di_rs1 d < 32 \<Longrightarrow> di_rs2 d < 32 \<Longrightarrow>
   di_rs1 (decode_system w f d) < 32 \<and> di_rs2 (decode_system w f d) < 32"
  by (simp add: decode_system_def Let_def)

text \<open>
  Every register number the decoder produces indexes the 32 registers and every CSR
  number the 4096 control registers, so no instruction reads or writes past those arrays.
\<close>

theorem decode_in_range:
  "di_rd (decode w) < 32 \<and> di_rs1 (decode w) < 32 \<and> di_rs2 (decode w) < 32
   \<and> di_csr (decode w) < 4096"
  unfolding decode_def Let_def
  by (simp add: DecodedInstr0_def decode_system_fields decode_system_regs)

end
