(* ===== verification/Compressed.thy ===== *)
theory Compressed
  imports Decode
begin

section \<open>Decompression of 16-bit instructions\<close>

text \<open>
  The encoders and \<open>CPU::decompress\<close> of src/cpu/decode.cpp: a compressed instruction is
  rewritten to the 32-bit instruction it abbreviates, which then goes through \<open>decode\<close>.
  The half-word is widened to 32 bits first, as the integer promotions do.
\<close>

unbundle bit_operations_syntax

definition encodeJType :: "u32 \<Rightarrow> u32 \<Rightarrow> u32" where
  "encodeJType u rd = (let i20 = drop_bit 20 u AND 0x1;
       i10_1 = drop_bit 1 u AND 0x3FF;
       i11 = drop_bit 11 u AND 0x1;
       i19_12 = drop_bit 12 u AND 0xFF
     in push_bit 31 i20 OR push_bit 21 i10_1 OR push_bit 20 i11 OR push_bit 12 i19_12
        OR push_bit 7 rd OR 0x6F)"

definition encodeBType :: "u32 \<Rightarrow> u32 \<Rightarrow> u32 \<Rightarrow> u32 \<Rightarrow> u32" where
  "encodeBType u rs1 rs2 f3 = (let imm_12 = push_bit 19 (u AND 0x1000);
       imm_10_5 = push_bit 20 (u AND 0x7E0);
       imm_4_1 = push_bit 7 (u AND 0x1E);
       imm_11 = drop_bit 4 (u AND 0x800)
     in imm_12 OR imm_10_5 OR push_bit 20 rs2 OR push_bit 15 rs1 OR push_bit 12 f3
        OR imm_4_1 OR imm_11 OR 0x63)"

definition encodeIType :: "u32 \<Rightarrow> u32 \<Rightarrow> u32 \<Rightarrow> u32 \<Rightarrow> u32 \<Rightarrow> u32" where
  "encodeIType imm rs1 funct3 rd opcode =
     push_bit 20 (imm AND 0xFFF) OR push_bit 15 rs1 OR push_bit 12 funct3
     OR push_bit 7 rd OR opcode"

definition encodeSType :: "u32 \<Rightarrow> u32 \<Rightarrow> u32 \<Rightarrow> u32 \<Rightarrow> u32" where
  "encodeSType imm rs1 rs2 funct3 = (let u = imm AND 0xFFF
     in push_bit 25 (drop_bit 5 u) OR push_bit 20 rs2 OR push_bit 15 rs1
        OR push_bit 12 funct3 OR push_bit 7 (u AND 0x1F) OR 0x23)"

definition encodeRType :: "u32 \<Rightarrow> u32 \<Rightarrow> u32 \<Rightarrow> u32 \<Rightarrow> u32 \<Rightarrow> u32" where
  "encodeRType funct7 rs2 rs1 funct3 rd =
     push_bit 25 funct7 OR push_bit 20 rs2 OR push_bit 15 rs1 OR push_bit 12 funct3
     OR push_bit 7 rd OR 0x33"

text \<open>\<open>get_imm6\<close> and the sign extension \<open>if (imm & m) imm |= ext\<close> it and the jumps use.\<close>

definition or_if :: "u32 \<Rightarrow> u32 \<Rightarrow> u32 \<Rightarrow> u32" where
  "or_if imm m ext = (if imm AND m \<noteq> 0 then imm OR ext else imm)"

definition get_imm6 :: "u16 \<Rightarrow> u32" where
  "get_imm6 i = (let w = ucast i :: u32 in
     or_if (push_bit 5 (drop_bit 12 w AND 0x1) OR (drop_bit 2 w AND 0x1F)) 0x20 0xFFFFFFC0)"

text \<open>The immediates of the compressed formats, as the cases of the switch build them.\<close>

definition c_imm_addi4spn :: "u32 \<Rightarrow> u32" where
  "c_imm_addi4spn w = push_bit 6 (drop_bit 7 w AND 0xF) OR push_bit 4 (drop_bit 11 w AND 0x3)
     OR push_bit 3 (drop_bit 5 w AND 0x1) OR push_bit 2 (drop_bit 6 w AND 0x1)"

definition c_imm_lw :: "u32 \<Rightarrow> u32" where
  "c_imm_lw w = push_bit 3 (drop_bit 10 w AND 0x7) OR push_bit 2 (drop_bit 6 w AND 0x1)
     OR push_bit 6 (drop_bit 5 w AND 0x1)"

definition c_imm_j :: "u32 \<Rightarrow> u32" where
  "c_imm_j w = or_if (push_bit 11 (drop_bit 12 w AND 0x1) OR push_bit 10 (drop_bit 8 w AND 0x1)
     OR push_bit 8 (drop_bit 9 w AND 0x3) OR push_bit 7 (drop_bit 6 w AND 0x1)
     OR push_bit 6 (drop_bit 7 w AND 0x1) OR push_bit 5 (drop_bit 2 w AND 0x1)
     OR push_bit 4 (drop_bit 11 w AND 0x1) OR push_bit 1 (drop_bit 3 w AND 0x7))
     0x800 0xFFFFF000"

definition c_imm_addi16sp :: "u32 \<Rightarrow> u32" where
  "c_imm_addi16sp w = push_bit 9 (drop_bit 12 w AND 0x1) OR push_bit 7 (drop_bit 3 w AND 0x3)
     OR push_bit 6 (drop_bit 5 w AND 0x1) OR push_bit 5 (drop_bit 2 w AND 0x1)
     OR push_bit 4 (drop_bit 6 w AND 0x1)"

definition c_imm_b :: "u32 \<Rightarrow> u32" where
  "c_imm_b w = or_if (push_bit 8 (drop_bit 12 w AND 0x1) OR push_bit 3 (drop_bit 10 w AND 0x3)
     OR push_bit 6 (drop_bit 5 w AND 0x3) OR push_bit 5 (drop_bit 2 w AND 0x1)
     OR push_bit 1 (drop_bit 3 w AND 0x3)) 0x100 0xFFFFFE00"

definition c_imm_lwsp :: "u32 \<Rightarrow> u32" where
  "c_imm_lwsp w = push_bit 2 (drop_bit 4 w AND 0x7) OR push_bit 5 (drop_bit 12 w AND 0x1)
     OR push_bit 6 (drop_bit 2 w AND 0x3)"

definition c_imm_swsp :: "u32 \<Rightarrow> u32" where
  "c_imm_swsp w = push_bit 2 (drop_bit 9 w AND 0xF) OR push_bit 6 (drop_bit 7 w AND 0x3)"

definition c_shamt :: "u32 \<Rightarrow> u32" where
  "c_shamt w = push_bit 5 (drop_bit 12 w AND 0x1) OR (drop_bit 2 w AND 0x1F)"

text \<open>Bits 11:7, 6:2, and the three-bit register fields with 8 added.\<close>

definition c_rd :: "u32 \<Rightarrow> u32" where
  "c_rd w = drop_bit 7 w AND 0x1F"

definition c_rs2 :: "u32 \<Rightarrow> u32" where
  "c_rs2 w = drop_bit 2 w AND 0x1F"

definition c_rdp :: "u32 \<Rightarrow> u32" where
  "c_rdp w = 8 + (drop_bit 2 w AND 0x7)"

definition c_rs1p :: "u32 \<Rightarrow> u32" where
  "c_rs1p w = 8 + (drop_bit 7 w AND 0x7)"

text \<open>Quadrant 0: memory accesses and stack-pointer relative addresses.\<close>

definition decompress_q0 :: "u32 \<Rightarrow> u32 \<Rightarrow> u32" where
  "decompress_q0 w funct3 =
    (if funct3 = 0 then
       (let imm = c_imm_addi4spn w in
        if imm = 0 then 0 else encodeIType imm 2 0 (c_rdp w) 0x13)
     else if funct3 = 2 then encodeIType (c_imm_lw w) (c_rs1p w) 2 (c_rdp w) 0x03
     else if funct3 = 6 then encodeSType (c_imm_lw w) (c_rs1p w) (c_rdp w) 2
     else 0)"

text \<open>Quadrant 1, case 4: shifts by a constant and register logic.\<close>

definition decompress_q1_alu :: "u16 \<Rightarrow> u32 \<Rightarrow> u32" where
  "decompress_q1_alu i w =
    (let sub = drop_bit 10 w AND 0x3; shamt = c_shamt w
     in if sub = 0 then encodeIType shamt (c_rs1p w) 5 (c_rs1p w) 0x13
        else if sub = 1 then encodeIType (0x400 OR shamt) (c_rs1p w) 5 (c_rs1p w) 0x13
        else if sub = 2 then encodeIType (get_imm6 i) (c_rs1p w) 7 (c_rs1p w) 0x13
        else if sub = 3 then
          (let f2 = drop_bit 5 w AND 0x3
           in if f2 = 0 then encodeRType 0x20 (c_rdp w) (c_rs1p w) 0 (c_rs1p w)
              else if f2 = 1 then encodeRType 0x00 (c_rdp w) (c_rs1p w) 4 (c_rs1p w)
              else if f2 = 2 then encodeRType 0x00 (c_rdp w) (c_rs1p w) 6 (c_rs1p w)
              else if f2 = 3 then encodeRType 0x00 (c_rdp w) (c_rs1p w) 7 (c_rs1p w)
              else 0)
        else 0)"

text \<open>Quadrant 1: arithmetic, jumps and branches.\<close>

definition decompress_q1 :: "u16 \<Rightarrow> u32 \<Rightarrow> u32 \<Rightarrow> u32" where
  "decompress_q1 i w funct3 =
    (if funct3 = 0 then
       (let imm6 = get_imm6 i in
        if c_rd w = 0 \<and> imm6 = 0 then 0x00000013
        else encodeIType imm6 (c_rd w) 0 (c_rd w) 0x13)
     else if funct3 = 1 then encodeJType (c_imm_j w) 1
     else if funct3 = 2 then
       (if c_rd w = 0 then 0 else encodeIType (get_imm6 i) 0 0 (c_rd w) 0x13)
     else if funct3 = 3 then
       (if c_rd w = 2 then
          (let imm = c_imm_addi16sp w in
           if imm = 0 then 0
           else encodeIType (or_if imm 0x200 0xFFFFFC00) 2 0 2 0x13)
        else
          (let imm = get_imm6 i in
           if c_rd w = 0 \<or> imm = 0 then 0
           else push_bit 12 (imm AND 0xFFFFF) OR push_bit 7 (c_rd w) OR 0x37))
     else if funct3 = 4 then decompress_q1_alu i w
     else if funct3 = 5 then encodeJType (c_imm_j w) 0
     else if funct3 = 6 \<or> funct3 = 7 then
       encodeBType (c_imm_b w) (c_rs1p w) 0 (if funct3 = 6 then 0 else 1)
     else 0)"

text \<open>Quadrant 2: register moves, jumps through registers, stack accesses.\<close>

definition decompress_q2 :: "u32 \<Rightarrow> u32 \<Rightarrow> u32" where
  "decompress_q2 w funct3 =
    (if funct3 = 0 then encodeIType (c_shamt w) (c_rd w) 1 (c_rd w) 0x13
     else if funct3 = 2 then
       (if c_rd w = 0 then 0 else encodeIType (c_imm_lwsp w) 2 2 (c_rd w) 0x03)
     else if funct3 = 4 then
       (let bit12 = drop_bit 12 w AND 0x1 \<noteq> 0 in
        if \<not> bit12 \<and> c_rs2 w = 0 then encodeIType 0 (c_rd w) 0 0 0x67
        else if \<not> bit12 \<and> c_rs2 w \<noteq> 0 then encodeRType 0 (c_rs2 w) 0 0 (c_rd w)
        else if bit12 \<and> c_rd w = 0 \<and> c_rs2 w = 0 then 0x00100073
        else if bit12 \<and> c_rd w \<noteq> 0 \<and> c_rs2 w = 0 then encodeIType 0 (c_rd w) 0 1 0x67
        else if bit12 \<and> c_rd w \<noteq> 0 \<and> c_rs2 w \<noteq> 0
          then encodeRType 0 (c_rs2 w) (c_rd w) 0 (c_rd w)
        else 0)
     else if funct3 = 6 then encodeSType (c_imm_swsp w) 2 (c_rs2 w) 2
     else 0)"

definition decompress :: "u16 \<Rightarrow> u32" where
  "decompress i = (let w = ucast i :: u32; opc = w AND 0x3; funct3 = drop_bit 13 w AND 0x7
     in if opc = 0 then decompress_q0 w funct3
        else if opc = 1 then decompress_q1 i w funct3
        else if opc = 2 then decompress_q2 w funct3
        else 0)"


subsection \<open>Decoding what the encoders build\<close>

text \<open>
  \<open>fits n w\<close>: the word has no bit at or above \<open>n\<close>. The encoders place such fields side by
  side, so each extractor of the decoder gets its field back.
\<close>

definition fits :: "nat \<Rightarrow> u32 \<Rightarrow> bool" where
  "fits n w \<longleftrightarrow> take_bit n w = w"

lemma fitsD: "fits n w \<Longrightarrow> bit w k \<Longrightarrow> k < n"
  by (metis fits_def bit_take_bit_iff)

lemma fits_and_mask:
  "fits 5 (w AND 0x1F)"
  unfolding fits_def mask_lits by (rule bit_word_eqI) (auto simp: bit_simps)

lemma fits_c_fields [simp]:
  "fits 5 (c_rd w)" "fits 5 (c_rs2 w)" "fits 5 (c_rdp w)" "fits 5 (c_rs1p w)"
proof -
  have *: "fits 5 (8 + (x AND 0x7))" for x :: u32
  proof -
    have "8 AND (x AND 0x7) = 0"
      by (simp add: ac_simps)
    then have "8 + (x AND 0x7) = 8 OR (x AND 0x7)"
      by (rule disjunctive_add_eq_or)
    moreover have "fits 5 (8 OR (x AND 0x7))"
    proof -
      have "(8 :: u32) = push_bit 3 1" by simp
      then show ?thesis
        unfolding fits_def mask_lits by (simp only:) (rule bit_word_eqI, auto simp: bit_simps)
    qed
    ultimately show ?thesis by simp
  qed
  show "fits 5 (c_rd w)" "fits 5 (c_rs2 w)" "fits 5 (c_rdp w)" "fits 5 (c_rs1p w)"
    by (simp_all add: c_rd_def c_rs2_def c_rdp_def c_rs1p_def fits_and_mask *)
qed

lemma encodeIType_fields:
  assumes "fits 5 r" "fits 3 f" "fits 5 d" "fits 7 c"
  shows "get_bits (encodeIType v r f d c) 6 0 = c"
    and "get_bits (encodeIType v r f d c) 14 12 = f"
    and "get_bits (encodeIType v r f d c) 11 7 = d"
    and "get_bits (encodeIType v r f d c) 19 15 = r"
    and "get_bits (encodeIType v r f d c) 31 20 = get_bits v 11 0"
    and "get_bits (encodeIType v r f d c) 31 25 = get_bits v 11 5"
proof -
  note b = fitsD [OF assms(1)] fitsD [OF assms(2)] fitsD [OF assms(3)] fitsD [OF assms(4)]
  show "get_bits (encodeIType v r f d c) 6 0 = c"
    unfolding encodeIType_def mask_lits by (rule bit_word_eqI) (auto simp: bit_simps dest: b)
  show "get_bits (encodeIType v r f d c) 14 12 = f"
    unfolding encodeIType_def mask_lits by (rule bit_word_eqI) (auto simp: bit_simps dest: b)
  show "get_bits (encodeIType v r f d c) 11 7 = d"
    unfolding encodeIType_def mask_lits by (rule bit_word_eqI) (auto simp: bit_simps dest: b)
  show "get_bits (encodeIType v r f d c) 19 15 = r"
    unfolding encodeIType_def mask_lits by (rule bit_word_eqI) (auto simp: bit_simps dest: b)
  show "get_bits (encodeIType v r f d c) 31 20 = get_bits v 11 0"
    unfolding encodeIType_def mask_lits by (rule bit_word_eqI) (auto simp: bit_simps dest: b)
  show "get_bits (encodeIType v r f d c) 31 25 = get_bits v 11 5"
    unfolding encodeIType_def mask_lits by (rule bit_word_eqI) (auto simp: bit_simps dest: b)
qed

text \<open>
  Bits of the shapes the encoders and extractors are built from; a \<open>simp only\<close> with these
  turns an equation of words into a propositional one before arithmetic is used.
\<close>

lemma wbits:
  fixes x y :: u32
  shows "bit (x OR y) k \<longleftrightarrow> bit x k \<or> bit y k"
    and "bit (x AND y) k \<longleftrightarrow> bit x k \<and> bit y k"
    and "bit (push_bit n x) k \<longleftrightarrow> n \<le> k \<and> k < 32 \<and> bit x (k - n)"
    and "bit (drop_bit n x) k \<longleftrightarrow> bit x (n + k)"
    and "bit (take_bit n x) k \<longleftrightarrow> k < n \<and> bit x k"
    and "bit (get_bits x hi lo) k \<longleftrightarrow> k < hi - lo + 1 \<and> bit x (lo + k)"
  by (auto simp: bit_simps)

lemma bit_lits:
  "bit (0x1 :: u32) k \<longleftrightarrow> k = 0" "bit (0x3 :: u32) k \<longleftrightarrow> k < 2"
  "bit (0x7 :: u32) k \<longleftrightarrow> k < 3" "bit (0xF :: u32) k \<longleftrightarrow> k < 4"
  "bit (0x1F :: u32) k \<longleftrightarrow> k < 5" "bit (0xFF :: u32) k \<longleftrightarrow> k < 8"
  "bit (0x3FF :: u32) k \<longleftrightarrow> k < 10" "bit (0xFFF :: u32) k \<longleftrightarrow> k < 12"
  "bit (0xFFFFF :: u32) k \<longleftrightarrow> k < 20"
  "bit (0x1000 :: u32) k \<longleftrightarrow> k = 12" "bit (0x800 :: u32) k \<longleftrightarrow> k = 11"
  "bit (0x7E0 :: u32) k \<longleftrightarrow> 5 \<le> k \<and> k < 11" "bit (0x1E :: u32) k \<longleftrightarrow> 1 \<le> k \<and> k < 5"
  "bit (0x1FFE :: u32) k \<longleftrightarrow> 1 \<le> k \<and> k < 13"
  "bit (0x1FFFFE :: u32) k \<longleftrightarrow> 1 \<le> k \<and> k < 21"
proof -
  have e: "(0x1000 :: u32) = push_bit 12 (mask 1)" "(0x800 :: u32) = push_bit 11 (mask 1)"
    "(0x7E0 :: u32) = push_bit 5 (mask 6)" "(0x1E :: u32) = push_bit 1 (mask 4)"
    "(0x1FFE :: u32) = push_bit 1 (mask 12)" "(0x1FFFFE :: u32) = push_bit 1 (mask 20)"
    by (simp_all add: mask_numeral)
  show "bit (0x1000 :: u32) k \<longleftrightarrow> k = 12" "bit (0x800 :: u32) k \<longleftrightarrow> k = 11"
    "bit (0x7E0 :: u32) k \<longleftrightarrow> 5 \<le> k \<and> k < 11" "bit (0x1E :: u32) k \<longleftrightarrow> 1 \<le> k \<and> k < 5"
    "bit (0x1FFE :: u32) k \<longleftrightarrow> 1 \<le> k \<and> k < 13"
    "bit (0x1FFFFE :: u32) k \<longleftrightarrow> 1 \<le> k \<and> k < 21"
    by (simp_all only: e bit_push_bit_iff bit_mask_iff) auto
  show "bit (0x1 :: u32) k \<longleftrightarrow> k = 0" by (simp add: bit_1_iff)
  show "bit (0x3 :: u32) k \<longleftrightarrow> k < 2" "bit (0x7 :: u32) k \<longleftrightarrow> k < 3"
    "bit (0xF :: u32) k \<longleftrightarrow> k < 4" "bit (0x1F :: u32) k \<longleftrightarrow> k < 5"
    "bit (0xFF :: u32) k \<longleftrightarrow> k < 8" "bit (0x3FF :: u32) k \<longleftrightarrow> k < 10"
    "bit (0xFFF :: u32) k \<longleftrightarrow> k < 12" "bit (0xFFFFF :: u32) k \<longleftrightarrow> k < 20"
    by (simp_all only: mask_lits bit_mask_iff) auto
qed

text \<open>Equality of 32-bit words, bit by bit.\<close>

lemma u32_eqI:
  fixes x y :: u32
  assumes "list_all (\<lambda>k. bit x k \<longleftrightarrow> bit y k)
    [0, 1, 2, 3, 4, 5, 6, 7, 8, 9, 10, 11, 12, 13, 14, 15,
     16, 17, 18, 19, 20, 21, 22, 23, 24, 25, 26, 27, 28, 29, 30, 31]"
  shows "x = y"
proof -
  have l: "[0..<32] =
    [0, 1, 2, 3, 4, 5, 6, 7, 8, 9, 10, 11, 12, 13, 14, 15,
     16, 17, 18, 19, 20, 21, 22, 23, 24, 25, 26, 27, 28, 29, 30, 31]"
    by code_simp
  have "list_all (\<lambda>k. bit x k \<longleftrightarrow> bit y k) [0..<32]"
    unfolding l by (fact assms)
  then show ?thesis
    by (intro bit_word_eqI) (simp add: list_all_iff)
qed

lemma fits_hi: "fits n w \<Longrightarrow> n \<le> k \<Longrightarrow> \<not> bit w k"
  using fitsD [of n w k] by auto

lemma opcode_hi:
  "7 \<le> k \<Longrightarrow> \<not> bit (0x23 :: u32) k" "7 \<le> k \<Longrightarrow> \<not> bit (0x63 :: u32) k"
  "7 \<le> k \<Longrightarrow> \<not> bit (0x6F :: u32) k" "7 \<le> k \<Longrightarrow> \<not> bit (0x33 :: u32) k"
proof -
  have *: "take_bit 7 w = w \<Longrightarrow> 7 \<le> k \<Longrightarrow> \<not> bit w k" for w :: u32
    by (rule fits_hi) (simp add: fits_def)
  show "7 \<le> k \<Longrightarrow> \<not> bit (0x23 :: u32) k" "7 \<le> k \<Longrightarrow> \<not> bit (0x63 :: u32) k"
    "7 \<le> k \<Longrightarrow> \<not> bit (0x6F :: u32) k" "7 \<le> k \<Longrightarrow> \<not> bit (0x33 :: u32) k"
    by (rule *, simp, assumption)+
qed

lemma opcode_bits:
  "bit (0x23 :: u32) k \<Longrightarrow> k < 7" "bit (0x63 :: u32) k \<Longrightarrow> k < 7"
  "bit (0x6F :: u32) k \<Longrightarrow> k < 7" "bit (0x33 :: u32) k \<Longrightarrow> k < 7"
  using opcode_hi by (metis not_le)+

lemmas encoder_defs =
  encodeSType_def encodeBType_def encodeJType_def encodeRType_def encodeIType_def Let_def
  imm_s_def imm_b_def imm_j_def

lemma encodeSType_fields:
  assumes "fits 5 r" "fits 5 s" "fits 3 f"
  shows "get_bits (encodeSType v r s f) 6 0 = 0x23"
    and "get_bits (encodeSType v r s f) 14 12 = f"
    and "get_bits (encodeSType v r s f) 19 15 = r"
    and "get_bits (encodeSType v r s f) 24 20 = s"
    and "imm_s (encodeSType v r s f) = get_bits v 11 0"
proof -
  note hi = fits_hi [OF assms(1)] fits_hi [OF assms(2)] fits_hi [OF assms(3)]
    opcode_hi
  note lo = fitsD [OF assms(1)] fitsD [OF assms(2)] fitsD [OF assms(3)] opcode_bits
  show "get_bits (encodeSType v r s f) 6 0 = 0x23"
    unfolding encoder_defs
    by (rule u32_eqI, simp only: list.pred_inject wbits bit_lits)
      (simp add: hi numeral_2_eq_2 [symmetric])
  show "get_bits (encodeSType v r s f) 14 12 = f"
    unfolding encoder_defs
    by (rule u32_eqI, simp only: list.pred_inject wbits bit_lits)
      (simp add: hi numeral_2_eq_2 [symmetric])
  show "get_bits (encodeSType v r s f) 19 15 = r"
    unfolding encoder_defs
    by (rule u32_eqI, simp only: list.pred_inject wbits bit_lits)
      (simp add: hi numeral_2_eq_2 [symmetric])
  show "get_bits (encodeSType v r s f) 24 20 = s"
    unfolding encoder_defs
    by (rule u32_eqI, simp only: list.pred_inject wbits bit_lits)
      (simp add: hi numeral_2_eq_2 [symmetric])
  show "imm_s (encodeSType v r s f) = get_bits v 11 0"
    unfolding encoder_defs
    by (rule u32_eqI, simp only: list.pred_inject wbits bit_lits)
      (simp add: hi numeral_2_eq_2 [symmetric])
qed

lemma encodeBType_fields:
  assumes "fits 5 r" "fits 5 s" "fits 3 f"
  shows "get_bits (encodeBType v r s f) 6 0 = 0x63"
    and "get_bits (encodeBType v r s f) 14 12 = f"
    and "get_bits (encodeBType v r s f) 19 15 = r"
    and "get_bits (encodeBType v r s f) 24 20 = s"
    and "imm_b (encodeBType v r s f) = v AND 0x1FFE"
proof -
  note hi = fits_hi [OF assms(1)] fits_hi [OF assms(2)] fits_hi [OF assms(3)]
    opcode_hi
  note lo = fitsD [OF assms(1)] fitsD [OF assms(2)] fitsD [OF assms(3)] opcode_bits
  show "get_bits (encodeBType v r s f) 6 0 = 0x63"
    unfolding encoder_defs
    by (rule u32_eqI, simp only: list.pred_inject wbits bit_lits)
      (simp add: hi numeral_2_eq_2 [symmetric])
  show "get_bits (encodeBType v r s f) 14 12 = f"
    unfolding encoder_defs
    by (rule u32_eqI, simp only: list.pred_inject wbits bit_lits)
      (simp add: hi numeral_2_eq_2 [symmetric])
  show "get_bits (encodeBType v r s f) 19 15 = r"
    unfolding encoder_defs
    by (rule u32_eqI, simp only: list.pred_inject wbits bit_lits)
      (simp add: hi numeral_2_eq_2 [symmetric])
  show "get_bits (encodeBType v r s f) 24 20 = s"
    unfolding encoder_defs
    by (rule u32_eqI, simp only: list.pred_inject wbits bit_lits)
      (simp add: hi numeral_2_eq_2 [symmetric])
  show "imm_b (encodeBType v r s f) = v AND 0x1FFE"
    unfolding encoder_defs
    by (rule u32_eqI, simp only: list.pred_inject wbits bit_lits)
      (simp add: hi numeral_2_eq_2 [symmetric])
qed

lemma encodeJType_fields:
  assumes "fits 5 d"
  shows "get_bits (encodeJType v d) 6 0 = 0x6F"
    and "get_bits (encodeJType v d) 11 7 = d"
    and "imm_j (encodeJType v d) = v AND 0x1FFFFE"
proof -
  note hi = fits_hi [OF assms(1)]
    opcode_hi
  note lo = fitsD [OF assms(1)] opcode_bits
  show "get_bits (encodeJType v d) 6 0 = 0x6F"
    unfolding encoder_defs
    by (rule u32_eqI, simp only: list.pred_inject wbits bit_lits)
      (simp add: hi numeral_2_eq_2 [symmetric])
  show "get_bits (encodeJType v d) 11 7 = d"
    unfolding encoder_defs
    by (rule u32_eqI, simp only: list.pred_inject wbits bit_lits)
      (simp add: hi numeral_2_eq_2 [symmetric])
  show "imm_j (encodeJType v d) = v AND 0x1FFFFE"
    unfolding encoder_defs
    by (rule u32_eqI, simp only: list.pred_inject wbits bit_lits)
      (simp add: hi numeral_2_eq_2 [symmetric])
qed

lemma encodeRType_fields:
  assumes "fits 7 g" "fits 5 s" "fits 5 r" "fits 3 f" "fits 5 d"
  shows "get_bits (encodeRType g s r f d) 6 0 = 0x33"
    and "get_bits (encodeRType g s r f d) 14 12 = f"
    and "get_bits (encodeRType g s r f d) 11 7 = d"
    and "get_bits (encodeRType g s r f d) 19 15 = r"
    and "get_bits (encodeRType g s r f d) 24 20 = s"
    and "get_bits (encodeRType g s r f d) 31 25 = g"
proof -
  note hi = fits_hi [OF assms(1)] fits_hi [OF assms(2)] fits_hi [OF assms(3)] fits_hi [OF assms(4)] fits_hi [OF assms(5)]
    opcode_hi
  note lo = fitsD [OF assms(1)] fitsD [OF assms(2)] fitsD [OF assms(3)] fitsD [OF assms(4)] fitsD [OF assms(5)] opcode_bits
  show "get_bits (encodeRType g s r f d) 6 0 = 0x33"
    unfolding encoder_defs
    by (rule u32_eqI, simp only: list.pred_inject wbits bit_lits)
      (simp add: hi numeral_2_eq_2 [symmetric])
  show "get_bits (encodeRType g s r f d) 14 12 = f"
    unfolding encoder_defs
    by (rule u32_eqI, simp only: list.pred_inject wbits bit_lits)
      (simp add: hi numeral_2_eq_2 [symmetric])
  show "get_bits (encodeRType g s r f d) 11 7 = d"
    unfolding encoder_defs
    by (rule u32_eqI, simp only: list.pred_inject wbits bit_lits)
      (simp add: hi numeral_2_eq_2 [symmetric])
  show "get_bits (encodeRType g s r f d) 19 15 = r"
    unfolding encoder_defs
    by (rule u32_eqI, simp only: list.pred_inject wbits bit_lits)
      (simp add: hi numeral_2_eq_2 [symmetric])
  show "get_bits (encodeRType g s r f d) 24 20 = s"
    unfolding encoder_defs
    by (rule u32_eqI, simp only: list.pred_inject wbits bit_lits)
      (simp add: hi numeral_2_eq_2 [symmetric])
  show "get_bits (encodeRType g s r f d) 31 25 = g"
    unfolding encoder_defs
    by (rule u32_eqI, simp only: list.pred_inject wbits bit_lits)
      (simp add: hi numeral_2_eq_2 [symmetric])
qed

subsection \<open>What each format decodes to\<close>

lemma decode_encodeI:
  assumes "fits 5 r" "fits 3 f" "fits 5 d"
  shows "decode (encodeIType v r f d 0x13) =
      DecodedInstr0\<lparr>di_raw := encodeIType v r f d 0x13, di_rd := ucast d, di_rs1 := ucast r,
        di_rs2 := 0, di_imm := sign_extend (get_bits v 11 0) 12,
        di_kind := decode_alu_imm f (get_bits v 11 5)\<rparr>"
    and "di_kind (decode (encodeIType v r f d 0x03)) = decode_load f"
    and "di_rd (decode (encodeIType v r f d 0x03)) = ucast d"
    and "di_rs1 (decode (encodeIType v r f d 0x03)) = ucast r"
    and "di_imm (decode (encodeIType v r f d 0x03)) = sign_extend (get_bits v 11 0) 12"
    and "di_kind (decode (encodeIType v r f d 0x67)) = I_JALR"
    and "di_rd (decode (encodeIType v r f d 0x67)) = ucast d"
    and "di_rs1 (decode (encodeIType v r f d 0x67)) = ucast r"
    and "di_imm (decode (encodeIType v r f d 0x67)) = sign_extend (get_bits v 11 0) 12"
proof -
  have f: "fits 7 0x13" "fits 7 0x03" "fits 7 0x67" by (simp_all add: fits_def)
  note e = encodeIType_fields [OF assms f(1)] encodeIType_fields [OF assms f(2)]
    encodeIType_fields [OF assms f(3)]
  show "decode (encodeIType v r f d 0x13) =
      DecodedInstr0\<lparr>di_raw := encodeIType v r f d 0x13, di_rd := ucast d, di_rs1 := ucast r,
        di_rs2 := 0, di_imm := sign_extend (get_bits v 11 0) 12,
        di_kind := decode_alu_imm f (get_bits v 11 5)\<rparr>"
    by (simp add: decode_def Let_def e DecodedInstr0_def)
  show "di_kind (decode (encodeIType v r f d 0x03)) = decode_load f"
    "di_rd (decode (encodeIType v r f d 0x03)) = ucast d"
    "di_rs1 (decode (encodeIType v r f d 0x03)) = ucast r"
    "di_imm (decode (encodeIType v r f d 0x03)) = sign_extend (get_bits v 11 0) 12"
    "di_kind (decode (encodeIType v r f d 0x67)) = I_JALR"
    "di_rd (decode (encodeIType v r f d 0x67)) = ucast d"
    "di_rs1 (decode (encodeIType v r f d 0x67)) = ucast r"
    "di_imm (decode (encodeIType v r f d 0x67)) = sign_extend (get_bits v 11 0) 12"
    by (simp_all add: decode_def Let_def e)
qed

lemma decode_encodeS:
  assumes "fits 5 r" "fits 5 s" "fits 3 f"
  shows "decode (encodeSType v r s f) =
      DecodedInstr0\<lparr>di_raw := encodeSType v r s f, di_rs1 := ucast r, di_rs2 := ucast s,
        di_imm := sign_extend (get_bits v 11 0) 12, di_kind := decode_store f\<rparr>"
  by (simp add: decode_def Let_def encodeSType_fields [OF assms] DecodedInstr0_def)

lemma decode_encodeB:
  assumes "fits 5 r" "fits 5 s" "fits 3 f"
  shows "decode (encodeBType v r s f) =
      DecodedInstr0\<lparr>di_raw := encodeBType v r s f, di_rs1 := ucast r, di_rs2 := ucast s,
        di_imm := sign_extend (v AND 0x1FFE) 13, di_kind := decode_branch f\<rparr>"
  by (simp add: decode_def Let_def encodeBType_fields [OF assms] DecodedInstr0_def)

lemma decode_encodeJ:
  assumes "fits 5 d"
  shows "decode (encodeJType v d) =
      DecodedInstr0\<lparr>di_raw := encodeJType v d, di_rd := ucast d,
        di_imm := sign_extend (v AND 0x1FFFFE) 21, di_kind := I_JAL\<rparr>"
  by (simp add: decode_def Let_def encodeJType_fields [OF assms] DecodedInstr0_def)

lemma decode_encodeR:
  assumes "fits 7 g" "fits 5 s" "fits 5 r" "fits 3 f" "fits 5 d"
  shows "decode (encodeRType g s r f d) =
      DecodedInstr0\<lparr>di_raw := encodeRType g s r f d, di_rd := ucast d, di_rs1 := ucast r,
        di_rs2 := ucast s, di_kind := decode_alu f g\<rparr>"
  by (simp add: decode_def Let_def encodeRType_fields [OF assms] DecodedInstr0_def)

lemma decode_lui:
  assumes "fits 5 d"
  shows "di_kind (decode (push_bit 12 (v AND 0xFFFFF) OR push_bit 7 d OR 0x37)) = I_LUI"
    and "di_rd (decode (push_bit 12 (v AND 0xFFFFF) OR push_bit 7 d OR 0x37)) = ucast d"
    and "di_imm (decode (push_bit 12 (v AND 0xFFFFF) OR push_bit 7 d OR 0x37)) = push_bit 12 v"
proof -
  let ?w = "push_bit 12 (v AND 0xFFFFF) OR push_bit 7 d OR 0x37"
  note hi = fits_hi [OF assms]
  have 1: "get_bits ?w 6 0 = 0x37"
    by (rule u32_eqI, simp only: list.pred_inject wbits bit_lits) (simp add: hi)
  have 2: "get_bits ?w 11 7 = d"
    by (rule u32_eqI, simp only: list.pred_inject wbits bit_lits)
      (simp add: hi numeral_2_eq_2 [symmetric])
  have 3: "push_bit 12 (get_bits ?w 31 12) = push_bit 12 v"
    by (rule u32_eqI, simp only: list.pred_inject wbits bit_lits)
      (simp add: hi numeral_2_eq_2 [symmetric])
  show "di_kind (decode ?w) = I_LUI" "di_rd (decode ?w) = ucast d"
    "di_imm (decode ?w) = push_bit 12 v"
    unfolding decode_def Let_def 1 2 3 by simp_all
qed

text \<open>The signed value of an extended field as a weighted sum of its bits.\<close>

lemma sint_sign_extend_bits:
  assumes "0 < n" "n \<le> 32" and "\<And>k. bit v k \<Longrightarrow> k < n"
  shows "sint (sign_extend v n) =
    horner_sum of_bool 2 (map (bit v) [0..<n - 1]) - 2 ^ (n - 1) * of_bool (bit v (n - 1))"
proof -
  obtain m where n: "n = Suc m" using assms(1) by (cases n) auto
  have "sint (sign_extend v n) = signed_take_bit m (uint v)"
    using sint_sign_extend [OF assms] n by simp
  also have "\<dots> = take_bit m (uint v) - 2 ^ m * of_bool (bit (uint v) m)"
    by (simp add: signed_take_bit_eq_take_bit_minus take_bit_Suc_from_most)
  also have "take_bit m (uint v) = horner_sum of_bool 2 (map (bit (uint v)) [0..<m])"
    by (simp add: horner_sum_bit_eq_take_bit)
  also have "map (bit (uint v)) [0..<m] = map (bit v) [0..<m]"
    using assms(2) n by (intro map_cong) (auto simp: bit_uint_iff)
  also have "bit (uint v) m = bit v m"
    using assms(2) n by (simp add: bit_uint_iff)
  finally show ?thesis by (simp add: n)
qed

end
