(* ===== verification/RvcSpec.thy ===== *)
theory RvcSpec
  imports Compressed
begin

section \<open>The compressed instruction set, and the decompressor against it\<close>

text \<open>
  \<open>rvc_spec\<close> lists the RV32C instructions as the architecture manual does: the operation,
  its registers and the value of its immediate as a weighted sum of instruction bits. The
  theorem of this theory says that \<open>decompress\<close> followed by \<open>decode\<close> implements the list,
  outside the encodings of \<open>rvc_quirk\<close>, which the code treats in its own way.
\<close>

unbundle bit_operations_syntax

text \<open>A missing register is one the operation does not read or write.\<close>

datatype rvc = Rvc InstrKind "u8 option" "u8 option" "u8 option" int

definition bv :: "u32 \<Rightarrow> nat \<Rightarrow> int" where
  "bv w k = of_bool (bit w k)"

definition spec_imm6 :: "u32 \<Rightarrow> int" where
  "spec_imm6 w = - 32 * bv w 12 + 16 * bv w 6 + 8 * bv w 5 + 4 * bv w 4 + 2 * bv w 3 + bv w 2"

definition spec_shamt :: "u32 \<Rightarrow> int" where
  "spec_shamt w = 16 * bv w 6 + 8 * bv w 5 + 4 * bv w 4 + 2 * bv w 3 + bv w 2"

definition spec_addi4spn :: "u32 \<Rightarrow> int" where
  "spec_addi4spn w = 512 * bv w 10 + 256 * bv w 9 + 128 * bv w 8 + 64 * bv w 7
     + 32 * bv w 12 + 16 * bv w 11 + 8 * bv w 5 + 4 * bv w 6"

definition spec_lw :: "u32 \<Rightarrow> int" where
  "spec_lw w = 64 * bv w 5 + 32 * bv w 12 + 16 * bv w 11 + 8 * bv w 10 + 4 * bv w 6"

definition spec_j :: "u32 \<Rightarrow> int" where
  "spec_j w = - 2048 * bv w 12 + 1024 * bv w 8 + 512 * bv w 10 + 256 * bv w 9 + 128 * bv w 6
     + 64 * bv w 7 + 32 * bv w 2 + 16 * bv w 11 + 8 * bv w 5 + 4 * bv w 4 + 2 * bv w 3"

definition spec_addi16sp :: "u32 \<Rightarrow> int" where
  "spec_addi16sp w = - 512 * bv w 12 + 256 * bv w 4 + 128 * bv w 3 + 64 * bv w 5
     + 32 * bv w 2 + 16 * bv w 6"

definition spec_b :: "u32 \<Rightarrow> int" where
  "spec_b w = - 256 * bv w 12 + 128 * bv w 6 + 64 * bv w 5 + 32 * bv w 2 + 16 * bv w 11
     + 8 * bv w 10 + 4 * bv w 4 + 2 * bv w 3"

definition spec_lwsp :: "u32 \<Rightarrow> int" where
  "spec_lwsp w = 128 * bv w 3 + 64 * bv w 2 + 32 * bv w 12 + 16 * bv w 6 + 8 * bv w 5 + 4 * bv w 4"

definition spec_swsp :: "u32 \<Rightarrow> int" where
  "spec_swsp w = 128 * bv w 8 + 64 * bv w 7 + 32 * bv w 12 + 16 * bv w 11 + 8 * bv w 10 + 4 * bv w 9"

text \<open>The shift amount of an arithmetic right shift sits below bit 10 of the immediate.\<close>

definition spec_q0 :: "u32 \<Rightarrow> u32 \<Rightarrow> rvc option" where
  "spec_q0 w f3 =
    (let rdp = Some (ucast (c_rdp w)); rs1p = Some (ucast (c_rs1p w)) in
     if f3 = 0 then
       (if spec_addi4spn w = 0 then None
        else Some (Rvc I_ADDI rdp (Some 2) None (spec_addi4spn w)))
     else if f3 = 2 then Some (Rvc I_LW rdp rs1p None (spec_lw w))
     else if f3 = 6 then Some (Rvc I_SW None rs1p rdp (spec_lw w))
     else None)"

definition spec_q1_alu :: "u32 \<Rightarrow> rvc option" where
  "spec_q1_alu w =
    (let rdp = Some (ucast (c_rdp w)); rs1p = Some (ucast (c_rs1p w));
         sub = drop_bit 10 w AND 3; f2 = drop_bit 5 w AND 3 in
     if sub = 0 then
       (if bit w 12 then None else Some (Rvc I_SRLI rs1p rs1p None (spec_shamt w)))
     else if sub = 1 then
       (if bit w 12 then None else Some (Rvc I_SRAI rs1p rs1p None (1024 + spec_shamt w)))
     else if sub = 2 then Some (Rvc I_ANDI rs1p rs1p None (spec_imm6 w))
     else if bit w 12 then None
     else Some (Rvc (if f2 = 0 then I_SUB else if f2 = 1 then I_XOR
                     else if f2 = 2 then I_OR else I_AND) rs1p rs1p rdp 0))"

definition spec_q1 :: "u32 \<Rightarrow> u32 \<Rightarrow> rvc option" where
  "spec_q1 w f3 =
    (let rd = Some (ucast (c_rd w)); rs1p = Some (ucast (c_rs1p w)) in
     if f3 = 0 then Some (Rvc I_ADDI rd rd None (spec_imm6 w))
     else if f3 = 1 then Some (Rvc I_JAL (Some 1) None None (spec_j w))
     else if f3 = 2 then Some (Rvc I_ADDI rd (Some 0) None (spec_imm6 w))
     else if f3 = 3 then
       (if c_rd w = 2 then
          (if spec_addi16sp w = 0 then None
           else Some (Rvc I_ADDI (Some 2) (Some 2) None (spec_addi16sp w)))
        else if spec_imm6 w = 0 then None
        else Some (Rvc I_LUI rd None None (4096 * spec_imm6 w)))
     else if f3 = 4 then spec_q1_alu w
     else if f3 = 5 then Some (Rvc I_JAL (Some 0) None None (spec_j w))
     else if f3 = 6 then Some (Rvc I_BEQ None rs1p (Some 0) (spec_b w))
     else Some (Rvc I_BNE None rs1p (Some 0) (spec_b w)))"

definition spec_q2 :: "u32 \<Rightarrow> u32 \<Rightarrow> rvc option" where
  "spec_q2 w f3 =
    (let rd = Some (ucast (c_rd w)); rs2 = Some (ucast (c_rs2 w)) in
     if f3 = 0 then (if bit w 12 then None else Some (Rvc I_SLLI rd rd None (spec_shamt w)))
     else if f3 = 2 then
       (if c_rd w = 0 then None else Some (Rvc I_LW rd (Some 2) None (spec_lwsp w)))
     else if f3 = 4 then
       (if \<not> bit w 12 then
          (if c_rs2 w = 0 then
             (if c_rd w = 0 then None else Some (Rvc I_JALR (Some 0) rd None 0))
           else Some (Rvc I_ADD rd (Some 0) rs2 0))
        else if c_rs2 w = 0 then
          (if c_rd w = 0 then Some (Rvc I_EBREAK None None None 0)
           else Some (Rvc I_JALR (Some 1) rd None 0))
        else Some (Rvc I_ADD rd rd rs2 0))
     else if f3 = 6 then Some (Rvc I_SW None (Some 2) rs2 (spec_swsp w))
     else None)"

definition rvc_spec :: "u16 \<Rightarrow> rvc option" where
  "rvc_spec i = (let w = ucast i :: u32; opc = w AND 3; f3 = drop_bit 13 w AND 7
     in if opc = 0 then spec_q0 w f3
        else if opc = 1 then spec_q1 w f3
        else if opc = 2 then spec_q2 w f3
        else None)"

text \<open>
  Encodings on which the code departs from the list: hints with destination \<open>x0\<close>, which it
  refuses (\<open>C.LI\<close>, \<open>C.LUI\<close>, \<open>C.ADD\<close>), and reserved encodings, which it accepts
  (\<open>C.JR x0\<close>, register operations with bit 12 set, \<open>C.SLLI\<close> by 32 or more).
\<close>

definition rvc_quirk :: "u16 \<Rightarrow> bool" where
  "rvc_quirk i = (let w = ucast i :: u32; opc = w AND 3; f3 = drop_bit 13 w AND 7
     in opc = 1 \<and> f3 = 2 \<and> c_rd w = 0
      \<or> opc = 1 \<and> f3 = 3 \<and> c_rd w = 0
      \<or> opc = 1 \<and> f3 = 4 \<and> drop_bit 10 w AND 3 = 3 \<and> bit w 12
      \<or> opc = 2 \<and> f3 = 0 \<and> bit w 12
      \<or> opc = 2 \<and> f3 = 4 \<and> \<not> bit w 12 \<and> c_rd w = 0 \<and> c_rs2 w = 0
      \<or> opc = 2 \<and> f3 = 4 \<and> bit w 12 \<and> c_rd w = 0 \<and> c_rs2 w \<noteq> 0)"

definition agrees_opt :: "u8 option \<Rightarrow> u8 \<Rightarrow> bool" where
  "agrees_opt r x = (case r of None \<Rightarrow> True | Some y \<Rightarrow> x = y)"

text \<open>A decoded instruction is the one the list names; \<open>None\<close> means illegal.\<close>

fun implements :: "DecodedInstr \<Rightarrow> rvc option \<Rightarrow> bool" where
  "implements d None \<longleftrightarrow> di_kind d = I_INVALID"
| "implements d (Some (Rvc k a b c v)) \<longleftrightarrow>
     di_kind d = k \<and> agrees_opt a (di_rd d) \<and> agrees_opt b (di_rs1 d)
     \<and> agrees_opt c (di_rs2 d) \<and> sint (di_imm d) = v"

subsection \<open>The immediates\<close>

lemma bit_or_if:
  "bit (or_if v m e) k \<longleftrightarrow> bit v k \<or> (v AND m \<noteq> 0 \<and> bit e k)"
  by (simp add: or_if_def bit_or_iff)

lemma and_pow2_nonzero:
  "(v :: u32) AND 0x20 \<noteq> 0 \<longleftrightarrow> bit v 5" "v AND 0x100 \<noteq> 0 \<longleftrightarrow> bit v 8"
  "v AND 0x200 \<noteq> 0 \<longleftrightarrow> bit v 9" "v AND 0x800 \<noteq> 0 \<longleftrightarrow> bit v 11"
proof -
  have *: "v AND push_bit n 1 \<noteq> 0 \<longleftrightarrow> bit v n" if "n < 32" for n
    using that by (simp add: and_exp_eq_0_iff_not_bit push_bit_eq_mult)
  show "v AND 0x20 \<noteq> 0 \<longleftrightarrow> bit v 5" "v AND 0x100 \<noteq> 0 \<longleftrightarrow> bit v 8"
    "v AND 0x200 \<noteq> 0 \<longleftrightarrow> bit v 9" "v AND 0x800 \<noteq> 0 \<longleftrightarrow> bit v 11"
    using * [of 5] * [of 8] * [of 9] * [of 11] by simp_all
qed

lemmas c_imm_defs =
  get_imm6_def c_imm_addi4spn_def c_imm_lw_def c_imm_j_def c_imm_addi16sp_def c_imm_b_def
  c_imm_lwsp_def c_imm_swsp_def c_shamt_def Let_def

lemmas spec_imm_defs =
  spec_imm6_def spec_shamt_def spec_addi4spn_def spec_lw_def spec_j_def spec_addi16sp_def
  spec_b_def spec_lwsp_def spec_swsp_def bv_def

lemma map_bits_11:
  "map f [0..<11] = [f 0, f 1, f 2, f 3, f 4, f 5, f 6, f 7, f 8, f 9, f 10]"
  "map f [0..<12] = [f 0, f 1, f 2, f 3, f 4, f 5, f 6, f 7, f 8, f 9, f 10, f 11]"
  "map f [0..<20] = [f 0, f 1, f 2, f 3, f 4, f 5, f 6, f 7, f 8, f 9, f 10, f 11, f 12,
     f 13, f 14, f 15, f 16, f 17, f 18, f 19]"
  by (simp_all add: upt_rec numeral_2_eq_2 [symmetric])

lemma I_imm_bits:
  "sint (sign_extend (get_bits v 11 0) 12) =
    horner_sum of_bool 2 (map (bit v) [0..<11]) - 2 ^ 11 * of_bool (bit v 11)"
proof -
  have m: "map (bit (get_bits v 11 0)) [0..<11] = map (bit v) [0..<11]"
    by (rule map_cong) auto
  have "sint (sign_extend (get_bits v 11 0) 12) =
    horner_sum of_bool 2 (map (bit (get_bits v 11 0)) [0..<12 - 1])
      - 2 ^ (12 - 1) * of_bool (bit (get_bits v 11 0) (12 - 1))"
    by (rule sint_sign_extend_bits) auto
  then show ?thesis by (simp add: m)
qed

lemma imm_I:
  "sint (sign_extend (get_bits (get_imm6 i) 11 0) 12) = spec_imm6 (ucast i)"
  "sint (sign_extend (get_bits (c_imm_addi4spn w) 11 0) 12) = spec_addi4spn w"
  "sint (sign_extend (get_bits (c_imm_lw w) 11 0) 12) = spec_lw w"
  "sint (sign_extend (get_bits (or_if (c_imm_addi16sp w) 0x200 0xFFFFFC00) 11 0) 12)
     = spec_addi16sp w"
  "sint (sign_extend (get_bits (c_imm_lwsp w) 11 0) 12) = spec_lwsp w"
  "sint (sign_extend (get_bits (c_imm_swsp w) 11 0) 12) = spec_swsp w"
  unfolding I_imm_bits map_bits_11 spec_imm_defs c_imm_defs bit_or_if and_pow2_nonzero
    wbits bit_lits
  by simp_all

lemma imm_BJ:
  "sint (sign_extend (c_imm_b w AND 0x1FFE) 13) = spec_b w"
  "sint (sign_extend (c_imm_j w AND 0x1FFFFE) 21) = spec_j w"
proof -
  have d: "13 - 1 = (12 :: nat)" "21 - 1 = (20 :: nat)" by simp_all
  have "sint (sign_extend (c_imm_b w AND 0x1FFE) 13) =
    horner_sum of_bool 2 (map (bit (c_imm_b w AND 0x1FFE)) [0..<13 - 1])
      - 2 ^ (13 - 1) * of_bool (bit (c_imm_b w AND 0x1FFE) (13 - 1))"
    by (rule sint_sign_extend_bits) (auto simp: bit_and_iff bit_lits simp del: bit_numeral_word_iff)
  also have "\<dots> = spec_b w"
    by (simp only: d map_bits_11 spec_imm_defs c_imm_defs bit_or_if
      and_pow2_nonzero wbits bit_lits) simp
  finally show "sint (sign_extend (c_imm_b w AND 0x1FFE) 13) = spec_b w" .
  have "sint (sign_extend (c_imm_j w AND 0x1FFFFE) 21) =
    horner_sum of_bool 2 (map (bit (c_imm_j w AND 0x1FFFFE)) [0..<21 - 1])
      - 2 ^ (21 - 1) * of_bool (bit (c_imm_j w AND 0x1FFFFE) (21 - 1))"
    by (rule sint_sign_extend_bits) (auto simp: bit_and_iff bit_lits simp del: bit_numeral_word_iff)
  also have "\<dots> = spec_j w"
    by (simp only: d map_bits_11 spec_imm_defs c_imm_defs bit_or_if
      and_pow2_nonzero wbits bit_lits) simp
  finally show "sint (sign_extend (c_imm_j w AND 0x1FFFFE) 21) = spec_j w" .
qed

lemma imm_lui: "sint (push_bit 12 (get_imm6 i)) = 4096 * spec_imm6 (ucast i)"
proof -
  have m: "map f [0..<31] = [f 0, f 1, f 2, f 3, f 4, f 5, f 6, f 7, f 8, f 9, f 10, f 11,
    f 12, f 13, f 14, f 15, f 16, f 17, f 18, f 19, f 20, f 21, f 22, f 23, f 24, f 25, f 26,
    f 27, f 28, f 29, f 30]" for f :: "nat \<Rightarrow> bool"
    by (simp add: upt_rec numeral_2_eq_2 [symmetric])
  show ?thesis
    unfolding sint_horner m spec_imm_defs c_imm_defs bit_or_if and_pow2_nonzero
      wbits bit_lits
    by simp
qed

lemma imm_shift:
  "get_bits (c_shamt w) 11 5 = b2w (bit w 12)"
  "get_bits (0x400 OR c_shamt w) 11 5 = 0x20 + b2w (bit w 12)"
  "\<not> bit w 12 \<Longrightarrow> sint (sign_extend (get_bits (c_shamt w) 11 0) 12) = spec_shamt w"
  "\<not> bit w 12 \<Longrightarrow>
    sint (sign_extend (get_bits (0x400 OR c_shamt w) 11 0) 12) = 1024 + spec_shamt w"
proof -
  show "get_bits (c_shamt w) 11 5 = b2w (bit w 12)"
    by (rule u32_eqI, simp only: list.pred_inject wbits bit_lits c_imm_defs)
      (simp add: b2w_def)
  show "get_bits (0x400 OR c_shamt w) 11 5 = 0x20 + b2w (bit w 12)"
    by (cases "bit w 12"; rule u32_eqI, simp only: list.pred_inject wbits bit_lits c_imm_defs)
      (simp_all add: b2w_def)
  show "\<not> bit w 12 \<Longrightarrow> sint (sign_extend (get_bits (c_shamt w) 11 0) 12) = spec_shamt w"
    unfolding I_imm_bits map_bits_11 spec_imm_defs c_imm_defs wbits bit_lits by simp
  show "\<not> bit w 12 \<Longrightarrow>
    sint (sign_extend (get_bits (0x400 OR c_shamt w) 11 0) 12) = 1024 + spec_shamt w"
    unfolding I_imm_bits map_bits_11 spec_imm_defs c_imm_defs wbits bit_lits by simp
qed

lemma u32_zero_iff:
  "(x :: u32) = 0 \<longleftrightarrow> list_all (\<lambda>k. \<not> bit x k)
    [0, 1, 2, 3, 4, 5, 6, 7, 8, 9, 10, 11, 12, 13, 14, 15,
     16, 17, 18, 19, 20, 21, 22, 23, 24, 25, 26, 27, 28, 29, 30, 31]"
  using u32_eqI [of x 0] by auto

lemma imm_zero:
  "c_imm_addi4spn w = 0 \<longleftrightarrow> spec_addi4spn w = 0"
  "get_imm6 i = 0 \<longleftrightarrow> spec_imm6 (ucast i) = 0"
  "c_imm_addi16sp w = 0 \<longleftrightarrow> spec_addi16sp w = 0"
proof -
  show "c_imm_addi4spn w = 0 \<longleftrightarrow> spec_addi4spn w = 0"
    by (simp only: u32_zero_iff list.pred_inject wbits bit_lits c_imm_defs spec_imm_defs)
      (simp add: add_nonneg_eq_0_iff, blast)
  show "get_imm6 i = 0 \<longleftrightarrow> spec_imm6 (ucast i) = 0"
    by (simp only: u32_zero_iff list.pred_inject wbits bit_lits c_imm_defs spec_imm_defs
          bit_or_if and_pow2_nonzero)
      (auto simp: of_bool_def split: if_splits)
  show "c_imm_addi16sp w = 0 \<longleftrightarrow> spec_addi16sp w = 0"
    by (simp only: u32_zero_iff list.pred_inject wbits bit_lits c_imm_defs spec_imm_defs)
      (auto simp: of_bool_def split: if_splits)
qed

subsection \<open>The quadrants\<close>

lemma fits_small [simp]:
  "fits n 0" "fits 5 1" "fits 3 1" "fits 5 2" "fits 3 2" "fits 3 4" "fits 3 5" "fits 3 6"
  "fits 3 7" "fits 7 0x20"
  by (simp_all add: fits_def)

lemmas rvc_decode_simps =
  decode_encodeI decode_encodeS decode_encodeB decode_encodeJ decode_encodeR decode_lui
  imm_I imm_BJ imm_lui imm_shift imm_zero agrees_opt_def DecodedInstr0_def
  decode_alu_imm_def decode_alu_def decode_load_def decode_store_def decode_branch_def

lemma decode_consts:
  "di_kind (decode 0) = I_INVALID"
  "implements (decode 0x13) (Some (Rvc I_ADDI (Some 0) (Some 0) None 0))"
  "di_kind (decode 0x00100073) = I_EBREAK" "sint (di_imm (decode 0x00100073)) = 0"
  by (simp_all add: decode_def decode_system_def decode_alu_imm_def get_bits_def sign_extend_def
      DecodedInstr0_def agrees_opt_def Let_def)

lemma sign_extend_get_zero: "sign_extend (get_bits 0 11 0) 12 = 0"
  by (simp add: sign_extend_def get_bits_def)

lemma field3_cases:
  fixes w :: u32
  obtains "drop_bit n w AND 7 = 0" | "drop_bit n w AND 7 = 1" | "drop_bit n w AND 7 = 2"
    | "drop_bit n w AND 7 = 3" | "drop_bit n w AND 7 = 4" | "drop_bit n w AND 7 = 5"
    | "drop_bit n w AND 7 = 6" | "drop_bit n w AND 7 = 7"
proof -
  have "drop_bit n w AND 7 < 2 ^ 3"
    using and_mask_less_size [of 3 "drop_bit n w"] by (simp add: word_size mask_numeral)
  then have "unat (drop_bit n w AND 7) < 8" by (simp add: word_less_nat_alt)
  then have "unat (drop_bit n w AND 7) \<in> {0, 1, 2, 3, 4, 5, 6, 7}" by auto
  then have "drop_bit n w AND 7 \<in> {0, 1, 2, 3, 4, 5, 6, 7}"
    by (simp add: word_unat_eq_iff)
  then show thesis using that by auto
qed

lemma field2_cases:
  fixes w :: u32
  obtains "drop_bit n w AND 3 = 0" | "drop_bit n w AND 3 = 1" | "drop_bit n w AND 3 = 2"
    | "drop_bit n w AND 3 = 3"
proof -
  have "drop_bit n w AND 3 < 2 ^ 2"
    using and_mask_less_size [of 2 "drop_bit n w"] by (simp add: word_size mask_numeral)
  then have "unat (drop_bit n w AND 3) < 4" by (simp add: word_less_nat_alt)
  then have "unat (drop_bit n w AND 3) \<in> {0, 1, 2, 3}" by auto
  then have "drop_bit n w AND 3 \<in> {0, 1, 2, 3}"
    by (simp add: word_unat_eq_iff)
  then show thesis using that by auto
qed

lemma q0_ok: "implements (decode (decompress_q0 w f3)) (spec_q0 w f3)"
  by (simp add: decompress_q0_def spec_q0_def Let_def rvc_decode_simps decode_consts)

lemma q1_alu_ok:
  assumes "\<not> (drop_bit 10 w AND 3 = 3 \<and> bit w 12)" and "w = ucast i"
  shows "implements (decode (decompress_q1_alu i w)) (spec_q1_alu w)"
proof (cases rule: field2_cases [of 10 w])
  case 1
  then show ?thesis
    by (simp add: decompress_q1_alu_def spec_q1_alu_def Let_def rvc_decode_simps b2w_def)
next
  case 2
  then show ?thesis
    by (simp add: decompress_q1_alu_def spec_q1_alu_def Let_def rvc_decode_simps b2w_def)
next
  case 3
  then show ?thesis using assms(2)
    by (simp add: decompress_q1_alu_def spec_q1_alu_def Let_def rvc_decode_simps)
next
  case 4
  with assms(1) have "\<not> bit w 12" by simp
  with 4 show ?thesis
    by (cases rule: field2_cases [of 5 w])
      (simp_all add: decompress_q1_alu_def spec_q1_alu_def Let_def rvc_decode_simps)
qed

lemmas decode_lui_nf = decode_lui [simplified]

lemma q1_ok:
  assumes "\<not> (drop_bit 13 w AND 7 = 4 \<and> drop_bit 10 w AND 3 = 3 \<and> bit w 12)"
    and rd: "drop_bit 13 w AND 7 = 2 \<or> drop_bit 13 w AND 7 = 3 \<longrightarrow> c_rd w \<noteq> 0"
    and w: "w = ucast i"
  shows "implements (decode (decompress_q1 i w (drop_bit 13 w AND 7)))
           (spec_q1 w (drop_bit 13 w AND 7))"
proof (cases rule: field3_cases [of 13 w])
  case 1
  then show ?thesis using decode_consts(2) w
    by (simp add: decompress_q1_def spec_q1_def Let_def rvc_decode_simps)
next
  case 3
  then show ?thesis using rd w
    by (simp add: decompress_q1_def spec_q1_def Let_def rvc_decode_simps)
next
  case 4
  then show ?thesis using rd w
    by (simp add: decompress_q1_def spec_q1_def Let_def rvc_decode_simps decode_consts
        decode_lui_nf)
next
  case 5
  then show ?thesis using q1_alu_ok [of w i] assms
    by (simp add: decompress_q1_def spec_q1_def)
qed (simp_all add: decompress_q1_def spec_q1_def Let_def rvc_decode_simps decode_consts)

lemma bit12_and_one: "drop_bit 12 w AND 1 \<noteq> 0 \<longleftrightarrow> bit (w :: u32) 12"
  unfolding tst_def [symmetric] by (rule tst_bit)

lemma q2_ok:
  assumes "f3 = 0 \<longrightarrow> \<not> bit w 12"
    and "f3 = 4 \<and> \<not> bit w 12 \<and> c_rd w = 0 \<longrightarrow> c_rs2 w \<noteq> 0"
    and "f3 = 4 \<and> bit w 12 \<and> c_rd w = 0 \<longrightarrow> c_rs2 w = 0"
  shows "implements (decode (decompress_q2 w f3)) (spec_q2 w f3)"
proof -
  have move: "implements (decode (decompress_q2 w 4)) (spec_q2 w 4)" if "f3 = 4"
  proof (cases "bit w 12")
    case True
    then show ?thesis using assms(3) that
      by (cases "c_rs2 w = 0"; cases "c_rd w = 0")
        (simp_all add: decompress_q2_def spec_q2_def Let_def bit12_and_one
          decode_encodeI decode_encodeR decode_consts sign_extend_get_zero agrees_opt_def
          DecodedInstr0_def decode_alu_def)
  next
    case False
    then show ?thesis using assms(2) that
      by (cases "c_rs2 w = 0"; cases "c_rd w = 0")
        (simp_all add: decompress_q2_def spec_q2_def Let_def bit12_and_one
          decode_encodeI decode_encodeR sign_extend_get_zero agrees_opt_def
          DecodedInstr0_def decode_alu_def)
  qed
  consider "f3 = 0" | "f3 = 2" | "f3 = 4" | "f3 = 6" | "f3 \<noteq> 0 \<and> f3 \<noteq> 2 \<and> f3 \<noteq> 4 \<and> f3 \<noteq> 6"
    by blast
  then show ?thesis
  proof cases
    case 1
    with assms(1) show ?thesis
      by (simp add: decompress_q2_def spec_q2_def Let_def rvc_decode_simps b2w_def)
  next
    case 3
    with move show ?thesis by simp
  qed (simp_all add: decompress_q2_def spec_q2_def Let_def rvc_decode_simps decode_consts)
qed

text \<open>
  C8. The decompressor implements the compressed instruction set: for every half-word outside
  \<open>rvc_quirk\<close>, decoding the 32-bit instruction it builds gives the operation, the registers
  and the immediate value the instruction list names, and an illegal instruction where the
  list has none.
\<close>

theorem decompress_implements_rvc:
  assumes "\<not> rvc_quirk i"
  shows "implements (decode (decompress i)) (rvc_spec i)"
proof -
  let ?w = "ucast i :: u32"
  have q: "\<not> rvc_quirk i" by (fact assms)
  consider "?w AND 3 = 0" | "?w AND 3 = 1" | "?w AND 3 = 2" | "?w AND 3 = 3"
    using field2_cases [of 0 ?w] by (metis drop_bit_0 id_apply)
  then show ?thesis
  proof cases
    case 1
    then show ?thesis by (simp add: decompress_def rvc_spec_def Let_def q0_ok)
  next
    case 2
    with q q1_ok [of ?w i] show ?thesis
      by (simp add: decompress_def rvc_spec_def rvc_quirk_def Let_def)
  next
    case 3
    have "implements (decode (decompress_q2 ?w (drop_bit 13 ?w AND 7)))
        (spec_q2 ?w (drop_bit 13 ?w AND 7))"
      by (rule q2_ok) (use q 3 in \<open>auto simp: rvc_quirk_def Let_def\<close>)
    with 3 show ?thesis by (simp add: decompress_def rvc_spec_def Let_def)
  next
    case 4
    then show ?thesis by (simp add: decompress_def rvc_spec_def Let_def decode_consts)
  qed
qed

text \<open>\<open>C.ADDI a0, -4\<close>.\<close>

theorem decompress_implements_rvc_witness:
  "\<not> rvc_quirk 0x1571 \<and> rvc_spec 0x1571 = Some (Rvc I_ADDI (Some 10) (Some 10) None (- 4))
   \<and> implements (decode (decompress 0x1571)) (rvc_spec 0x1571)"
proof -
  have h: "\<not> rvc_quirk 0x1571"
    by (simp add: rvc_quirk_def c_rd_def Let_def)
  show ?thesis
    using h decompress_implements_rvc [OF h]
    by (simp add: rvc_spec_def spec_q1_def c_rd_def spec_imm6_def bv_def Let_def)
qed

end
