(* ===== verification/Memory.thy ===== *)
theory Memory
  imports Prelude
begin

section \<open>The Memory class\<close>

text \<open>
  src/memory/memory.cpp: a bounds-checked byte array with little-endian accessors that throw
  \<open>std::out_of_range\<close>. The locale \<open>byte_store\<close> is the contract of a store of bytes; the
  array here, main memory and the frame buffer are its instances.
\<close>

record Memory =
  m_data :: "u8 list"

definition Memory_new :: "nat \<Rightarrow> Memory" where
  "Memory_new n = \<lparr>m_data = replicate n 0\<rparr>"

text \<open>\<open>addr + width\<close> is computed in \<open>size_t\<close>, so it does not wrap; \<open>addr + 1\<close> does.\<close>

definition checkAddress :: "u32 \<Rightarrow> nat \<Rightarrow> (Memory, unit) prog" where
  "checkAddress addr width =
     bnd (reads (\<lambda>m. length (m_data m) < unat addr + width)) (\<lambda>out.
     do_if out (throw OutOfRange))"

definition mem_get :: "u32 \<Rightarrow> Memory \<Rightarrow> u8" where
  "mem_get addr m = m_data m ! unat addr"

definition mem_set :: "u32 \<Rightarrow> u8 \<Rightarrow> Memory \<Rightarrow> Memory" where
  "mem_set addr b m = m\<lparr>m_data := (m_data m)[unat addr := b]\<rparr>"

definition mem_read8 :: "u32 \<Rightarrow> (Memory, u8) prog" where
  "mem_read8 addr = andthen (checkAddress addr 1) (reads (mem_get addr))"

definition mem_read16 :: "u32 \<Rightarrow> (Memory, u16) prog" where
  "mem_read16 addr = andthen (checkAddress addr 2)
     (reads (\<lambda>m. le16 (mem_get addr m) (mem_get (addr + 1) m)))"

definition mem_read32 :: "u32 \<Rightarrow> (Memory, u32) prog" where
  "mem_read32 addr = andthen (checkAddress addr 4)
     (reads (\<lambda>m. le32 (mem_get addr m) (mem_get (addr + 1) m) (mem_get (addr + 2) m)
                      (mem_get (addr + 3) m)))"

definition mem_write8 :: "u32 \<Rightarrow> u8 \<Rightarrow> (Memory, unit) prog" where
  "mem_write8 addr val = andthen (checkAddress addr 1) (updates (mem_set addr val))"

definition mem_write16 :: "u32 \<Rightarrow> u16 \<Rightarrow> (Memory, unit) prog" where
  "mem_write16 addr val = andthen (checkAddress addr 2)
     (updates (\<lambda>m. mem_set (addr + 1) (byte_of 1 val) (mem_set addr (byte_of 0 val) m)))"

definition mem_write32 :: "u32 \<Rightarrow> u32 \<Rightarrow> (Memory, unit) prog" where
  "mem_write32 addr val = andthen (checkAddress addr 4)
     (updates (\<lambda>m. mem_set (addr + 3) (byte_of 3 val) (mem_set (addr + 2) (byte_of 2 val)
        (mem_set (addr + 1) (byte_of 1 val) (mem_set addr (byte_of 0 val) m)))))"

definition mem_size :: "Memory \<Rightarrow> nat" where
  "mem_size m = length (m_data m)"

text \<open>\<open>std::copy(program.begin(), program.end(), m_data.begin() + startAddr)\<close>.\<close>

definition mem_loadBinary :: "u8 list \<Rightarrow> u32 \<Rightarrow> (Memory, unit) prog" where
  "mem_loadBinary program startAddr = andthen (checkAddress startAddr (length program))
     (updates (\<lambda>m. m\<lparr>m_data := take (unat startAddr) (m_data m) @ program
        @ drop (unat startAddr + length program) (m_data m)\<rparr>))"

text \<open>The overload that reads a file: a file that does not open is reported and skipped.\<close>

definition mem_loadBinaryFile :: "u8 list option \<Rightarrow> u32 \<Rightarrow> (Memory, unit) prog" where
  "mem_loadBinaryFile file startAddr = (case file of
       None \<Rightarrow> ret ()
     | Some buffer \<Rightarrow> mem_loadBinary buffer startAddr)"

definition mem_reset :: "(Memory, unit) prog" where
  "mem_reset = updates (\<lambda>m. m\<lparr>m_data := replicate (length (m_data m)) 0\<rparr>)"

subsection \<open>The contract of a byte store\<close>

text \<open>
  \<open>valid s a\<close>: the store has a byte at \<open>a\<close>. A write to a valid address is read back and
  changes no other byte.
\<close>

locale byte_store =
  fixes load :: "'s \<Rightarrow> 'a \<Rightarrow> u8"
    and store :: "'a \<Rightarrow> u8 \<Rightarrow> 's \<Rightarrow> 's"
    and valid :: "'s \<Rightarrow> 'a \<Rightarrow> bool"
  assumes load_store: "valid s a \<Longrightarrow> load (store a v s) b = (if b = a then v else load s b)"
    and valid_store: "valid (store a v s) b = valid s b"
begin

lemma load_store_same: "valid s a \<Longrightarrow> load (store a v s) a = v"
  by (simp add: load_store)

lemma load_store2:
  assumes "valid s a" "valid s b" "a \<noteq> b"
  shows "load (store b w (store a v s)) c = (if c = b then w else if c = a then v else load s c)"
  using assms by (simp add: load_store valid_store)

lemma load_store4:
  assumes "valid s a0" "valid s a1" "valid s a2" "valid s a3" and "distinct [a0, a1, a2, a3]"
  shows "load (store a3 v3 (store a2 v2 (store a1 v1 (store a0 v0 s)))) c =
    (if c = a3 then v3 else if c = a2 then v2 else if c = a1 then v1
     else if c = a0 then v0 else load s c)"
  using assms by (simp add: load_store valid_store)

lemma word_roundtrip:
  assumes "valid s a0" "valid s a1" "valid s a2" "valid s a3" and "distinct [a0, a1, a2, a3]"
    and t: "t = store a3 (byte_of 3 v) (store a2 (byte_of 2 v) (store a1 (byte_of 1 v)
             (store a0 (byte_of 0 v) s)))"
  shows "le32 (load t a0) (load t a1) (load t a2) (load t a3) = v"
    and "c \<notin> {a0, a1, a2, a3} \<Longrightarrow> load t c = load s c"
  using assms(5) unfolding t load_store4 [OF assms(1-5)] by auto

lemma half_roundtrip:
  assumes "valid s a0" "valid s a1" "a0 \<noteq> a1"
    and t: "t = store a1 (byte_of 1 v) (store a0 (byte_of 0 v) s)"
  shows "le16 (load t a0) (load t a1) = v"
    and "c \<notin> {a0, a1} \<Longrightarrow> load t c = load s c"
  using assms(3) unfolding t load_store2 [OF assms(1-3)] by auto

end

interpretation mem: byte_store
  "\<lambda>m a. mem_get a m" mem_set "\<lambda>m a. unat a < length (m_data m)"
  by unfold_locales (auto simp: mem_get_def mem_set_def nth_list_update word_unat_eq_iff)

subsection \<open>Bounds\<close>

lemma mem_set_size [simp]: "length (m_data (mem_set a b m)) = length (m_data m)"
  by (simp add: mem_set_def)

lemma checkAddress_cases:
  "checkAddress a n m = (if unat a + n \<le> length (m_data m) then Ok () m else Raise OutOfRange m)"
  by (simp add: checkAddress_def prog_simps)

text \<open>The bytes of an access are the ones at \<open>unat a + i\<close>, as long as they are in bounds.\<close>

lemma mem_bytes_valid:
  fixes a :: u32
  assumes "unat a + n \<le> length (m_data m)" "length (m_data m) \<le> 2 ^ 32" "i < n"
  shows "unat (a + of_nat i) < length (m_data m)"
  using unat_add_of_nat [of a i] assms by simp

lemma mem_word_valid:
  fixes a :: u32
  assumes "unat a + 4 \<le> length (m_data m)" "length (m_data m) \<le> 2 ^ 32"
  shows "unat a < length (m_data m)" "unat (a + 1) < length (m_data m)"
    "unat (a + 2) < length (m_data m)" "unat (a + 3) < length (m_data m)"
  using mem_bytes_valid [OF assms, of 0] mem_bytes_valid [OF assms, of 1]
    mem_bytes_valid [OF assms, of 2] mem_bytes_valid [OF assms, of 3] by simp_all

lemma word_addresses_distinct: "distinct [a, a + 1, a + 2, a + 3 :: u32]"
  by simp

text \<open>
  A 32-bit store that is in bounds is read back by a 32-bit load of the same address, and
  every byte outside the four it wrote keeps its value; an access that is not in bounds raises
  \<open>std::out_of_range\<close> and leaves the memory as it was.
\<close>

theorem mem_write32_read32:
  assumes "length (m_data m) \<le> 2 ^ 32"
  shows "if unat a + 4 \<le> length (m_data m)
    then (\<exists>m'. mem_write32 a v m = Ok () m' \<and> mem_read32 a m' = Ok v m'
           \<and> (\<forall>b. mem_get b m' = (if b \<in> {a, a + 1, a + 2, a + 3}
                then byte_of (unat (b - a)) v else mem_get b m)))
    else mem_write32 a v m = Raise OutOfRange m \<and> mem_read32 a m = Raise OutOfRange m"
proof (cases "unat a + 4 \<le> length (m_data m)")
  case True
  let ?m = "mem_set (a + 3) (byte_of 3 v) (mem_set (a + 2) (byte_of 2 v)
              (mem_set (a + 1) (byte_of 1 v) (mem_set a (byte_of 0 v) m)))"
  note v = mem_word_valid [OF True assms] word_addresses_distinct
  have "mem_write32 a v m = Ok () ?m"
    using True by (simp add: mem_write32_def prog_simps checkAddress_cases)
  moreover have "mem_read32 a ?m = Ok v ?m"
    using True mem.word_roundtrip(1) [OF v refl]
    by (simp add: mem_read32_def prog_simps checkAddress_cases)
  moreover have "\<forall>b. mem_get b ?m = (if b \<in> {a, a + 1, a + 2, a + 3}
      then byte_of (unat (b - a)) v else mem_get b m)"
    unfolding mem.load_store4 [OF v] by auto
  ultimately show ?thesis using True by auto
next
  case False
  then show ?thesis
    by (simp add: mem_write32_def mem_read32_def prog_simps checkAddress_cases)
qed

text \<open>A store of a word at address 4 of an eight-byte memory.\<close>

theorem mem_write32_read32_witness:
  "length (m_data (Memory_new 8)) \<le> 2 ^ 32
   \<and> (\<exists>m'. mem_write32 4 0xDEADBEEF (Memory_new 8) = Ok () m'
        \<and> mem_read32 4 m' = Ok 0xDEADBEEF m')"
  using mem_write32_read32 [of "Memory_new 8" 4 "0xDEADBEEF"]
  by (auto simp: Memory_new_def)

text \<open>
  Loading a program places it at the start address: it is rejected with
  \<open>std::out_of_range\<close> exactly when it does not fit, and otherwise the bytes read back are the
  program's and the rest of the memory is unchanged.
\<close>

theorem mem_loadBinary_contents:
  shows "if unat a + length p \<le> length (m_data m)
    then (\<exists>m'. mem_loadBinary p a m = Ok () m' \<and> mem_size m' = mem_size m
           \<and> (\<forall>b. unat b < mem_size m \<longrightarrow> mem_read8 b m' =
                Ok (if unat a \<le> unat b \<and> unat b < unat a + length p
                    then p ! (unat b - unat a) else mem_get b m) m'))
    else mem_loadBinary p a m = Raise OutOfRange m"
  by (auto simp: mem_loadBinary_def prog_simps checkAddress_cases mem_size_def mem_read8_def
      mem_get_def nth_append)

text \<open>A two-byte program at address 1.\<close>

theorem mem_loadBinary_contents_witness:
  "\<exists>m'. mem_loadBinary [0x13, 0x05] 1 (Memory_new 4) = Ok () m'
     \<and> mem_read8 2 m' = Ok 5 m' \<and> mem_read8 3 m' = Ok 0 m'"
proof -
  have f: "unat (1 :: u32) + length [0x13, 0x05 :: u8] \<le> length (m_data (Memory_new 4))"
    by (simp add: Memory_new_def)
  obtain m' where "mem_loadBinary [0x13, 0x05] 1 (Memory_new 4) = Ok () m'"
    and r: "\<And>b. unat b < mem_size (Memory_new 4) \<Longrightarrow> mem_read8 b m' =
      Ok (if unat (1 :: u32) \<le> unat b \<and> unat b < unat (1 :: u32) + length [0x13, 0x05 :: u8]
          then [0x13, 0x05] ! (unat b - unat (1 :: u32)) else mem_get b (Memory_new 4)) m'"
    using mem_loadBinary_contents [where a = 1 and p = "[0x13, 0x05]" and m = "Memory_new 4"] f
    by auto
  then show ?thesis using r [of 2] r [of 3]
    by (auto simp: Memory_new_def mem_size_def mem_get_def)
qed

end
