(* ===== verification/Clint.thy ===== *)
theory Clint
  imports Prelude
begin

section \<open>The core-local interruptor\<close>

text \<open>
  src/clint/clint.cpp and inc/clint/clint.hpp: the software interrupt bit, the timer and its
  comparator. The host clock is not read here; the elapsed time is an argument.
\<close>

unbundle bit_operations_syntax

definition MSIP_OFFSET :: u32 where "MSIP_OFFSET = 0x0"
definition MTIMECMP_LO :: u32 where "MTIMECMP_LO = 0x4000"
definition MTIMECMP_HI :: u32 where "MTIMECMP_HI = 0x4004"
definition MTIME_LO :: u32 where "MTIME_LO = 0xBFF8"
definition MTIME_HI :: u32 where "MTIME_HI = 0xBFFC"

lemmas clint_offsets [model_defs] =
  MSIP_OFFSET_def MTIMECMP_LO_def MTIMECMP_HI_def MTIME_LO_def MTIME_HI_def

record Clint =
  cl_msip :: bool
  cl_mtime :: u64
  cl_mtimecmp :: u64

definition Clint0 :: Clint where
  "Clint0 = \<lparr>cl_msip = False, cl_mtime = 0, cl_mtimecmp = - 1\<rparr>"

definition clint_read32 :: "u32 \<Rightarrow> Clint \<Rightarrow> u32" where
  "clint_read32 offset c =
    (if offset = MSIP_OFFSET then b2w (cl_msip c)
     else if offset = MTIMECMP_LO then ucast (cl_mtimecmp c)
     else if offset = MTIMECMP_HI then ucast (drop_bit 32 (cl_mtimecmp c))
     else if offset = MTIME_LO then ucast (cl_mtime c)
     else if offset = MTIME_HI then ucast (drop_bit 32 (cl_mtime c))
     else 0)"

definition clint_write32 :: "u32 \<Rightarrow> u32 \<Rightarrow> Clint \<Rightarrow> Clint" where
  "clint_write32 offset val c =
    (if offset = MSIP_OFFSET then c\<lparr>cl_msip := (val AND 1 \<noteq> 0)\<rparr>
     else if offset = MTIMECMP_LO then
       c\<lparr>cl_mtimecmp := (cl_mtimecmp c AND 0xFFFFFFFF00000000) OR ucast val\<rparr>
     else if offset = MTIMECMP_HI then
       c\<lparr>cl_mtimecmp := (cl_mtimecmp c AND 0x00000000FFFFFFFF) OR push_bit 32 (ucast val)\<rparr>
     else c)"

text \<open>\<open>frequency_\<close> is ten million ticks a second; \<open>elapsed\<close> is in microseconds.\<close>

definition clint_updateMtime :: "u64 \<Rightarrow> Clint \<Rightarrow> Clint" where
  "clint_updateMtime elapsed c = c\<lparr>cl_mtime := elapsed * 10000000 div 1000000\<rparr>"

subsection \<open>The registers\<close>

lemma mask_hi64: "(0xFFFFFFFF00000000 :: u64) = push_bit 32 (mask 32)"
  by (simp add: mask_numeral)

lemma mask_lo64: "(0xFFFFFFFF :: u64) = mask 32"
  by (simp add: mask_numeral)

lemma join64:
  fixes v :: u32 and t :: u64
  shows "ucast (t AND 0xFFFFFFFF00000000 OR ucast v) = v"
    and "(ucast (drop_bit 32 (t AND 0xFFFFFFFF00000000 OR ucast v)) :: u32) = ucast (drop_bit 32 t)"
    and "(ucast (t AND 0xFFFFFFFF OR push_bit 32 (ucast v)) :: u32) = ucast t"
    and "ucast (drop_bit 32 (t AND 0xFFFFFFFF OR push_bit 32 (ucast v))) = v"
  unfolding mask_hi64 mask_lo64
  by (rule bit_word_eqI; auto simp: bit_simps dest: bit_imp_le_length)+

text \<open>What a register of the device holds after a write of \<open>v\<close>, given what it held.\<close>

fun clint_written :: "u32 \<Rightarrow> u32 \<Rightarrow> u32 \<Rightarrow> u32" where
  "clint_written offset v old =
    (if offset = MSIP_OFFSET then v AND 1
     else if offset = MTIMECMP_LO \<or> offset = MTIMECMP_HI then v else old)"

lemma b2w_and_one: "b2w (v AND 1 \<noteq> 0) = (v AND 1 :: u32)"
  by (simp add: b2w_def one_and_eq and_one_eq of_bool_odd_eq_mod_2 [symmetric])

lemmas join64_nf = join64 [simplified]

text \<open>
  The device is a file of independent 32-bit registers: after a write of \<open>v\<close> at
  \<open>offset\<close>, that register reads back as \<open>v\<close> (the software interrupt register as bit 0 of it),
  every other register reads as before, and a write at the timer or at an unmapped offset
  changes nothing.
\<close>

theorem clint_register_file:
  "clint_read32 other (clint_write32 offset v c) =
    (if other = offset then clint_written offset v (clint_read32 offset c)
     else clint_read32 other c)"
proof -
  have 1: "v AND 1 \<noteq> 0 \<Longrightarrow> v AND 1 = 1"
    by (simp add: and_one_eq odd_iff_mod_2_eq_one)
  show ?thesis
    by (auto simp: clint_read32_def clint_write32_def join64 join64_nf b2w_def clint_offsets 1)
qed

text \<open>
  C33. The timer counts ten ticks to the microsecond and never runs backwards, as long as the
  product of the elapsed time and the frequency fits in 64 bits (some 58,000 years).
\<close>

theorem clint_mtime_ticks:
  assumes "e1 \<le> e2" and "unat e2 * 10000000 < 2 ^ 64"
  shows "unat (cl_mtime (clint_updateMtime e2 c)) = 10 * unat e2
    \<and> cl_mtime (clint_updateMtime e1 c) \<le> cl_mtime (clint_updateMtime e2 d)"
proof -
  have tick: "unat (cl_mtime (clint_updateMtime e c)) = 10 * unat e"
    if "unat e * 10000000 < 2 ^ 64" for e c
    using that by (simp add: clint_updateMtime_def unat_div unat_word_ariths take_bit_nat_def)
  have "unat e1 \<le> unat e2" using assms(1) by (simp add: word_le_nat_alt)
  then show ?thesis using assms(2) tick [of e1] tick [of e2] by (simp add: word_le_nat_alt)
qed

text \<open>One second after two microseconds.\<close>

theorem clint_mtime_ticks_witness:
  "unat (cl_mtime (clint_updateMtime 1000000 Clint0)) = 10000000
   \<and> cl_mtime (clint_updateMtime 2 Clint0) \<le> cl_mtime (clint_updateMtime 1000000 Clint0)"
  using clint_mtime_ticks [of 2 1000000 Clint0 Clint0] by simp

end
