(* ===== verification/Plic.thy ===== *)
theory Plic
  imports Prelude
begin

section \<open>The platform-level interrupt controller\<close>

text \<open>
  src/plic/plic.cpp: 32 sources with priorities and pending bits, and two contexts (machine
  and supervisor) with an enable mask, a threshold and a claim register. The arrays are
  functions of the index; every index the code computes is in range. The pending word is
  atomic, so each operation is one step.
\<close>

unbundle bit_operations_syntax

definition NUM_SOURCES :: nat where "NUM_SOURCES = 32"
definition CTX_MACHINE :: nat where "CTX_MACHINE = 0"
definition CTX_SUPERVISOR :: nat where "CTX_SUPERVISOR = 1"

record PLIC =
  pl_priority :: "nat \<Rightarrow> u32"
  pl_pending :: u32
  pl_enable :: "nat \<Rightarrow> u32"
  pl_threshold :: "nat \<Rightarrow> u32"
  pl_claimed :: "nat \<Rightarrow> u32"

definition PLIC0 :: PLIC where
  "PLIC0 = \<lparr>pl_priority = (\<lambda>_. 0), pl_pending = 0, pl_enable = (\<lambda>_. 0),
            pl_threshold = (\<lambda>_. 0), pl_claimed = (\<lambda>_. 0)\<rparr>"

text \<open>The loop of \<open>best_pending\<close> over the sources still to visit.\<close>

fun best_loop :: "(nat \<Rightarrow> u32) \<Rightarrow> u32 \<Rightarrow> nat list \<Rightarrow> u32 \<Rightarrow> nat \<Rightarrow> nat" where
  "best_loop priority active [] best_pri best_src = best_src"
| "best_loop priority active (src # rest) best_pri best_src =
    (if tst active src \<and> priority src > best_pri
     then best_loop priority active rest (priority src) src
     else best_loop priority active rest best_pri best_src)"

definition best_pending :: "nat \<Rightarrow> PLIC \<Rightarrow> nat" where
  "best_pending ctx p =
     best_loop (pl_priority p) (pl_pending p AND pl_enable p ctx) [1..<NUM_SOURCES]
       (pl_threshold p ctx) 0"

text \<open>The atomic updates of the pending word.\<close>

definition plic_clear :: "nat \<Rightarrow> PLIC \<Rightarrow> PLIC" where
  "plic_clear src p = p\<lparr>pl_pending := pl_pending p AND NOT (push_bit src 1)\<rparr>"

definition set_pending :: "u32 \<Rightarrow> PLIC \<Rightarrow> PLIC" where
  "set_pending source p =
    (if 0 < source \<and> unat source < NUM_SOURCES
     then p\<lparr>pl_pending := pl_pending p OR push_bit (unat source) 1\<rparr> else p)"

definition clear_pending :: "u32 \<Rightarrow> PLIC \<Rightarrow> PLIC" where
  "clear_pending source p =
    (if 0 < source \<and> unat source < NUM_SOURCES then plic_clear (unat source) p else p)"

definition plic_claim :: "nat \<Rightarrow> PLIC \<Rightarrow> u32 \<times> PLIC" where
  "plic_claim ctx p =
    (let src = best_pending ctx p
     in if src \<noteq> 0
        then (of_nat src, plic_clear src (p\<lparr>pl_claimed := (pl_claimed p)(ctx := of_nat src)\<rparr>))
        else (0, p))"

definition plic_read32 :: "u32 \<Rightarrow> PLIC \<Rightarrow> u32 \<times> PLIC" where
  "plic_read32 offset p =
    (if offset < 0x1000 then (pl_priority p (unat (drop_bit 2 offset AND 0x1F)), p)
     else if offset = 0x1000 then (pl_pending p, p)
     else if offset \<ge> 0x2000 \<and> offset < 0x2100 then
       (let ctx = unat ((offset - 0x2000) div 0x80)
        in if ctx < 2 then (pl_enable p ctx, p) else (0, p))
     else if offset \<ge> 0x200000 then
       (let ctx = unat ((offset - 0x200000) div 0x1000); local = (offset - 0x200000) mod 0x1000
        in if ctx < 2 then
             (if local = 0 then (pl_threshold p ctx, p)
              else if local = 4 then plic_claim ctx p
              else (0, p))
           else (0, p))
     else (0, p))"

text \<open>Completing a source of 32 or more shifts \<open>1u\<close> by that much, which is undefined.\<close>

definition plic_write32 :: "u32 \<Rightarrow> u32 \<Rightarrow> (PLIC, unit) prog" where
  "plic_write32 offset val =
    (if offset \<ge> 0x4 \<and> offset < 0x1000 then
       updates (\<lambda>p. p\<lparr>pl_priority := (pl_priority p)(unat (drop_bit 2 offset AND 0x1F) := val AND 0x7)\<rparr>)
     else if offset \<ge> 0x2000 \<and> offset < 0x2100 then
       (let ctx = unat ((offset - 0x2000) div 0x80)
        in do_if (ctx < 2)
             (updates (\<lambda>p. p\<lparr>pl_enable := (pl_enable p)(ctx := val AND NOT 1)\<rparr>)))
     else if offset \<ge> 0x200000 then
       (let ctx = unat ((offset - 0x200000) div 0x1000); local = (offset - 0x200000) mod 0x1000
        in do_if (ctx < 2)
             (if local = 0 then
                updates (\<lambda>p. p\<lparr>pl_threshold := (pl_threshold p)(ctx := val AND 0x7)\<rparr>)
              else do_if (local = 4)
                (bnd (defined (shl32 1 val)) (\<lambda>bit.
                 updates (\<lambda>p. p\<lparr>pl_pending := pl_pending p AND NOT bit,
                                pl_claimed := (pl_claimed p)(ctx := 0)\<rparr>)))))
     else ret ())"

definition m_interrupt_pending :: "PLIC \<Rightarrow> bool" where
  "m_interrupt_pending p \<longleftrightarrow> best_pending CTX_MACHINE p \<noteq> 0"

definition s_interrupt_pending :: "PLIC \<Rightarrow> bool" where
  "s_interrupt_pending p \<longleftrightarrow> best_pending CTX_SUPERVISOR p \<noteq> 0"

subsection \<open>The interrupt a context is offered\<close>

text \<open>A source is deliverable to a context: pending, enabled, and above the threshold.\<close>

definition deliverable :: "nat \<Rightarrow> PLIC \<Rightarrow> nat \<Rightarrow> bool" where
  "deliverable ctx p src \<longleftrightarrow> 1 \<le> src \<and> src < NUM_SOURCES \<and> bit (pl_pending p) src
     \<and> bit (pl_enable p ctx) src \<and> pl_threshold p ctx < pl_priority p src"

text \<open>
  The order in which sources are preferred: the higher priority first, and among equals the
  lower number.
\<close>

definition preferred :: "PLIC \<Rightarrow> nat \<Rightarrow> nat \<Rightarrow> bool" where
  "preferred p a b \<longleftrightarrow> pl_priority p b < pl_priority p a
     \<or> (pl_priority p a = pl_priority p b \<and> a \<le> b)"

lemma best_loop_spec:
  assumes "sorted_wrt (<) srcs"
  shows "let r = best_loop pri active srcs bp bs in
    (r = bs \<and> (\<forall>s \<in> set srcs. bit active s \<longrightarrow> pri s \<le> bp))
    \<or> (r \<in> set srcs \<and> bit active r \<and> bp < pri r
        \<and> (\<forall>s \<in> set srcs. bit active s \<longrightarrow> pri s < pri r \<or> (pri s = pri r \<and> r \<le> s)))"
  using assms
proof (induction srcs arbitrary: bp bs)
  case Nil
  then show ?case by simp
next
  case (Cons a srcs)
  then have tail: "sorted_wrt (<) srcs" and lt: "\<And>s. s \<in> set srcs \<Longrightarrow> a < s" by auto
  show ?case
  proof (cases "bit active a \<and> bp < pri a")
    case True
    then have step: "best_loop pri active (a # srcs) bp bs = best_loop pri active srcs (pri a) a"
      by simp
    show ?thesis
      using Cons.IH [OF tail, of "pri a" a] lt True unfolding step Let_def
      by (auto dest: less_trans intro: less_imp_le)
  next
    case False
    then have step: "best_loop pri active (a # srcs) bp bs = best_loop pri active srcs bp bs"
      by auto
    show ?thesis
      using Cons.IH [OF tail, of bp bs] False unfolding step Let_def
      by (auto simp: not_less)
  qed
qed

lemma best_pending_cases:
  "(best_pending ctx p = 0 \<and> (\<forall>s \<in> {1..<NUM_SOURCES}. bit (pl_pending p AND pl_enable p ctx) s
        \<longrightarrow> pl_priority p s \<le> pl_threshold p ctx))
    \<or> (best_pending ctx p \<in> {1..<NUM_SOURCES}
        \<and> bit (pl_pending p AND pl_enable p ctx) (best_pending ctx p)
        \<and> pl_threshold p ctx < pl_priority p (best_pending ctx p)
        \<and> (\<forall>s \<in> {1..<NUM_SOURCES}. bit (pl_pending p AND pl_enable p ctx) s
           \<longrightarrow> pl_priority p s < pl_priority p (best_pending ctx p)
             \<or> (pl_priority p s = pl_priority p (best_pending ctx p) \<and> best_pending ctx p \<le> s)))"
proof -
  have set: "set [1..<NUM_SOURCES] = {1..<NUM_SOURCES}" by simp
  show ?thesis
    unfolding best_pending_def
    by (rule best_loop_spec [unfolded Let_def, of "[1..<NUM_SOURCES]", unfolded set]) simp
qed

lemma best_pending_less: "best_pending ctx p < NUM_SOURCES"
  using best_pending_cases [of ctx p] by (elim disjE) (simp_all add: NUM_SOURCES_def)

text \<open>
  C29. The controller offers a context the deliverable source of the highest priority, the
  lowest number winning ties, and none (0) exactly when no source is deliverable; so an
  interrupt is signalled to a context exactly when some source is deliverable to it.
\<close>

theorem best_pending_correct:
  "(best_pending ctx p = 0 \<longleftrightarrow> (\<forall>src. \<not> deliverable ctx p src))
   \<and> (best_pending ctx p \<noteq> 0 \<longrightarrow> deliverable ctx p (best_pending ctx p)
        \<and> (\<forall>src. deliverable ctx p src \<longrightarrow> preferred p (best_pending ctx p) src))"
proof -
  define r where "r = best_pending ctx p"
  show ?thesis
    using best_pending_cases [of ctx p]
    unfolding r_def [symmetric] deliverable_def preferred_def
    by (auto simp: bit_and_iff not_le)
qed

text \<open>Two sources pending and enabled for the supervisor, with priorities 3 and 5.\<close>

definition plic_ex :: PLIC where
  "plic_ex = \<lparr>pl_priority = (\<lambda>_. 0)(1 := 3, 10 := 5), pl_pending = 0x402,
     pl_enable = (\<lambda>_. 0)(1 := 0x402), pl_threshold = (\<lambda>_. 0), pl_claimed = (\<lambda>_. 0)\<rparr>"

lemma best_pending_ex: "best_pending 1 plic_ex = 10"
  by (simp add: best_pending_def plic_ex_def NUM_SOURCES_def upt_rec bit_numeral_word_iff)

theorem best_pending_correct_witness:
  "deliverable 1 plic_ex 10 \<and> preferred plic_ex 10 1"
proof -
  have "deliverable 1 plic_ex 1"
    by (simp add: deliverable_def plic_ex_def NUM_SOURCES_def bit_numeral_word_iff)
  then show ?thesis
    using best_pending_correct [of 1 plic_ex, unfolded best_pending_ex] by simp
qed

subsection \<open>Claim and completion\<close>

lemma plic_clear_bit [simp]:
  "bit (pl_pending (plic_clear src p)) k \<longleftrightarrow> bit (pl_pending p) k \<and> k \<noteq> src"
  by (auto simp: plic_clear_def bit_simps dest: bit_imp_le_length)

lemma plic_clear_simps [simp]:
  "pl_priority (plic_clear src p) = pl_priority p" "pl_enable (plic_clear src p) = pl_enable p"
  "pl_threshold (plic_clear src p) = pl_threshold p" "pl_claimed (plic_clear src p) = pl_claimed p"
  by (simp_all add: plic_clear_def)

text \<open>The offset of the claim register of a context.\<close>

definition claim_offset :: "nat \<Rightarrow> u32" where
  "claim_offset ctx = 0x200004 + of_nat ctx * 0x1000"

lemma plic_read32_claim:
  assumes "ctx < 2"
  shows "plic_read32 (claim_offset ctx) p = plic_claim ctx p"
proof -
  have "claim_offset 0 = 0x200004" "claim_offset 1 = 0x201004"
    by (simp_all add: claim_offset_def)
  moreover have "plic_read32 0x200004 p = plic_claim 0 p" "plic_read32 0x201004 p = plic_claim 1 p"
    unfolding plic_read32_def by (simp_all add: Let_def)
  moreover from assms have "ctx = 0 \<or> ctx = 1" by linarith
  ultimately show ?thesis by metis
qed

text \<open>
  C28. Reading the claim register of a context acknowledges the best source: it returns its
  number, records it as claimed, clears its pending bit and no other, so that no context is
  offered that source again until a device raises it; with nothing deliverable it returns 0 and changes
  nothing. No other read changes the controller.
\<close>

theorem plic_claim_correct:
  assumes "ctx < 2" and "plic_read32 (claim_offset ctx) p = (v, q)"
  shows "unat v = best_pending ctx p
    \<and> (v = 0 \<longrightarrow> q = p)
    \<and> (v \<noteq> 0 \<longrightarrow> pl_claimed q ctx = v
         \<and> (\<forall>k. bit (pl_pending q) k \<longleftrightarrow> bit (pl_pending p) k \<and> k \<noteq> unat v)
         \<and> (\<forall>c. best_pending c q \<noteq> unat v))"
proof -
  let ?r = "best_pending ctx p"
  have claim: "plic_claim ctx p = (v, q)"
    using assms plic_read32_claim by simp
  have r: "unat (of_nat ?r :: u32) = ?r"
    using best_pending_less [of ctx p] by (simp add: NUM_SOURCES_def unat_of_nat take_bit_nat_def)
  show ?thesis
  proof (cases "?r = 0")
    case True
    with claim show ?thesis by (auto simp: plic_claim_def)
  next
    case False
    with claim have v: "v = of_nat ?r"
      and q: "q = plic_clear ?r (p\<lparr>pl_claimed := (pl_claimed p)(ctx := v)\<rparr>)"
      by (auto simp: plic_claim_def Let_def)
    have "best_pending c q \<noteq> ?r" for c
      using best_pending_cases [of c q] False by (auto simp: q bit_and_iff)
    moreover have "v \<noteq> 0" using False r v by auto
    ultimately show ?thesis using r by (simp add: v q)
  qed
qed

text \<open>The supervisor claims source 10 and is then offered source 1.\<close>

theorem plic_claim_correct_witness:
  "fst (plic_read32 (claim_offset 1) plic_ex) = 10
   \<and> best_pending 1 (snd (plic_read32 (claim_offset 1) plic_ex)) \<noteq> 10"
proof -
  obtain v q where e: "plic_read32 (claim_offset 1) plic_ex = (v, q)" by (rule prod.exhaust)
  have "(1 :: nat) < 2" by simp
  note spec = plic_claim_correct [OF this e, unfolded best_pending_ex]
  have v: "unat v = 10" using spec by (rule conjunct1)
  have n: "v \<noteq> 0 \<longrightarrow> (\<forall>c. best_pending c q \<noteq> unat v)" using spec by blast
  from v have w: "v = 10" by (simp add: word_unat_eq_iff)
  have "best_pending 1 q \<noteq> 10" using n unfolding v using w by simp
  then show ?thesis using w unfolding e fst_conv snd_conv by blast
qed

subsection \<open>The register invariant\<close>

text \<open>
  Priorities and thresholds are at most 7; source 0, which stands for no interrupt, is never
  enabled and never pending.
\<close>

definition plic_ok :: "PLIC \<Rightarrow> bool" where
  "plic_ok p \<longleftrightarrow> (\<forall>i. pl_priority p i \<le> 7) \<and> (\<forall>c. pl_threshold p c \<le> 7)
     \<and> (\<forall>c. \<not> bit (pl_enable p c) 0) \<and> \<not> bit (pl_pending p) 0"

lemma and_7_le: "v AND 7 \<le> (7 :: u32)"
  by (simp add: word_and_le1)

lemma plic_write32_keeps: "keeps plic_ok (plic_write32 offset val)"
  unfolding plic_write32_def
  by (intro keeps_intros) (auto simp: plic_ok_def and_7_le bit_simps)

lemma plic_ok_clear: "plic_ok p \<Longrightarrow> plic_ok (plic_clear src p)"
  by (simp add: plic_ok_def)

lemma plic_ok_claimed: "plic_ok p \<Longrightarrow> plic_ok (p\<lparr>pl_claimed := f\<rparr>)"
  by (simp add: plic_ok_def)

lemma plic_ok_set: "plic_ok p \<Longrightarrow> plic_ok (set_pending src p)"
  by (auto simp: plic_ok_def set_pending_def bit_simps unat_gt_0)

lemma plic_ok_read: "plic_ok p \<Longrightarrow> plic_ok (snd (plic_read32 offset p))"
  unfolding plic_read32_def plic_claim_def Let_def
  by (simp add: plic_ok_clear plic_ok_claimed)

text \<open>
  C30. Every operation of the controller, from the reset state on, keeps priorities and
  thresholds in their three-bit range and never enables or raises the reserved source 0.
\<close>

theorem plic_invariant:
  "plic_ok PLIC0 \<and> (plic_ok p \<longrightarrow> plic_ok (snd (plic_read32 offset p))
      \<and> plic_ok (set_pending src p) \<and> plic_ok (clear_pending src p)
      \<and> (\<forall>q. plic_write32 offset val p = Ok () q \<longrightarrow> plic_ok q))"
proof -
  have "plic_ok q" if "plic_ok p" "plic_write32 offset val p = Ok () q" for q
    using keeps_Ok [OF plic_write32_keeps] that by blast
  moreover have "plic_ok PLIC0" by (simp add: plic_ok_def PLIC0_def)
  ultimately show ?thesis
    by (auto simp: plic_ok_set plic_ok_read clear_pending_def plic_ok_clear)
qed

theorem plic_invariant_witness:
  "plic_ok (snd (plic_read32 0x200004 (set_pending 10 PLIC0)))"
proof -
  have "plic_ok (set_pending 10 PLIC0)" using plic_invariant [where p = PLIC0] by blast
  then show ?thesis using plic_invariant [where p = "set_pending 10 PLIC0"] by blast
qed

end
