(* ===== verification/Fifo.thy ===== *)
theory Fifo
  imports Prelude
begin

section \<open>The contract of a first-in first-out buffer\<close>

text \<open>
  The receive buffer of the serial port and the event queue of the input device are filled by
  one thread and emptied by the processor. Both promise the laws below; that nothing is lost,
  invented or reordered follows from them once, here.
\<close>

text \<open>\<open>drain pop n s\<close>: \<open>n\<close> pops in a row, and what they returned.\<close>

fun drain :: "('s \<Rightarrow> 'r \<times> 's) \<Rightarrow> nat \<Rightarrow> 's \<Rightarrow> 'r list \<times> 's" where
  "drain pop 0 s = ([], s)"
| "drain pop (Suc n) s =
    (let (r, t) = pop s; (rs, u) = drain pop n t in (r # rs, u))"

locale fifo_queue =
  fixes push :: "'e \<Rightarrow> 's \<Rightarrow> 's"
    and pop :: "'s \<Rightarrow> 'r \<times> 's"
    and contents :: "'s \<Rightarrow> 'e list"
    and encode :: "'e \<Rightarrow> 'r"
    and empty_value :: 'r
    and ready :: "'s \<Rightarrow> bool"
  assumes push_contents: "contents (push e s) = contents s @ [e]"
    and push_ready: "ready (push e s) = ready s"
    and pop_empty: "ready s \<Longrightarrow> contents s = [] \<Longrightarrow> pop s = (empty_value, s)"
    and pop_value: "ready s \<Longrightarrow> contents s = e # es \<Longrightarrow> fst (pop s) = encode e"
    and pop_contents: "ready s \<Longrightarrow> contents s = e # es \<Longrightarrow> contents (snd (pop s)) = es"
    and pop_ready: "ready s \<Longrightarrow> ready (snd (pop s))"
begin

lemma fold_push_contents: "contents (fold push es s) = contents s @ es"
  by (induction es arbitrary: s) (simp_all add: push_contents)

lemma fold_push_ready: "ready (fold push es s) = ready s"
  by (induction es arbitrary: s) (simp_all add: push_ready)

lemma drain_all:
  "ready s \<Longrightarrow> contents s = es \<Longrightarrow>
    fst (drain pop (length es) s) = map encode es \<and> contents (snd (drain pop (length es) s)) = []
    \<and> ready (snd (drain pop (length es) s))"
proof (induction es arbitrary: s)
  case Nil
  then show ?case by simp
next
  case (Cons e es)
  obtain r t where p: "pop s = (r, t)" by (rule prod.exhaust)
  have "ready t" "contents t = es" "r = encode e"
    using pop_ready [of s] pop_contents [of s e es] pop_value [of s e es] Cons.prems p
    by simp_all
  then show ?case
    using Cons.IH [of t] by (auto simp: p split: prod.splits)
qed

text \<open>What is pushed comes out, in order and once, after what was there before.\<close>

lemma in_order:
  assumes "ready s"
  shows "fst (drain pop (length (contents s) + length es) (fold push es s))
    = map encode (contents s @ es)"
  using drain_all [of "fold push es s" "contents s @ es"] assms
  by (simp add: fold_push_contents fold_push_ready)

end

end
