(* ===== verification/Uart.thy ===== *)
theory Uart
  imports Fifo
begin

section \<open>The serial port\<close>

text \<open>
  src/devices/uart/uart.cpp and the byte filter of uart_posix.cpp: a 16550 with a receive
  buffer filled by the input thread. The operations return, next to the new state, whether the
  port called back to raise its interrupt; bytes sent to the host go to \<open>ua_output\<close>. The
  lock around the buffer makes each operation on it one step.
\<close>

unbundle bit_operations_syntax

definition UART_IRQ :: u32 where "UART_IRQ = 10"

text \<open>Register offsets and bits, as inc/devices/uart.hpp names them.\<close>

definition RBR :: u32 where "RBR = 0"
definition THR :: u32 where "THR = 0"
definition IER :: u32 where "IER = 1"
definition IIR :: u32 where "IIR = 2"
definition FCR :: u32 where "FCR = 2"
definition LCR :: u32 where "LCR = 3"
definition MCR :: u32 where "MCR = 4"
definition LSR :: u32 where "LSR = 5"
definition MSR :: u32 where "MSR = 6"
definition SCR :: u32 where "SCR = 7"
definition LSR_DR :: u8 where "LSR_DR = 0x01"
definition LSR_THRE :: u8 where "LSR_THRE = 0x20"
definition LSR_TEMT :: u8 where "LSR_TEMT = 0x40"
definition IER_RDI :: u8 where "IER_RDI = 0x01"
definition IER_THRI :: u8 where "IER_THRI = 0x02"
definition IIR_THRI :: u8 where "IIR_THRI = 0x02"
definition IIR_RDI :: u8 where "IIR_RDI = 0x04"

lemmas uart_consts [model_defs] =
  RBR_def THR_def IER_def IIR_def FCR_def LCR_def MCR_def LSR_def MSR_def SCR_def
  LSR_DR_def LSR_THRE_def LSR_TEMT_def IER_RDI_def IER_THRI_def IIR_THRI_def IIR_RDI_def

text \<open>\<open>ua_escape\<close> is the static variable \<open>escape_mode\<close> of \<open>read_char\<close>.\<close>

record UART =
  ua_ier :: u8
  ua_lcr :: u8
  ua_mcr :: u8
  ua_scr :: u8
  ua_fcr :: u8
  ua_fifo_trigger :: u8
  ua_rx_fifo :: "u8 list"
  ua_output :: "u8 list"
  ua_escape :: bool

definition UART0 :: UART where
  "UART0 = \<lparr>ua_ier = 0, ua_lcr = 0, ua_mcr = 0, ua_scr = 0, ua_fcr = 0, ua_fifo_trigger = 1,
            ua_rx_fifo = [], ua_output = [], ua_escape = False\<rparr>"

definition read_lsr :: "UART \<Rightarrow> u8" where
  "read_lsr u = (let lsr = LSR_THRE OR LSR_TEMT
     in if ua_rx_fifo u \<noteq> [] then lsr OR LSR_DR else lsr)"

definition read_iir :: "UART \<Rightarrow> u8" where
  "read_iir u = (let fifo_bits = (if ua_fcr u AND 0x01 \<noteq> 0 then 0xC0 else 0x00)
     in if ua_ier u AND IER_RDI \<noteq> 0 \<and> ua_rx_fifo u \<noteq> [] then fifo_bits OR IIR_RDI
        else if ua_ier u AND IER_THRI \<noteq> 0 then fifo_bits OR IIR_THRI
        else fifo_bits OR 0x01)"

definition uart_read8 :: "u32 \<Rightarrow> UART \<Rightarrow> u8 \<times> UART" where
  "uart_read8 offset u =
    (if offset = RBR then
       (if ua_lcr u AND 0x80 \<noteq> 0 then (0, u)
        else (case ua_rx_fifo u of
            [] \<Rightarrow> (0, u)
          | ch # rest \<Rightarrow> (ch, u\<lparr>ua_rx_fifo := rest\<rparr>)))
     else if offset = IER then ((if ua_lcr u AND 0x80 \<noteq> 0 then 0 else ua_ier u), u)
     else if offset = IIR then (read_iir u, u)
     else if offset = LCR then (ua_lcr u, u)
     else if offset = MCR then (ua_mcr u, u)
     else if offset = LSR then (read_lsr u, u)
     else if offset = MSR then (0, u)
     else if offset = SCR then (ua_scr u, u)
     else (0, u))"

definition uart_trigger :: "u8 \<Rightarrow> u8" where
  "uart_trigger val = (let t = drop_bit 6 val AND 0x3
     in if t = 0 then 1 else if t = 1 then 4 else if t = 2 then 8 else 14)"

text \<open>The boolean is true when the operation asserted interrupt \<open>UART_IRQ\<close>.\<close>

definition uart_write8 :: "u32 \<Rightarrow> u8 \<Rightarrow> UART \<Rightarrow> UART \<times> bool" where
  "uart_write8 offset val u =
    (if offset = THR then
       (if ua_lcr u AND 0x80 \<noteq> 0 then (u, False)
        else (u\<lparr>ua_output := ua_output u @ [val]\<rparr>, ua_ier u AND IER_THRI \<noteq> 0))
     else if offset = IER then
       (if ua_lcr u AND 0x80 = 0 then
          (let ier = val AND 0x0F
           in (u\<lparr>ua_ier := ier\<rparr>,
               (ier AND IER_RDI \<noteq> 0 \<and> ua_rx_fifo u \<noteq> []) \<or> ier AND IER_THRI \<noteq> 0))
        else (u, False))
     else if offset = FCR then
       (u\<lparr>ua_fcr := val,
          ua_rx_fifo := (if val AND 0x02 \<noteq> 0 then [] else ua_rx_fifo u),
          ua_fifo_trigger := uart_trigger val\<rparr>, False)
     else if offset = LCR then (u\<lparr>ua_lcr := val\<rparr>, False)
     else if offset = MCR then (u\<lparr>ua_mcr := val AND 0x1F\<rparr>, False)
     else if offset = SCR then (u\<lparr>ua_scr := val\<rparr>, False)
     else (u, False))"

definition rx_push :: "u8 \<Rightarrow> UART \<Rightarrow> UART \<times> bool" where
  "rx_push ch u = (u\<lparr>ua_rx_fifo := ua_rx_fifo u @ [ch]\<rparr>, ua_ier u AND IER_RDI \<noteq> 0)"

text \<open>
  \<open>read_char\<close> and the body of the input thread, for one byte read from the terminal: control-A
  starts an escape, and control-A \<open>q\<close> quits. The result is the character to push, whether an
  interrupt was raised on the way, and whether the processor is halted. \<open>inst\<close> says whether
  \<open>s_instance\<close> was set, which \<open>set_raw_mode\<close> does only for a terminal; without it an escape neither quits
  nor delivers the control-A that was held back.
\<close>

definition read_char :: "bool \<Rightarrow> u8 \<Rightarrow> UART \<Rightarrow> UART \<times> u8 option \<times> bool \<times> bool" where
  "read_char inst b u =
    (if ua_escape u then
       (let u = u\<lparr>ua_escape := False\<rparr> in
        if b = 0x71 \<or> b = 0x51 then (u, None, False, inst)
        else if b = 0x01 then (u, Some 0x01, False, False)
        else (case if inst then rx_push 0x01 u else (u, False) of (u', irq) \<Rightarrow> (u', Some b, irq, False)))
     else if b = 0x01 then (u\<lparr>ua_escape := True\<rparr>, None, False, False)
     else (u, Some b, False, False))"

definition input_thread_body :: "bool \<Rightarrow> u8 \<Rightarrow> UART \<Rightarrow> UART \<times> bool \<times> bool" where
  "input_thread_body inst b u = (case read_char inst b u of
       (u', None, irq, hlt) \<Rightarrow> (u', irq, hlt)
     | (u', Some ch, irq, hlt) \<Rightarrow> (case rx_push ch u' of (u'', irq') \<Rightarrow> (u'', irq \<or> irq', hlt)))"

definition load_test_input :: "u8 list \<Rightarrow> UART \<Rightarrow> UART" where
  "load_test_input input u = fold (\<lambda>ch u. fst (rx_push ch u)) input u"

lemma UART0_fields:
  "ua_rx_fifo UART0 = []" "ua_lcr UART0 = 0" "ua_ier UART0 = 0" "\<not> ua_escape UART0"
  by (simp_all add: UART0_def)

subsection \<open>The receive buffer\<close>

interpretation uart_rx: fifo_queue
  "\<lambda>ch u. fst (rx_push ch u)" "uart_read8 RBR" ua_rx_fifo "\<lambda>ch. ch" 0
  "\<lambda>u. ua_lcr u AND 0x80 = 0"
  by unfold_locales (auto simp: rx_push_def uart_read8_def split: list.splits)

text \<open>
  The serial port receives in order: with the divisor latch closed, reading the receive
  register as many times as there are bytes returns the bytes that were waiting and then the
  bytes the input thread pushed, each once and in the order they arrived.
\<close>

theorem uart_receives_in_order:
  assumes "ua_lcr u AND 0x80 = 0"
  shows "fst (drain (uart_read8 RBR) (length (ua_rx_fifo u) + length bs)
           (fold (\<lambda>ch u. fst (rx_push ch u)) bs u)) = ua_rx_fifo u @ bs"
  using uart_rx.in_order [OF assms, of bs] by simp

text \<open>Two bytes pushed to an idle port.\<close>

theorem uart_receives_in_order_witness:
  "fst (drain (uart_read8 RBR) 2 (fold (\<lambda>ch u. fst (rx_push ch u)) [0x68, 0x69] UART0))
     = [0x68, 0x69]"
  using uart_receives_in_order [of UART0 "[0x68, 0x69]"] by (simp add: UART0_fields eval_nat_numeral)

subsection \<open>The status registers and the input filter\<close>

lemma and_bit0: "v AND 1 = 0 \<longleftrightarrow> \<not> bit (v :: u8) 0"
  using tst_bit [of v 0, unfolded tst_def] by auto

lemma and_bit1: "v AND 2 = 0 \<longleftrightarrow> \<not> bit (v :: u8) 1"
  by (simp add: and_exp_eq_0_iff_not_bit [of _ 1, simplified])

text \<open>
  The status registers describe the buffer and the interrupts: bit 0 of the line status is
  set exactly when a byte is waiting, the transmitter is always ready, and the interrupt
  identification reports received data before transmitter-empty, each only when enabled.
\<close>

theorem uart_status:
  "bit (fst (uart_read8 LSR u)) 0 = (ua_rx_fifo u \<noteq> [])
   \<and> bit (fst (uart_read8 LSR u)) 5 \<and> bit (fst (uart_read8 LSR u)) 6
   \<and> fst (uart_read8 IIR u) AND 0xF =
       (if bit (ua_ier u) 0 \<and> ua_rx_fifo u \<noteq> [] then 4 else if bit (ua_ier u) 1 then 2 else 1)
   \<and> snd (uart_read8 LSR u) = u \<and> snd (uart_read8 IIR u) = u"
proof -
  have lsr: "fst (uart_read8 LSR u) = (if ua_rx_fifo u \<noteq> [] then 0x61 else 0x60)"
    by (simp add: uart_read8_def read_lsr_def uart_consts)
  have iir: "fst (uart_read8 IIR u) AND 0xF =
      (if bit (ua_ier u) 0 \<and> ua_rx_fifo u \<noteq> [] then 4 else if bit (ua_ier u) 1 then 2 else 1)"
    by (simp add: uart_read8_def read_iir_def uart_consts and_bit0 and_bit1 bit.conj_disj_distrib2)
  show ?thesis unfolding lsr iir
    by (simp add: uart_read8_def uart_consts)
qed

text \<open>
  Each byte typed is filtered as documented: control-A is held back, control-A \<open>q\<close> halts the
  processor (when the input is a terminal) and sends nothing, control-A control-A sends one control-A, and every other byte
  is delivered (after the held control-A, if there was one and the input is a terminal); an interrupt is raised exactly
  when a byte is delivered with receive interrupts enabled.
\<close>

theorem input_filter:
  assumes "input_thread_body inst b u = (v, irq, hlt)"
  shows "ua_rx_fifo v = ua_rx_fifo u @
      (if ua_escape u then (if b = 0x71 \<or> b = 0x51 then [] else if b = 0x01 then [0x01]
           else if inst then [0x01, b] else [b])
       else if b = 0x01 then [] else [b])
    \<and> hlt = (inst \<and> ua_escape u \<and> (b = 0x71 \<or> b = 0x51))
    \<and> ua_escape v = (\<not> ua_escape u \<and> b = 0x01)
    \<and> irq = (ua_rx_fifo v \<noteq> ua_rx_fifo u \<and> bit (ua_ier u) 0)"
  using assms
  by (auto simp: input_thread_body_def read_char_def rx_push_def Let_def uart_consts and_bit0
      split: if_splits)

text \<open>Control-A and then \<open>q\<close> at an idle port.\<close>

theorem input_filter_witness:
  "ua_escape (fst (input_thread_body True 0x01 UART0))
   \<and> snd (snd (input_thread_body True 0x71 (fst (input_thread_body True 0x01 UART0))))"
proof -
  obtain v i h where a: "input_thread_body True 0x01 UART0 = (v, i, h)" by (metis prod.exhaust)
  obtain w j k where b: "input_thread_body True 0x71 v = (w, j, k)" by (metis prod.exhaust)
  show ?thesis
    using input_filter [OF a] input_filter [OF b] by (simp add: a b UART0_fields)
qed

end
