(* ===== verification/Frame.thy ===== *)
theory Frame
  imports Memory Fifo
begin

section \<open>The frame buffer and the input device\<close>

text \<open>
  src/devices/framebuffer/framebuffer.cpp and src/devices/input.cpp. The pixel array is a
  function of the byte offset. The word accessors test \<open>offset + 4 > SIZE\<close> in 32-bit
  arithmetic, which the last four offsets of the address space pass; the access past the
  array that follows is undefined and is \<open>None\<close> here.
\<close>

definition FB_SIZE :: u32 where "FB_SIZE = 1024000"

record FrameBuffer =
  fb_pixels :: "nat \<Rightarrow> u8"

definition FrameBuffer0 :: FrameBuffer where
  "FrameBuffer0 = \<lparr>fb_pixels = (\<lambda>_. 0)\<rparr>"

definition fb_get :: "FrameBuffer \<Rightarrow> nat \<Rightarrow> u8" where
  "fb_get f i = fb_pixels f i"

definition fb_set :: "nat \<Rightarrow> u8 \<Rightarrow> FrameBuffer \<Rightarrow> FrameBuffer" where
  "fb_set i b f = f\<lparr>fb_pixels := (fb_pixels f)(i := b)\<rparr>"

definition fb_in_bounds :: "u32 \<Rightarrow> bool" where
  "fb_in_bounds offset \<longleftrightarrow> unat offset + 4 \<le> unat FB_SIZE"

definition fb_read8 :: "u32 \<Rightarrow> FrameBuffer \<Rightarrow> u8" where
  "fb_read8 offset f = (if offset \<ge> FB_SIZE then 0 else fb_get f (unat offset))"

definition fb_write8 :: "u32 \<Rightarrow> u8 \<Rightarrow> FrameBuffer \<Rightarrow> FrameBuffer" where
  "fb_write8 offset val f = (if offset \<ge> FB_SIZE then f else fb_set (unat offset) val f)"

definition fb_read32 :: "u32 \<Rightarrow> FrameBuffer \<Rightarrow> u32 option" where
  "fb_read32 offset f =
    (if offset + 4 > FB_SIZE then Some 0
     else if \<not> fb_in_bounds offset then None
     else let i = unat offset in
       Some (le32 (fb_get f i) (fb_get f (i + 1)) (fb_get f (i + 2)) (fb_get f (i + 3))))"

definition fb_write32 :: "u32 \<Rightarrow> u32 \<Rightarrow> FrameBuffer \<Rightarrow> FrameBuffer option" where
  "fb_write32 offset val f =
    (if offset + 4 > FB_SIZE then Some f
     else if \<not> fb_in_bounds offset then None
     else let i = unat offset in
       Some (fb_set (i + 3) (byte_of 3 val) (fb_set (i + 2) (byte_of 2 val)
         (fb_set (i + 1) (byte_of 1 val) (fb_set i (byte_of 0 val) f)))))"

interpretation fb: byte_store fb_get fb_set "\<lambda>f i. True"
  by unfold_locales (simp_all add: fb_get_def fb_set_def)

lemma fb_bounds:
  assumes "offset < 0xFFFFFFFC"
  shows "offset + 4 > FB_SIZE \<longleftrightarrow> \<not> fb_in_bounds offset"
proof -
  have "unat offset + 4 < 2 ^ LENGTH(32)"
    using assms by (simp add: word_less_nat_alt)
  then have "unat (offset + of_nat 4) = unat offset + 4" by (rule unat_add_of_nat)
  then show ?thesis by (simp add: fb_in_bounds_def word_less_nat_alt not_le)
qed

text \<open>
  Below the last four bytes of the address space the frame buffer is a bounds-checked array
  of words: a word written at an offset that fits is read back and touches no other byte, and
  one that does not fit is dropped and reads as 0.
\<close>

theorem fb_word_access:
  assumes "offset < 0xFFFFFFFC"
  shows "\<exists>g. fb_write32 offset v f = Some g
    \<and> fb_read32 offset g = Some (if fb_in_bounds offset then v else 0)
    \<and> (\<forall>i. i \<notin> {unat offset..<unat offset + 4} \<or> \<not> fb_in_bounds offset \<longrightarrow> fb_get g i = fb_get f i)"
proof (cases "fb_in_bounds offset")
  case True
  let ?i = "unat offset"
  let ?g = "fb_set (?i + 3) (byte_of 3 v) (fb_set (?i + 2) (byte_of 2 v)
         (fb_set (?i + 1) (byte_of 1 v) (fb_set ?i (byte_of 0 v) f)))"
  have d: "distinct [?i, ?i + 1, ?i + 2, ?i + 3]" by simp
  have "fb_write32 offset v f = Some ?g"
    using True fb_bounds [OF assms] by (simp add: fb_write32_def Let_def)
  moreover have "fb_read32 offset ?g = Some v"
    using True fb_bounds [OF assms] fb.word_roundtrip(1) [OF TrueI TrueI TrueI TrueI d refl]
    by (simp add: fb_read32_def Let_def)
  moreover have "fb_get ?g i = fb_get f i" if "i \<notin> {?i..<?i + 4}" for i
    using that unfolding fb.load_store4 [OF TrueI TrueI TrueI TrueI d] by auto
  ultimately show ?thesis using True by auto
next
  case False
  then show ?thesis using fb_bounds [OF assms] by (simp add: fb_write32_def fb_read32_def)
qed

text \<open>The last pixel and the first offset past it.\<close>

theorem fb_word_access_witness:
  "(\<exists>g. fb_write32 1023996 0xFFFFFF FrameBuffer0 = Some g \<and> fb_read32 1023996 g = Some 0xFFFFFF)
   \<and> (\<exists>g. fb_write32 1023997 7 FrameBuffer0 = Some g \<and> fb_read32 1023997 g = Some 0)"
  using fb_word_access [of 1023996 "0xFFFFFF" FrameBuffer0] fb_word_access [of 1023997 7 FrameBuffer0]
  by (auto simp: fb_in_bounds_def FB_SIZE_def)

subsection \<open>The input device\<close>

definition REG_POP :: u32 where "REG_POP = 0"

text \<open>An event is a key and whether it was pressed.\<close>

type_synonym Event = "u8 \<times> bool"

record InputDevice =
  in_queue :: "Event list"

definition push_event :: "Event \<Rightarrow> InputDevice \<Rightarrow> InputDevice" where
  "push_event e d = d\<lparr>in_queue := in_queue d @ [e]\<rparr>"

definition event_word :: "Event \<Rightarrow> u32" where
  "event_word e = (case e of (key, pressed) \<Rightarrow> (if pressed then push_bit 8 1 else 0) OR ucast key)"

definition input_read32 :: "u32 \<Rightarrow> InputDevice \<Rightarrow> u32 \<times> InputDevice" where
  "input_read32 offset d =
    (if offset \<noteq> REG_POP then (0, d)
     else (case in_queue d of
         [] \<Rightarrow> (0xFFFFFFFF, d)
       | e # rest \<Rightarrow> (event_word e, d\<lparr>in_queue := rest\<rparr>)))"

definition input_write32 :: "u32 \<Rightarrow> u32 \<Rightarrow> InputDevice \<Rightarrow> InputDevice" where
  "input_write32 offset val d = d"

interpretation input: fifo_queue
  push_event "input_read32 REG_POP" in_queue event_word "0xFFFFFFFF" "\<lambda>_. True"
  by unfold_locales (auto simp: push_event_def input_read32_def)

text \<open>
  Key events reach the processor in order and none is lost: polling the device once per
  event returns their words in the order they were pushed, and then the word of an empty
  queue, which is the word of no event.
\<close>

theorem input_in_order:
  "fst (drain (input_read32 REG_POP) (length (in_queue d) + length es) (fold push_event es d))
     = List.map event_word (in_queue d @ es)
   \<and> fst (input_read32 REG_POP \<lparr>in_queue = []\<rparr>) = 0xFFFFFFFF
   \<and> (\<forall>e. event_word e \<noteq> 0xFFFFFFFF)"
proof -
  have "event_word e \<noteq> 0xFFFFFFFF" for e
  proof
    assume a: "event_word e = 0xFFFFFFFF"
    have "\<not> bit (event_word e) 31"
      by (cases e) (auto simp: event_word_def bit_simps dest: bit_imp_le_length)
    then show False unfolding a by simp
  qed
  then show ?thesis
    using input.in_order [of d es] by (simp add: input_read32_def REG_POP_def)
qed

end
