(* ===== verification/Tlb.thy ===== *)
theory Tlb
  imports Prelude
begin

section \<open>The translation lookaside buffer\<close>

text \<open>
  src/mmu/tlb.cpp and inc/mmu/tlb.hpp: 16 sets of 4 ways with a pseudo-LRU tree per set. The
  two-dimensional array is a function of the set and the way.
\<close>

unbundle bit_operations_syntax

definition TLB_WAYS :: nat where "TLB_WAYS = 4"
definition TLB_SETS :: nat where "TLB_SETS = 16"

record TLBFlags =
  fl_read :: bool
  fl_write :: bool
  fl_execute :: bool
  fl_user :: bool
  fl_global :: bool
  fl_accessed :: bool
  fl_dirty :: bool

record TLBEntry =
  te_vpn :: u32
  te_asid :: u16
  te_ppn :: u32
  te_flags :: TLBFlags
  te_valid :: bool
  te_superpage :: bool

record TLB =
  tl_entries :: "nat \<Rightarrow> nat \<Rightarrow> TLBEntry"
  tl_plru :: "nat \<Rightarrow> u8"

definition TLBFlags0 :: TLBFlags where
  "TLBFlags0 = \<lparr>fl_read = False, fl_write = False, fl_execute = False, fl_user = False,
     fl_global = False, fl_accessed = False, fl_dirty = False\<rparr>"

definition TLBEntry0 :: TLBEntry where
  "TLBEntry0 = \<lparr>te_vpn = 0, te_asid = 0, te_ppn = 0, te_flags = TLBFlags0, te_valid = False,
     te_superpage = False\<rparr>"

definition TLB_reset :: TLB where
  "TLB_reset = \<lparr>tl_entries = (\<lambda>_ _. TLBEntry0), tl_plru = (\<lambda>_. 0)\<rparr>"

definition set_of :: "u32 \<Rightarrow> nat" where
  "set_of vpn = unat (vpn AND 0xF)"

definition plru_victim :: "u8 \<Rightarrow> nat" where
  "plru_victim state =
    (if drop_bit 2 state AND 1 \<noteq> 0 then (if drop_bit 1 state AND 1 \<noteq> 0 then 0 else 1)
     else (if drop_bit 0 state AND 1 \<noteq> 0 then 2 else 3))"

definition plru_update :: "u8 \<Rightarrow> nat \<Rightarrow> u8" where
  "plru_update state way =
    (if way = 0 then (state AND 1) OR 0
     else if way = 1 then (state AND 1) OR 2
     else if way = 2 then (state AND 2) OR 4
     else if way = 3 then (state AND 2) OR 5
     else state)"

definition touch :: "nat \<Rightarrow> nat \<Rightarrow> TLB \<Rightarrow> TLB" where
  "touch row way t = t\<lparr>tl_plru := (tl_plru t)(row := plru_update (tl_plru t row) way)\<rparr>"

definition set_entry :: "nat \<Rightarrow> nat \<Rightarrow> TLBEntry \<Rightarrow> TLB \<Rightarrow> TLB" where
  "set_entry row way e t =
     t\<lparr>tl_entries := (tl_entries t)(row := (tl_entries t row)(way := e))\<rparr>"

definition vpn_match :: "TLBEntry \<Rightarrow> u32 \<Rightarrow> bool" where
  "vpn_match e vpn = (if te_superpage e then drop_bit 10 (te_vpn e) = drop_bit 10 vpn
                      else te_vpn e = vpn)"

text \<open>The condition under which the loop of \<open>tlb_lookup\<close> does not continue.\<close>

definition tlb_matches :: "TLBEntry \<Rightarrow> u32 \<Rightarrow> u16 \<Rightarrow> bool" where
  "tlb_matches e vpn asid \<longleftrightarrow> te_valid e \<and> vpn_match e vpn
     \<and> (fl_global (te_flags e) \<or> te_asid e = asid)"

text \<open>The first way that satisfies a condition, as the three search loops find it.\<close>

definition first_way :: "(nat \<Rightarrow> bool) \<Rightarrow> nat option" where
  "first_way P = find P [0..<TLB_WAYS]"

definition tlb_lookup :: "u32 \<Rightarrow> u16 \<Rightarrow> TLB \<Rightarrow> TLBEntry option \<times> TLB" where
  "tlb_lookup vpn asid t =
    (let row = set_of vpn in
     case first_way (\<lambda>way. tlb_matches (tl_entries t row way) vpn asid) of
       Some way \<Rightarrow> (Some (tl_entries t row way), touch row way t)
     | None \<Rightarrow> (None, t))"

definition tlb_fill :: "u32 \<Rightarrow> u16 \<Rightarrow> u32 \<Rightarrow> TLBFlags \<Rightarrow> bool \<Rightarrow> TLB \<Rightarrow> TLB" where
  "tlb_fill vpn asid ppn flags superpage t =
    (let row = set_of vpn;
         fresh = \<lparr>te_vpn = vpn, te_asid = asid, te_ppn = ppn, te_flags = flags,
                  te_valid = True, te_superpage = superpage\<rparr>
     in case first_way (\<lambda>way. let e = tl_entries t row way in
               te_valid e \<and> te_vpn e = vpn \<and> (fl_global (te_flags e) \<or> te_asid e = asid)) of
          Some way \<Rightarrow>
            (let e = tl_entries t row way
             in touch row way (set_entry row way
                  (e\<lparr>te_ppn := ppn, te_flags := flags, te_asid := asid,
                     te_superpage := superpage\<rparr>) t))
        | None \<Rightarrow>
            (case first_way (\<lambda>way. \<not> te_valid (tl_entries t row way)) of
               Some way \<Rightarrow> touch row way (set_entry row way fresh t)
             | None \<Rightarrow>
                 (let victim = plru_victim (tl_plru t row)
                  in touch row victim (set_entry row victim fresh t))))"

definition tlb_flush_all :: "TLB \<Rightarrow> TLB" where
  "tlb_flush_all t = TLB_reset"

text \<open>Invalidates the entries of the given sets and of all ways that satisfy a condition.\<close>

definition invalidate :: "(nat \<Rightarrow> bool) \<Rightarrow> (TLBEntry \<Rightarrow> bool) \<Rightarrow> TLB \<Rightarrow> TLB" where
  "invalidate S P t = t\<lparr>tl_entries := (\<lambda>row way.
     let e = tl_entries t row way in
     if S row \<and> way < TLB_WAYS \<and> P e then e\<lparr>te_valid := False\<rparr> else e)\<rparr>"

definition tlb_flush_asid :: "u16 \<Rightarrow> TLB \<Rightarrow> TLB" where
  "tlb_flush_asid asid t = invalidate (\<lambda>row. row < TLB_SETS)
     (\<lambda>e. te_valid e \<and> \<not> fl_global (te_flags e) \<and> te_asid e = asid) t"

definition tlb_flush_va :: "u32 \<Rightarrow> TLB \<Rightarrow> TLB" where
  "tlb_flush_va va t = (let vpn = drop_bit 12 va in
     invalidate (\<lambda>row. row = set_of vpn) (\<lambda>e. te_valid e \<and> vpn_match e vpn) t)"

definition tlb_flush_va_asid :: "u32 \<Rightarrow> u16 \<Rightarrow> TLB \<Rightarrow> TLB" where
  "tlb_flush_va_asid va asid t = (let vpn = drop_bit 12 va in
     invalidate (\<lambda>row. row = set_of vpn)
       (\<lambda>e. te_valid e \<and> vpn_match e vpn \<and> (fl_global (te_flags e) \<or> te_asid e = asid)) t)"

subsection \<open>Searching a set\<close>

lemma first_way_Some:
  "first_way P = Some w \<longleftrightarrow> w < TLB_WAYS \<and> P w \<and> (\<forall>v < w. \<not> P v)"
  by (auto simp: first_way_def find_Some_iff)

lemma first_way_None: "first_way P = None \<longleftrightarrow> (\<forall>w < TLB_WAYS. \<not> P w)"
  by (auto simp: first_way_def find_None_iff)

lemma touch_entries [simp]: "tl_entries (touch row way t) = tl_entries t"
  by (simp add: touch_def)

lemma set_entry_entries [simp]:
  "tl_entries (set_entry row way e t) =
    (\<lambda>r w. if r = row \<and> w = way then e else tl_entries t r w)"
  by (auto simp: set_entry_def fun_eq_iff)

lemma set_of_less: "set_of vpn < TLB_SETS"
proof -
  have "vpn AND 0xF < 2 ^ 4"
    using and_mask_less_size [of 4 vpn] by (simp add: word_size mask_numeral)
  then show ?thesis by (simp add: set_of_def TLB_SETS_def word_less_nat_alt)
qed

lemma plru_victim_less: "plru_victim st < TLB_WAYS"
  by (simp add: plru_victim_def TLB_WAYS_def)

text \<open>A hit in the current state, without the update of the tree.\<close>

definition tlb_hit :: "u32 \<Rightarrow> u16 \<Rightarrow> TLB \<Rightarrow> TLBEntry \<Rightarrow> bool" where
  "tlb_hit vpn asid t e \<longleftrightarrow> fst (tlb_lookup vpn asid t) = Some e"

lemma tlb_lookup_Some:
  assumes "tlb_lookup vpn asid t = (Some e, u)"
  shows "tlb_matches e vpn asid" and "tl_entries u = tl_entries t"
    and "\<exists>w < TLB_WAYS. e = tl_entries t (set_of vpn) w"
  using assms by (auto simp: tlb_lookup_def Let_def first_way_Some split: option.splits)

lemma tlb_lookup_None:
  "fst (tlb_lookup vpn asid t) = None \<longleftrightarrow>
    (\<forall>w < TLB_WAYS. \<not> tlb_matches (tl_entries t (set_of vpn) w) vpn asid)"
  by (auto simp: tlb_lookup_def Let_def first_way_None first_way_Some split: option.splits)

lemma tlb_lookup_entries [simp]: "tl_entries (snd (tlb_lookup vpn asid t)) = tl_entries t"
  by (auto simp: tlb_lookup_def Let_def split: option.splits)

text \<open>The slot a fill takes after a miss: a free way, or the victim of the tree.\<close>

definition fill_way :: "u32 \<Rightarrow> TLB \<Rightarrow> nat" where
  "fill_way vpn t = (case first_way (\<lambda>w. \<not> te_valid (tl_entries t (set_of vpn) w)) of
      Some w \<Rightarrow> w | None \<Rightarrow> plru_victim (tl_plru t (set_of vpn)))"

lemma fill_way_less: "fill_way vpn t < TLB_WAYS"
  by (auto simp: fill_way_def first_way_Some plru_victim_less split: option.splits)

lemma tlb_fill_after_miss:
  assumes "fst (tlb_lookup vpn asid t) = None"
  shows "tl_entries (tlb_fill vpn asid ppn flags sp t) =
    (\<lambda>r w. if r = set_of vpn \<and> w = fill_way vpn t
      then \<lparr>te_vpn = vpn, te_asid = asid, te_ppn = ppn, te_flags = flags,
             te_valid = True, te_superpage = sp\<rparr>
      else tl_entries t r w)"
proof -
  have "first_way (\<lambda>w. let e = tl_entries t (set_of vpn) w in
      te_valid e \<and> te_vpn e = vpn \<and> (fl_global (te_flags e) \<or> te_asid e = asid)) = None"
    using assms unfolding tlb_lookup_None first_way_None
    by (auto simp: tlb_matches_def vpn_match_def Let_def)
  then show ?thesis
    by (simp add: tlb_fill_def Let_def fill_way_def split: option.splits)
qed

text \<open>What a lookup finds after the fill that follows a miss.\<close>

lemma tlb_lookup_after_fill:
  assumes "fst (tlb_lookup vpn asid t) = None"
  shows "fst (tlb_lookup vpn asid (tlb_fill vpn asid ppn flags sp t)) =
    Some \<lparr>te_vpn = vpn, te_asid = asid, te_ppn = ppn, te_flags = flags, te_valid = True, te_superpage = sp\<rparr>"
proof -
  let ?u = "tlb_fill vpn asid ppn flags sp t"
  note ent = tlb_fill_after_miss [OF assms, of ppn flags sp]
  have here: "tlb_matches (tl_entries ?u (set_of vpn) w) vpn asid \<longleftrightarrow> w = fill_way vpn t"
    if "w < TLB_WAYS" for w
    using assms that by (auto simp: ent tlb_lookup_None tlb_matches_def vpn_match_def)
  then have "fst (tlb_lookup vpn asid ?u) \<noteq> None"
    unfolding tlb_lookup_None using fill_way_less by blast
  then obtain e where e: "fst (tlb_lookup vpn asid ?u) = Some e" by blast
  then have "tlb_lookup vpn asid ?u = (Some e, snd (tlb_lookup vpn asid ?u))"
    by (metis prod.collapse)
  from tlb_lookup_Some [OF this] obtain w where "w < TLB_WAYS" "e = tl_entries ?u (set_of vpn) w"
    "tlb_matches e vpn asid" by blast
  with here have "e = tl_entries ?u (set_of vpn) (fill_way vpn t)" by blast
  then show ?thesis using e by (simp add: ent)
qed

subsection \<open>What the buffer promises\<close>

text \<open>
  A hit is a genuine mapping: the entry returned is valid, covers the page (the whole
  4 MB region for a superpage), belongs to the address space asked for or is global, and sits
  in the set of the page; a miss means that no entry of that set qualifies; and looking up never changes
  an entry.
\<close>

theorem tlb_lookup_correct:
  "(case tlb_lookup vpn asid t of
      (Some e, u) \<Rightarrow> te_valid e \<and> (fl_global (te_flags e) \<or> te_asid e = asid)
        \<and> (if te_superpage e then drop_bit 10 (te_vpn e) = drop_bit 10 vpn else te_vpn e = vpn)
        \<and> (\<exists>w < 4. tl_entries t (set_of vpn) w = e) \<and> tl_entries u = tl_entries t
    | (None, u) \<Rightarrow> u = t
        \<and> (\<forall>w < 4. \<not> tlb_matches (tl_entries t (set_of vpn) w) vpn asid))"
proof (cases "fst (tlb_lookup vpn asid t)")
  case None
  then have "\<forall>w < 4. \<not> tlb_matches (tl_entries t (set_of vpn) w) vpn asid"
    using tlb_lookup_None [of vpn asid t] by (simp add: TLB_WAYS_def)
  moreover have "snd (tlb_lookup vpn asid t) = t"
    using None by (auto simp: tlb_lookup_def Let_def split: option.splits)
  ultimately show ?thesis using None by (simp add: prod.case_eq_if)
next
  case (Some e)
  then have "tlb_lookup vpn asid t = (Some e, snd (tlb_lookup vpn asid t))"
    by (metis prod.collapse)
  from tlb_lookup_Some [OF this] show ?thesis
    using Some by (auto simp: prod.case_eq_if tlb_matches_def vpn_match_def TLB_WAYS_def)
qed

text \<open>A lookup in the empty buffer.\<close>

theorem tlb_lookup_correct_witness:
  "tlb_lookup 5 1 TLB_reset = (None, TLB_reset)
   \<and> \<not> tlb_matches (tl_entries TLB_reset (set_of 5) 3) 5 1"
proof -
  have "fst (tlb_lookup 5 1 TLB_reset) = None"
    by (simp add: tlb_lookup_None tlb_matches_def TLB_reset_def TLBEntry0_def)
  then show ?thesis
    using tlb_lookup_correct [where vpn = 5 and asid = 1 and t = TLB_reset] by (auto simp: prod.case_eq_if prod_eq_iff)
qed

text \<open>
  C26. A mapping filled in after a miss is the one the next lookup finds, and the fill replaces
  exactly one entry, a free way of the set or else the victim of its tree.
\<close>

theorem tlb_fill_then_lookup:
  assumes "fst (tlb_lookup vpn asid t) = None"
  shows "(\<exists>e. fst (tlb_lookup vpn asid (tlb_fill vpn asid ppn flags sp t)) = Some e
      \<and> te_ppn e = ppn \<and> te_flags e = flags \<and> te_superpage e = sp)
    \<and> (\<forall>r w. (r, w) \<noteq> (set_of vpn, fill_way vpn t) \<longrightarrow>
        tl_entries (tlb_fill vpn asid ppn flags sp t) r w = tl_entries t r w)"
  using tlb_lookup_after_fill [OF assms, of ppn flags sp] tlb_fill_after_miss [OF assms, of ppn flags sp]
  by auto

text \<open>The first fill of an empty buffer.\<close>

theorem tlb_fill_then_lookup_witness:
  "fst (tlb_lookup 0x80000 1 TLB_reset) = None
   \<and> (\<exists>e. fst (tlb_lookup 0x80000 1 (tlb_fill 0x80000 1 0x1234 TLBFlags0 False TLB_reset)) = Some e
        \<and> te_ppn e = 0x1234)"
proof -
  have "fst (tlb_lookup 0x80000 1 TLB_reset) = None"
    by (simp add: tlb_lookup_None tlb_matches_def TLB_reset_def TLBEntry0_def)
  from this tlb_fill_then_lookup [OF this, of "0x1234" TLBFlags0 False] show ?thesis by blast
qed



text \<open>
  The replacement tree never evicts the way used last: after an access to a way, the victim
  is one of the other three.
\<close>

theorem plru_victim_not_recent:
  assumes "w < TLB_WAYS"
  shows "plru_victim (plru_update st w) < TLB_WAYS \<and> plru_victim (plru_update st w) \<noteq> w"
proof -
  have "w = 0 \<or> w = 1 \<or> w = 2 \<or> w = 3" using assms by (auto simp: TLB_WAYS_def)
  then show ?thesis
    unfolding plru_victim_def plru_update_def TLB_WAYS_def tst_def [symmetric] tst_bit
    by (elim disjE) (simp_all add: bit_or_iff bit_and_iff)
qed

text \<open>Way 2 used last.\<close>

theorem plru_victim_not_recent_witness:
  "(2 :: nat) < TLB_WAYS \<and> plru_victim (plru_update 3 2) \<noteq> 2"
  using plru_victim_not_recent [of 2 3] by (simp add: TLB_WAYS_def)

end
