(* ===== verification/Machine.thy ===== *)
theory Machine
  imports Decode Clint Plic Uart Frame Tlb
begin

section \<open>The state of the emulator\<close>

text \<open>
  The data members of the classes CPU, Bus, VirtioBlk, VirtioNet and Emulator, the
  configuration they read, and the accessors the later theories share. The console output of
  the tracer is not part of the state; the bytes sent through the serial port are.
\<close>

unbundle bit_operations_syntax

subsection \<open>Configuration\<close>

datatype Platform = BARE_METAL | XV6 | LINUX

record Profile =
  pf_platform :: Platform
  pf_starting_pc :: u32
  pf_dram_start :: u32
  pf_dtb_address :: u32
  pf_kernel_address :: u32
  pf_extensions :: Extensions
  pf_elf_path :: string
  pf_bin_path :: string
  pf_disk_path :: string
  pf_dtb_path :: string
  pf_opensbi_path :: string
  pf_tap_name :: string
  pf_verbose :: bool
  pf_open_sdl :: bool

record CPUConfig =
  cc_mode :: ExecutionMode
  cc_extensions :: Extensions
  cc_starting_pc :: u32

record EmulatorConfig =
  ec_profile :: Profile
  ec_cpu_config :: CPUConfig

subsection \<open>The record of a step\<close>

record RegWrite =
  rw_valid :: bool
  rw_rd :: u8
  rw_old_val :: u32
  rw_new_val :: u32

record MemWrite =
  mw_valid :: bool
  mw_addr :: u32
  mw_old_val :: u32
  mw_new_val :: u32
  mw_size :: u8

record CsrWrite =
  cw_valid :: bool
  cw_addr :: u16
  cw_old_val :: u32
  cw_new_val :: u32

record StepResult =
  sr_pc_before :: u32
  sr_instruction :: u32
  sr_dInstr :: DecodedInstr
  sr_pc_after :: u32
  sr_reg_write :: RegWrite
  sr_mem_write :: MemWrite
  sr_csr_write :: CsrWrite

subsection \<open>The processor\<close>

text \<open>
  A cached page is \<open>None\<close> while its array is not allocated. The general registers and the
  control registers are arrays of 32 and 4096 words, here functions of the register number.
\<close>

record ICacheEntry =
  ic_phys_page :: u32
  ic_data :: "(nat \<Rightarrow> u8) option"
  ic_valid :: bool

record CacheEntry =
  ce_epoch :: u32
  ce_pc :: u32
  ce_decoded :: DecodedInstr
  ce_raw :: u32

record CPU =
  cpu_pc :: u32
  cpu_set_next_pc :: bool
  cpu_next_pc :: u32
  cpu_regs :: "u8 \<Rightarrow> u32"
  cpu_csrs :: "u16 \<Rightarrow> u32"
  cpu_reservation_valid :: bool
  cpu_reservation_addr :: u32
  cpu_privilege_level :: PrivilegeLevel
  cpu_state :: CPUState
  cpu_tlb :: TLB
  cpu_icache :: "nat \<Rightarrow> ICacheEntry"
  cpu_current_epoch :: u32
  cpu_decoded_cache :: "nat \<Rightarrow> CacheEntry"
  cpu_misalignment_mask :: u32
  cpu_sr :: StepResult
  cpu_trap_occurred :: bool

subsection \<open>The virtio devices\<close>

text \<open>A disk image: whether it was opened, its bytes, and the sticky failure bit of the stream.\<close>

record Disk =
  dk_open :: bool
  dk_data :: "u8 list"
  dk_fail :: bool

record VirtioBlk =
  vb_status :: u32
  vb_queue_sel :: u32
  vb_queue_num :: u32
  vb_queue_ready :: u32
  vb_interrupt_status :: u32
  vb_driver_features :: u32
  vb_driver_feat_sel :: u32
  vb_device_feat_sel :: u32
  vb_desc_addr :: u32
  vb_avail_addr :: u32
  vb_used_addr :: u32
  vb_last_avail_idx :: u16
  vb_disk :: Disk

record NetQueue =
  nq_num :: u32
  nq_ready :: u32
  nq_desc_addr :: u32
  nq_avail_addr :: u32
  nq_used_addr :: u32
  nq_last_avail_idx :: u16

text \<open>\<open>vn_locked\<close> is \<open>queue_mutex\<close>; \<open>vn_sent\<close> is the queue of frames for the network backend.\<close>

record VirtioNet =
  vn_locked :: bool
  vn_queues :: "nat \<Rightarrow> NetQueue"
  vn_queue_sel :: u32
  vn_status :: u32
  vn_interrupt_status :: u32
  vn_device_feat_sel :: u32
  vn_driver_feat_sel :: u32
  vn_driver_features :: u32
  vn_backend :: bool
  vn_sent :: "u8 list list"

subsection \<open>The emulator\<close>

text \<open>
  The members of Bus are listed beside those of Emulator. Main memory is a function of the
  offset from \<open>DRAM_BASE\<close>, of which the first \<open>DRAM_SIZE\<close> are the array.
\<close>

definition DRAM_BASE :: u32 where "DRAM_BASE = 0x80000000"
definition DRAM_SIZE :: u32 where "DRAM_SIZE = 0x10000000"

record Machine =
  em_config :: EmulatorConfig
  em_clint :: Clint
  em_plic :: PLIC
  em_dram :: "nat \<Rightarrow> u8"
  em_uart :: UART
  em_blk :: VirtioBlk
  em_net :: VirtioNet
  em_framebuffer :: FrameBuffer
  em_input :: InputDevice
  em_deferred_uart_input :: "u8 list"
  em_cpu :: CPU

definition in_dram :: "u32 \<Rightarrow> bool" where
  "in_dram addr \<longleftrightarrow> addr \<ge> DRAM_BASE \<and> addr < DRAM_BASE + DRAM_SIZE"

subsection \<open>Access to the state\<close>

definition upd_cpu :: "(CPU \<Rightarrow> CPU) \<Rightarrow> (Machine, unit) prog" where
  "upd_cpu f = updates (\<lambda>m. m\<lparr>em_cpu := f (em_cpu m)\<rparr>)"

definition get_cpu :: "(CPU \<Rightarrow> 'a) \<Rightarrow> (Machine, 'a) prog" where
  "get_cpu f = reads (\<lambda>m. f (em_cpu m))"

definition reg :: "u8 \<Rightarrow> (Machine, u32) prog" where
  "reg r = get_cpu (\<lambda>c. cpu_regs c r)"

definition csr :: "u16 \<Rightarrow> (Machine, u32) prog" where
  "csr a = get_cpu (\<lambda>c. cpu_csrs c a)"

definition set_csr :: "u16 \<Rightarrow> u32 \<Rightarrow> (Machine, unit) prog" where
  "set_csr a v = upd_cpu (\<lambda>c. c\<lparr>cpu_csrs := (cpu_csrs c)(a := v)\<rparr>)"

definition set_pc :: "u32 \<Rightarrow> (Machine, unit) prog" where
  "set_pc v = upd_cpu (\<lambda>c. c\<lparr>cpu_pc := v\<rparr>)"

definition set_privilege :: "PrivilegeLevel \<Rightarrow> (Machine, unit) prog" where
  "set_privilege p = upd_cpu (\<lambda>c. c\<lparr>cpu_privilege_level := p\<rparr>)"

text \<open>The pair of assignments \<open>next_pc_ = t; set_next_pc_ = true\<close>.\<close>

definition jump_to :: "u32 \<Rightarrow> (Machine, unit) prog" where
  "jump_to t = upd_cpu (\<lambda>c. c\<lparr>cpu_next_pc := t, cpu_set_next_pc := True\<rparr>)"

definition set_state :: "CPUState \<Rightarrow> (Machine, unit) prog" where
  "set_state s = upd_cpu (\<lambda>c. c\<lparr>cpu_state := s\<rparr>)"

definition upd_sr :: "(StepResult \<Rightarrow> StepResult) \<Rightarrow> (Machine, unit) prog" where
  "upd_sr f = upd_cpu (\<lambda>c. c\<lparr>cpu_sr := f (cpu_sr c)\<rparr>)"

text \<open>CPU::writeReg.\<close>

definition writeReg :: "u8 \<Rightarrow> u32 \<Rightarrow> (Machine, unit) prog" where
  "writeReg rd value =
     do_if (rd \<noteq> 0) (upd_cpu (\<lambda>c. c\<lparr>cpu_regs := (cpu_regs c)(rd := value)\<rparr>))"

text \<open>CPU::invalidateReservation, CPU::setPC, CPU::pc, CPU::halt and CPU::isHalted.\<close>

definition invalidateReservation :: "u32 \<Rightarrow> (Machine, unit) prog" where
  "invalidateReservation addr = upd_cpu (\<lambda>c.
     if cpu_reservation_valid c \<and> cpu_reservation_addr c = addr
     then c\<lparr>cpu_reservation_valid := False\<rparr> else c)"

definition setPC :: "u32 \<Rightarrow> (Machine, unit) prog" where
  "setPC pc = set_pc pc"

definition halt :: "(Machine, unit) prog" where
  "halt = set_state HALTED"

definition isHalted :: "(Machine, bool) prog" where
  "isHalted = get_cpu (\<lambda>c. cpu_state c = HALTED)"

text \<open>The decode cache and the instruction cache, as stores to memory invalidate them.\<close>

definition DECODE_CACHE_SIZE :: u32 where "DECODE_CACHE_SIZE = 4096"
definition NUM_PAGES :: u32 where "NUM_PAGES = 64"

definition clearDecodeCache_cpu :: "CPU \<Rightarrow> CPU" where
  "clearDecodeCache_cpu c =
    (let e = cpu_current_epoch c + 1 in
     if e = 0
     then c\<lparr>cpu_current_epoch := 1,
            cpu_decoded_cache := (\<lambda>i. (cpu_decoded_cache c i)\<lparr>ce_pc := 0xFFFFFFFF, ce_epoch := 0\<rparr>)\<rparr>
     else c\<lparr>cpu_current_epoch := e\<rparr>)"

definition clearDecodeCache :: "(Machine, unit) prog" where
  "clearDecodeCache = upd_cpu clearDecodeCache_cpu"

definition index_from_page :: "u32 \<Rightarrow> nat" where
  "index_from_page phys_page = unat (phys_page mod NUM_PAGES)"

definition invalidate_page :: "u32 \<Rightarrow> (Machine, unit) prog" where
  "invalidate_page phys_addr = upd_cpu (\<lambda>c.
     let phys_page = drop_bit 12 phys_addr; idx = index_from_page phys_page;
         e = cpu_icache c idx
     in if ic_valid e \<and> ic_phys_page e = phys_page
        then c\<lparr>cpu_icache := (cpu_icache c)(idx := e\<lparr>ic_valid := False\<rparr>)\<rparr> else c)"

definition icache_flush :: "(Machine, unit) prog" where
  "icache_flush = upd_cpu (\<lambda>c. c\<lparr>cpu_icache := (\<lambda>i. (cpu_icache c i)\<lparr>ic_valid := False\<rparr>)\<rparr>)"

text \<open>The callback of the devices: \<open>sys.plic.set_pending(irq)\<close>.\<close>

definition raise_irq :: "u32 \<Rightarrow> (Machine, unit) prog" where
  "raise_irq irq = updates (\<lambda>m. m\<lparr>em_plic := set_pending irq (em_plic m)\<rparr>)"

text \<open>Operations of one component, lifted to the machine.\<close>

definition with_plic :: "(PLIC, 'a) prog \<Rightarrow> (Machine, 'a) prog" where
  "with_plic p = (\<lambda>m. case p (em_plic m) of
       Ok a q \<Rightarrow> Ok a (m\<lparr>em_plic := q\<rparr>) | Raise e q \<Rightarrow> Raise e (m\<lparr>em_plic := q\<rparr>)
     | Undefined \<Rightarrow> Undefined | NoFuel \<Rightarrow> NoFuel)"

definition state_plic :: "(PLIC \<Rightarrow> 'a \<times> PLIC) \<Rightarrow> (Machine, 'a) prog" where
  "state_plic f = (\<lambda>m. case f (em_plic m) of (a, q) \<Rightarrow> Ok a (m\<lparr>em_plic := q\<rparr>))"

definition state_uart :: "(UART \<Rightarrow> 'a \<times> UART) \<Rightarrow> (Machine, 'a) prog" where
  "state_uart f = (\<lambda>m. case f (em_uart m) of (a, u) \<Rightarrow> Ok a (m\<lparr>em_uart := u\<rparr>))"

definition irq_uart :: "(UART \<Rightarrow> UART \<times> bool) \<Rightarrow> (Machine, unit) prog" where
  "irq_uart f = bnd (state_uart (\<lambda>u. case f u of (u', irq) \<Rightarrow> (irq, u'))) (\<lambda>irq.
     do_if irq (raise_irq UART_IRQ))"

definition state_input :: "(InputDevice \<Rightarrow> 'a \<times> InputDevice) \<Rightarrow> (Machine, 'a) prog" where
  "state_input f = (\<lambda>m. case f (em_input m) of (a, d) \<Rightarrow> Ok a (m\<lparr>em_input := d\<rparr>))"

subsection \<open>Control and status registers\<close>

definition SSTATUS :: u16 where "SSTATUS = 0x100"
definition SIE :: u16 where "SIE = 0x104"
definition STVEC :: u16 where "STVEC = 0x105"
definition SENVCFG :: u16 where "SENVCFG = 0x10A"
definition SSTATEEN0 :: u16 where "SSTATEEN0 = 0x10C"
definition SEPC :: u16 where "SEPC = 0x141"
definition SCAUSE :: u16 where "SCAUSE = 0x142"
definition STVAL :: u16 where "STVAL = 0x143"
definition SIP :: u16 where "SIP = 0x144"
definition STIMECMP :: u16 where "STIMECMP = 0x14D"
definition STIMECMPH :: u16 where "STIMECMPH = 0x15D"
definition SATP :: u16 where "SATP = 0x180"
definition MSTATUS :: u16 where "MSTATUS = 0x300"
definition MISA :: u16 where "MISA = 0x301"
definition MEDELEG :: u16 where "MEDELEG = 0x302"
definition MIDELEG :: u16 where "MIDELEG = 0x303"
definition MIE :: u16 where "MIE = 0x304"
definition MTVEC :: u16 where "MTVEC = 0x305"
definition MENVCFG :: u16 where "MENVCFG = 0x30A"
definition MSTATEEN0 :: u16 where "MSTATEEN0 = 0x30C"
definition MSTATEEN1 :: u16 where "MSTATEEN1 = 0x30D"
definition MSTATEEN2 :: u16 where "MSTATEEN2 = 0x30E"
definition MSTATEEN3 :: u16 where "MSTATEEN3 = 0x30F"
definition MENVCFGH :: u16 where "MENVCFGH = 0x31A"
definition MEPC :: u16 where "MEPC = 0x341"
definition MCAUSE :: u16 where "MCAUSE = 0x342"
definition MTVAL :: u16 where "MTVAL = 0x343"
definition MIP :: u16 where "MIP = 0x344"
definition PMPCFG0 :: u16 where "PMPCFG0 = 0x3A0"
definition PMPADDR0 :: u16 where "PMPADDR0 = 0x3B0"
definition MSECCFG :: u16 where "MSECCFG = 0x747"
definition MSECCFGH :: u16 where "MSECCFGH = 0x757"
definition MCYCLE :: u16 where "MCYCLE = 0xB00"
definition MINSTRET :: u16 where "MINSTRET = 0xB02"
definition MCYCLEH :: u16 where "MCYCLEH = 0xB80"
definition MINSTRETH :: u16 where "MINSTRETH = 0xB82"
definition CYCLE :: u16 where "CYCLE = 0xC00"
definition TIME :: u16 where "TIME = 0xC01"
definition CYCLEH :: u16 where "CYCLEH = 0xC80"
definition TIMEH :: u16 where "TIMEH = 0xC81"
definition MVENDORID :: u16 where "MVENDORID = 0xF11"
definition MARCHID :: u16 where "MARCHID = 0xF12"
definition MIMPID :: u16 where "MIMPID = 0xF13"
definition MHARTID :: u16 where "MHARTID = 0xF14"

lemmas csr_numbers =
  SSTATUS_def SIE_def STVEC_def SENVCFG_def SSTATEEN0_def SEPC_def SCAUSE_def STVAL_def SIP_def
  STIMECMP_def STIMECMPH_def SATP_def MSTATUS_def MISA_def MEDELEG_def MIDELEG_def MIE_def
  MTVEC_def MENVCFG_def MSTATEEN0_def MSTATEEN1_def MSTATEEN2_def MSTATEEN3_def MENVCFGH_def
  MEPC_def MCAUSE_def MTVAL_def MIP_def PMPCFG0_def PMPADDR0_def MSECCFG_def MSECCFGH_def
  MCYCLE_def MINSTRET_def MCYCLEH_def MINSTRETH_def CYCLE_def TIME_def CYCLEH_def TIMEH_def
  MVENDORID_def MARCHID_def MIMPID_def MHARTID_def

subsection \<open>Construction\<close>

definition CacheEntry0 :: CacheEntry where
  "CacheEntry0 = \<lparr>ce_epoch = 0, ce_pc = 0xFFFFFFFF, ce_decoded = DecodedInstr0, ce_raw = 0\<rparr>"

definition ICacheEntry0 :: ICacheEntry where
  "ICacheEntry0 = \<lparr>ic_phys_page = 0, ic_data = None, ic_valid = False\<rparr>"

definition VirtioBlk0 :: VirtioBlk where
  "VirtioBlk0 = \<lparr>vb_status = 0, vb_queue_sel = 0, vb_queue_num = 0, vb_queue_ready = 0,
     vb_interrupt_status = 0, vb_driver_features = 0, vb_driver_feat_sel = 0,
     vb_device_feat_sel = 0, vb_desc_addr = 0, vb_avail_addr = 0, vb_used_addr = 0,
     vb_last_avail_idx = 0, vb_disk = \<lparr>dk_open = False, dk_data = [], dk_fail = False\<rparr>\<rparr>"

definition NetQueue0 :: NetQueue where
  "NetQueue0 = \<lparr>nq_num = 0, nq_ready = 0, nq_desc_addr = 0, nq_avail_addr = 0, nq_used_addr = 0,
     nq_last_avail_idx = 0\<rparr>"

definition VirtioNet0 :: VirtioNet where
  "VirtioNet0 = \<lparr>vn_locked = False, vn_queues = (\<lambda>_. NetQueue0), vn_queue_sel = 0, vn_status = 0,
     vn_interrupt_status = 0, vn_device_feat_sel = 0, vn_driver_feat_sel = 0,
     vn_driver_features = 0, vn_backend = False, vn_sent = []\<rparr>"

definition misa_of :: "CPUConfig \<Rightarrow> u32" where
  "misa_of cc = push_bit 30 1 OR push_bit 8 1
     OR (if cc_mode cc = SYSTEM_MODE then push_bit 18 1 OR push_bit 20 1 else 0)
     OR (if ext_m (cc_extensions cc) then push_bit 12 1 else 0)
     OR (if ext_c (cc_extensions cc) then push_bit 2 1 else 0)
     OR (if ext_a (cc_extensions cc) then push_bit 0 1 else 0)"

text \<open>
  The constructor of CPU. It leaves \<open>next_pc\<close>, the reservation, the run state and most of the
  step record as it finds them in memory; \<open>junk\<close> is what was there.
\<close>

definition CPU_new :: "EmulatorConfig \<Rightarrow> CPU \<Rightarrow> CPU" where
  "CPU_new cfg junk = junk\<lparr>
     cpu_pc := cc_starting_pc (ec_cpu_config cfg),
     cpu_set_next_pc := False,
     cpu_regs := (\<lambda>_. 0)(11 := pf_dtb_address (ec_profile cfg)),
     cpu_csrs := (\<lambda>_. 0)(MVENDORID := 0xF00DFACE, MSTATUS := push_bit 11 3,
                        MISA := misa_of (ec_cpu_config cfg)),
     cpu_privilege_level := MACHINE,
     cpu_tlb := TLB_reset,
     cpu_icache := (\<lambda>_. ICacheEntry0),
     cpu_current_epoch := 0,
     cpu_decoded_cache := (\<lambda>_. CacheEntry0),
     cpu_misalignment_mask := (if ext_c (cc_extensions (ec_cpu_config cfg)) then 0x1 else 0x3),
     cpu_trap_occurred := False\<rparr>"

text \<open>The constructor of Emulator, which runs those of its members.\<close>

definition Emulator_new :: "EmulatorConfig \<Rightarrow> CPU \<Rightarrow> Machine" where
  "Emulator_new cfg junk = \<lparr>em_config = cfg, em_clint = Clint0, em_plic = PLIC0, em_dram = (\<lambda>_. 0),
     em_uart = UART0, em_blk = VirtioBlk0, em_net = VirtioNet0, em_framebuffer = FrameBuffer0,
     em_input = \<lparr>in_queue = []\<rparr>, em_deferred_uart_input = [], em_cpu = CPU_new cfg junk\<rparr>"

text \<open>A concrete processor memory, configuration and machine, for the examples of the later theories.\<close>

definition zero_cpu :: CPU where
  "zero_cpu = \<lparr>cpu_pc = 0, cpu_set_next_pc = False, cpu_next_pc = 0, cpu_regs = (\<lambda>_. 0),
     cpu_csrs = (\<lambda>_. 0), cpu_reservation_valid = False, cpu_reservation_addr = 0,
     cpu_privilege_level = MACHINE, cpu_state = ACTIVE, cpu_tlb = TLB_reset,
     cpu_icache = (\<lambda>_. ICacheEntry0), cpu_current_epoch = 0,
     cpu_decoded_cache = (\<lambda>_. CacheEntry0), cpu_misalignment_mask = 3,
     cpu_sr = \<lparr>sr_pc_before = 0, sr_instruction = 0, sr_dInstr = DecodedInstr0, sr_pc_after = 0,
       sr_reg_write = \<lparr>rw_valid = False, rw_rd = 0, rw_old_val = 0, rw_new_val = 0\<rparr>,
       sr_mem_write = \<lparr>mw_valid = False, mw_addr = 0, mw_old_val = 0, mw_new_val = 0, mw_size = 0\<rparr>,
       sr_csr_write = \<lparr>cw_valid = False, cw_addr = 0, cw_old_val = 0, cw_new_val = 0\<rparr>\<rparr>,
     cpu_trap_occurred = False\<rparr>"

definition demo_config :: EmulatorConfig where
  "demo_config = \<lparr>ec_profile = \<lparr>pf_platform = XV6, pf_starting_pc = 0x80000000,
       pf_dram_start = 0x80000000, pf_dtb_address = 0, pf_kernel_address = 0,
       pf_extensions = \<lparr>ext_m = True, ext_c = False, ext_a = True\<rparr>, pf_elf_path = ''kernel'',
       pf_bin_path = [], pf_disk_path = ''disk'', pf_dtb_path = [], pf_opensbi_path = [],
       pf_tap_name = [], pf_verbose = False, pf_open_sdl = False\<rparr>,
     ec_cpu_config = \<lparr>cc_mode = SYSTEM_MODE, cc_extensions = \<lparr>ext_m = True, ext_c = False, ext_a = True\<rparr>,
       cc_starting_pc = 0x80000000\<rparr>\<rparr>"

definition demo :: Machine where
  "demo = Emulator_new demo_config zero_cpu"

lemmas demo_defs = demo_def Emulator_new_def CPU_new_def demo_config_def zero_cpu_def misa_of_def

text \<open>Evaluation of the accessors on a given state.\<close>

lemmas mach_simps =
  prog_simps upd_cpu_def get_cpu_def reg_def csr_def set_csr_def set_pc_def set_privilege_def
  jump_to_def set_state_def upd_sr_def writeReg_def

end
