(* ===== verification/BusRead.thy ===== *)
theory BusRead
  imports Machine
begin

section \<open>Reading through the bus, and its byte and half-word writes\<close>

text \<open>
  The register reads of src/devices/virtio_blk.cpp and src/devices/virtio_net/virtio_net.cpp,
  the reads of src/bus/bus.cpp and those of its writes that reach memory, the serial port or
  the frame buffer only.
\<close>

unbundle bit_operations_syntax

subsection \<open>The address map\<close>

text \<open>\<open>addr >= BASE && addr < BASE + SIZE\<close>; no region wraps around.\<close>

definition in_region :: "u32 \<Rightarrow> u32 \<Rightarrow> u32 \<Rightarrow> bool" where
  "in_region base len addr \<longleftrightarrow> addr \<ge> base \<and> addr < base + len"

definition CLINT_BASE :: u32 where "CLINT_BASE = 0x02000000"
definition CLINT_SIZE :: u32 where "CLINT_SIZE = 0x0000C000"
definition PLIC_BASE :: u32 where "PLIC_BASE = 0x0C000000"
definition PLIC_SIZE :: u32 where "PLIC_SIZE = 0x4000000"
definition UART_BASE :: u32 where "UART_BASE = 0x10000000"
definition UART_SIZE :: u32 where "UART_SIZE = 0x100"
definition BLK_BASE :: u32 where "BLK_BASE = 0x10001000"
definition BLK_SIZE :: u32 where "BLK_SIZE = 0x1000"
definition NET_BASE :: u32 where "NET_BASE = 0x10002000"
definition NET_SIZE :: u32 where "NET_SIZE = 0x1000"
definition FB_BASE :: u32 where "FB_BASE = 0x10003000"
definition INPUT_BASE :: u32 where "INPUT_BASE = 0x10200000"
definition INPUT_SIZE :: u32 where "INPUT_SIZE = 0x10"

definition in_clint :: "u32 \<Rightarrow> bool" where "in_clint = in_region CLINT_BASE CLINT_SIZE"
definition in_plic :: "u32 \<Rightarrow> bool" where "in_plic = in_region PLIC_BASE PLIC_SIZE"
definition in_uart :: "u32 \<Rightarrow> bool" where "in_uart = in_region UART_BASE UART_SIZE"
definition in_blk :: "u32 \<Rightarrow> bool" where "in_blk = in_region BLK_BASE BLK_SIZE"
definition in_net :: "u32 \<Rightarrow> bool" where "in_net = in_region NET_BASE NET_SIZE"
definition in_fb :: "u32 \<Rightarrow> bool" where "in_fb = in_region FB_BASE FB_SIZE"
definition in_input :: "u32 \<Rightarrow> bool" where "in_input = in_region INPUT_BASE INPUT_SIZE"

definition is_mmio :: "u32 \<Rightarrow> bool" where
  "is_mmio addr \<longleftrightarrow> in_uart addr \<or> in_clint addr \<or> in_plic addr \<or> in_blk addr \<or> in_net addr
     \<or> in_fb addr \<or> in_input addr"

lemmas region_defs =
  in_region_def in_clint_def in_plic_def in_uart_def in_blk_def in_net_def in_fb_def in_input_def
  in_dram_def DRAM_BASE_def DRAM_SIZE_def CLINT_BASE_def CLINT_SIZE_def PLIC_BASE_def PLIC_SIZE_def
  UART_BASE_def UART_SIZE_def BLK_BASE_def BLK_SIZE_def NET_BASE_def NET_SIZE_def FB_BASE_def
  FB_SIZE_def INPUT_BASE_def INPUT_SIZE_def

subsection \<open>Virtio register offsets\<close>

definition VIRTIO_MAGIC :: u32 where "VIRTIO_MAGIC = 0x000"
definition VIRTIO_VERSION :: u32 where "VIRTIO_VERSION = 0x004"
definition VIRTIO_DEVICE_ID :: u32 where "VIRTIO_DEVICE_ID = 0x008"
definition VIRTIO_VENDOR_ID :: u32 where "VIRTIO_VENDOR_ID = 0x00C"
definition VIRTIO_DEVICE_FEATS :: u32 where "VIRTIO_DEVICE_FEATS = 0x010"
definition VIRTIO_DEVICE_FEAT_SEL :: u32 where "VIRTIO_DEVICE_FEAT_SEL = 0x014"
definition VIRTIO_DRIVER_FEATS :: u32 where "VIRTIO_DRIVER_FEATS = 0x020"
definition VIRTIO_DRIVER_FEAT_SEL :: u32 where "VIRTIO_DRIVER_FEAT_SEL = 0x024"
definition VIRTIO_QUEUE_SEL :: u32 where "VIRTIO_QUEUE_SEL = 0x030"
definition VIRTIO_QUEUE_NUM_MAX :: u32 where "VIRTIO_QUEUE_NUM_MAX = 0x034"
definition VIRTIO_QUEUE_NUM :: u32 where "VIRTIO_QUEUE_NUM = 0x038"
definition VIRTIO_QUEUE_READY :: u32 where "VIRTIO_QUEUE_READY = 0x044"
definition VIRTIO_QUEUE_NOTIFY :: u32 where "VIRTIO_QUEUE_NOTIFY = 0x050"
definition VIRTIO_INT_STATUS :: u32 where "VIRTIO_INT_STATUS = 0x060"
definition VIRTIO_INT_ACK :: u32 where "VIRTIO_INT_ACK = 0x064"
definition VIRTIO_STATUS :: u32 where "VIRTIO_STATUS = 0x070"
definition VIRTIO_QUEUE_DESC_LO :: u32 where "VIRTIO_QUEUE_DESC_LO = 0x080"
definition VIRTIO_QUEUE_AVAIL_LO :: u32 where "VIRTIO_QUEUE_AVAIL_LO = 0x090"
definition VIRTIO_QUEUE_USED_LO :: u32 where "VIRTIO_QUEUE_USED_LO = 0x0A0"
definition VIRTIO_CONFIG_GEN :: u32 where "VIRTIO_CONFIG_GEN = 0x0FC"
definition VIRTIO_CONFIG :: u32 where "VIRTIO_CONFIG = 0x100"

lemmas virtio_offsets =
  VIRTIO_MAGIC_def VIRTIO_VERSION_def VIRTIO_DEVICE_ID_def VIRTIO_VENDOR_ID_def
  VIRTIO_DEVICE_FEATS_def VIRTIO_DEVICE_FEAT_SEL_def VIRTIO_DRIVER_FEATS_def
  VIRTIO_DRIVER_FEAT_SEL_def VIRTIO_QUEUE_SEL_def VIRTIO_QUEUE_NUM_MAX_def VIRTIO_QUEUE_NUM_def
  VIRTIO_QUEUE_READY_def VIRTIO_QUEUE_NOTIFY_def VIRTIO_INT_STATUS_def VIRTIO_INT_ACK_def
  VIRTIO_STATUS_def VIRTIO_QUEUE_DESC_LO_def VIRTIO_QUEUE_AVAIL_LO_def VIRTIO_QUEUE_USED_LO_def
  VIRTIO_CONFIG_GEN_def VIRTIO_CONFIG_def

definition SECTOR_SIZE :: u64 where "SECTOR_SIZE = 512"

text \<open>
  \<open>seekg(0, end)\<close> then \<open>tellg()\<close>: the size of the image, or -1 on a stream that has failed or was
  never opened. Seeking a closed stream also makes it fail.
\<close>

definition disk_size :: "Disk \<Rightarrow> u64 \<times> Disk" where
  "disk_size d = (if \<not> dk_fail d \<and> dk_open d then (of_nat (length (dk_data d)), d)
                  else (- 1, d\<lparr>dk_fail := True\<rparr>))"

definition blk_config :: "u32 \<Rightarrow> VirtioBlk \<Rightarrow> u32 \<times> VirtioBlk" where
  "blk_config offset b = (case disk_size (vb_disk b) of (n, d) \<Rightarrow>
     let sectors = n div SECTOR_SIZE in
     (if offset = VIRTIO_CONFIG then ucast sectors else ucast (drop_bit 32 sectors),
      b\<lparr>vb_disk := d\<rparr>))"

definition blk_read32 :: "u32 \<Rightarrow> VirtioBlk \<Rightarrow> u32 \<times> VirtioBlk" where
  "blk_read32 offset b =
    (if offset = VIRTIO_MAGIC then (0x74726976, b)
     else if offset = VIRTIO_VERSION then (2, b)
     else if offset = VIRTIO_DEVICE_ID then (2, b)
     else if offset = VIRTIO_VENDOR_ID then (0x554D4551, b)
     else if offset = VIRTIO_DEVICE_FEATS then
       ((if vb_device_feat_sel b = 0 then 0 else if vb_device_feat_sel b = 1 then 1 else 0), b)
     else if offset = VIRTIO_QUEUE_NUM_MAX then (8, b)
     else if offset = VIRTIO_QUEUE_READY then (vb_queue_ready b, b)
     else if offset = VIRTIO_INT_STATUS then (vb_interrupt_status b, b)
     else if offset = VIRTIO_STATUS then (vb_status b, b)
     else if offset = VIRTIO_CONFIG_GEN then (0, b)
     else if offset = VIRTIO_CONFIG \<or> offset = VIRTIO_CONFIG + 4 then blk_config offset b
     else (0, b))"

definition state_blk :: "(VirtioBlk \<Rightarrow> 'a \<times> VirtioBlk) \<Rightarrow> (Machine, 'a) prog" where
  "state_blk f = (\<lambda>m. case f (em_blk m) of (a, b) \<Rightarrow> Ok a (m\<lparr>em_blk := b\<rparr>))"

text \<open>The network device: its mutex, then its registers.\<close>

definition upd_net :: "(VirtioNet \<Rightarrow> VirtioNet) \<Rightarrow> (Machine, unit) prog" where
  "upd_net f = updates (\<lambda>m. m\<lparr>em_net := f (em_net m)\<rparr>)"

definition get_net :: "(VirtioNet \<Rightarrow> 'a) \<Rightarrow> (Machine, 'a) prog" where
  "get_net f = reads (\<lambda>m. f (em_net m))"

text \<open>
  \<open>std::lock_guard\<close> around a body: the lock is released when the body returns and when it
  throws; a thread that locks it again has undefined behaviour.
\<close>

definition net_unlock :: "Machine \<Rightarrow> Machine" where
  "net_unlock m = m\<lparr>em_net := (em_net m)\<lparr>vn_locked := False\<rparr>\<rparr>"

definition net_locked :: "(Machine, 'a) prog \<Rightarrow> (Machine, 'a) prog" where
  "net_locked p = (\<lambda>m. if vn_locked (em_net m) then Undefined
     else (case p (m\<lparr>em_net := (em_net m)\<lparr>vn_locked := True\<rparr>\<rparr>) of
         Ok a t \<Rightarrow> Ok a (net_unlock t)
       | Raise e t \<Rightarrow> Raise e (net_unlock t)
       | Undefined \<Rightarrow> Undefined
       | NoFuel \<Rightarrow> NoFuel))"

definition mac :: "u8 list" where
  "mac = [0x52, 0x54, 0x00, 0x12, 0x34, 0x56]"

definition net_read_reg :: "u32 \<Rightarrow> VirtioNet \<Rightarrow> u32" where
  "net_read_reg offset n =
    (let q = vn_queues n (unat (vn_queue_sel n)) in
     if offset = VIRTIO_MAGIC then 0x74726976
     else if offset = VIRTIO_VERSION then 2
     else if offset = VIRTIO_DEVICE_ID then 1
     else if offset = VIRTIO_VENDOR_ID then 0x554D4551
     else if offset = VIRTIO_DEVICE_FEATS then
       (if vn_device_feat_sel n = 0 then push_bit 5 1
        else if vn_device_feat_sel n = 1 then push_bit 0 1 else 0)
     else if offset = VIRTIO_QUEUE_NUM_MAX then 64
     else if offset = VIRTIO_QUEUE_READY then nq_ready q
     else if offset = VIRTIO_INT_STATUS then vn_interrupt_status n
     else if offset = VIRTIO_STATUS then vn_status n
     else if offset = VIRTIO_CONFIG_GEN then 0
     else if offset = VIRTIO_CONFIG + 0 then
       ucast (mac ! 0) OR push_bit 8 (ucast (mac ! 1)) OR push_bit 16 (ucast (mac ! 2))
         OR push_bit 24 (ucast (mac ! 3))
     else if offset = VIRTIO_CONFIG + 4 then
       ucast (mac ! 4) OR push_bit 8 (ucast (mac ! 5)) OR push_bit 16 1
     else 0)"

definition net_read32 :: "u32 \<Rightarrow> (Machine, u32) prog" where
  "net_read32 offset = net_locked (get_net (net_read_reg offset))"

definition net_read8 :: "u32 \<Rightarrow> (Machine, u8) prog" where
  "net_read8 offset =
    (if offset \<ge> 0x100 \<and> offset < 0x106 then ret (mac ! unat (offset - 0x100))
     else if offset = 0x106 then ret 1
     else if offset = 0x107 then ret 0
     else bnd (net_read32 (offset AND NOT 0x3)) (\<lambda>val.
       ret (ucast (drop_bit (unat ((offset AND 0x3) * 8)) val AND 0xFF))))"

subsection \<open>Main memory\<close>

definition dram_get :: "Machine \<Rightarrow> nat \<Rightarrow> u8" where
  "dram_get m i = em_dram m i"

definition dram_set :: "nat \<Rightarrow> u8 \<Rightarrow> Machine \<Rightarrow> Machine" where
  "dram_set i b m = m\<lparr>em_dram := (em_dram m)(i := b)\<rparr>"

interpretation dram: byte_store dram_get dram_set "\<lambda>m i. i < unat DRAM_SIZE"
  by unfold_locales (simp_all add: dram_get_def dram_set_def)

text \<open>
  \<open>memcpy\<close> of a word that starts in the array: past the end of the array it is undefined.
\<close>

definition dram_offset :: "u32 \<Rightarrow> nat" where
  "dram_offset addr = unat (addr - DRAM_BASE)"

definition dram_fits :: "u32 \<Rightarrow> nat \<Rightarrow> bool" where
  "dram_fits addr n \<longleftrightarrow> dram_offset addr + n \<le> unat DRAM_SIZE"

definition dram_word :: "nat \<Rightarrow> Machine \<Rightarrow> u32" where
  "dram_word i m = le32 (dram_get m i) (dram_get m (i + 1)) (dram_get m (i + 2)) (dram_get m (i + 3))"

definition set_dram_word :: "nat \<Rightarrow> u32 \<Rightarrow> Machine \<Rightarrow> Machine" where
  "set_dram_word i v m = dram_set (i + 3) (byte_of 3 v) (dram_set (i + 2) (byte_of 2 v)
     (dram_set (i + 1) (byte_of 1 v) (dram_set i (byte_of 0 v) m)))"

definition dram_half :: "nat \<Rightarrow> Machine \<Rightarrow> u16" where
  "dram_half i m = le16 (dram_get m i) (dram_get m (i + 1))"

definition set_dram_half :: "nat \<Rightarrow> u16 \<Rightarrow> Machine \<Rightarrow> Machine" where
  "set_dram_half i v m = dram_set (i + 1) (byte_of 1 v) (dram_set i (byte_of 0 v) m)"

definition checked :: "bool \<Rightarrow> (Machine, 'a) prog \<Rightarrow> (Machine, 'a) prog" where
  "checked ok p = (if ok then p else undef)"

text \<open>What the processor is told of a store to memory.\<close>

definition notify_store :: "u32 \<Rightarrow> (Machine, unit) prog" where
  "notify_store addr = andthen (invalidateReservation addr)
     (andthen (invalidate_page addr) clearDecodeCache)"

subsection \<open>Reads\<close>

definition bus_read8 :: "u32 \<Rightarrow> (Machine, u8) prog" where
  "bus_read8 addr =
    (if in_uart addr then state_uart (uart_read8 (addr - UART_BASE))
     else if in_fb addr then reads (\<lambda>m. fb_read8 (addr - FB_BASE) (em_framebuffer m))
     else if in_dram addr then reads (\<lambda>m. dram_get m (dram_offset addr))
     else if in_net addr then net_read8 (addr - NET_BASE)
     else throw BusAccessError)"

definition bus_read16 :: "u32 \<Rightarrow> (Machine, u16) prog" where
  "bus_read16 addr =
    (if in_dram addr then checked (dram_fits addr 2) (reads (dram_half (dram_offset addr)))
     else throw BusAccessError)"

definition bus_read32 :: "u32 \<Rightarrow> (Machine, u32) prog" where
  "bus_read32 addr =
    (if in_uart addr then bnd (state_uart (uart_read8 (addr - UART_BASE))) (\<lambda>b. ret (ucast b))
     else if in_clint addr then reads (\<lambda>m. clint_read32 (addr - CLINT_BASE) (em_clint m))
     else if in_dram addr then checked (dram_fits addr 4) (reads (dram_word (dram_offset addr)))
     else if in_plic addr then state_plic (plic_read32 (addr - PLIC_BASE))
     else if in_blk addr then state_blk (blk_read32 (addr - BLK_BASE))
     else if in_net addr then net_read32 (addr - NET_BASE)
     else if in_fb addr then
       bnd (reads (\<lambda>m. fb_read32 (addr - FB_BASE) (em_framebuffer m))) defined
     else if in_input addr then state_input (input_read32 (addr - INPUT_BASE))
     else throw BusAccessError)"

text \<open>\<open>phys_ptr\<close>: the offset its pointer stands for.\<close>

definition phys_ptr :: "u32 \<Rightarrow> (Machine, nat) prog" where
  "phys_ptr addr = (if in_dram addr then ret (dram_offset addr) else throw BusAccessError)"

text \<open>A run of byte reads at consecutive addresses, as the devices copy buffers.\<close>

fun bus_read_bytes :: "u32 \<Rightarrow> nat \<Rightarrow> (Machine, u8 list) prog" where
  "bus_read_bytes addr 0 = ret []"
| "bus_read_bytes addr (Suc n) =
     bnd (bus_read8 addr) (\<lambda>b. bnd (bus_read_bytes (addr + 1) n) (\<lambda>bs. ret (b # bs)))"

subsection \<open>Writes of bytes and half-words\<close>

definition bus_write8 :: "u32 \<Rightarrow> u8 \<Rightarrow> (Machine, unit) prog" where
  "bus_write8 addr val =
    (if in_uart addr then irq_uart (uart_write8 (addr - UART_BASE) val)
     else if in_fb addr then
       updates (\<lambda>m. m\<lparr>em_framebuffer := fb_write8 (addr - FB_BASE) val (em_framebuffer m)\<rparr>)
     else do_if (in_dram addr)
       (andthen (updates (dram_set (dram_offset addr) val)) (notify_store addr)))"

definition bus_write16 :: "u32 \<Rightarrow> u16 \<Rightarrow> (Machine, unit) prog" where
  "bus_write16 addr val =
     do_if (in_dram addr)
       (checked (dram_fits addr 2)
         (andthen (updates (set_dram_half (dram_offset addr) val)) (notify_store addr)))"

fun bus_write_bytes :: "u32 \<Rightarrow> u8 list \<Rightarrow> (Machine, unit) prog" where
  "bus_write_bytes addr [] = ret ()"
| "bus_write_bytes addr (b # bs) = andthen (bus_write8 addr b) (bus_write_bytes (addr + 1) bs)"

end
