(* ===== verification/VirtioBlk.thy ===== *)
theory VirtioBlk
  imports BusRead
begin

section \<open>The virtio block device\<close>

text \<open>
  src/devices/virtio_blk.cpp. The device writes used-ring entries back through
  \<open>Bus::write32_unlocked\<close>, which may reach the device again; that function is the argument
  \<open>w32\<close> here and is supplied by the bus.
\<close>

unbundle bit_operations_syntax

definition BLK_IRQ :: u32 where "BLK_IRQ = 1"
definition BLK_QUEUE_SIZE :: u16 where "BLK_QUEUE_SIZE = 8"
definition VIRTIO_BLK_T_IN :: u32 where "VIRTIO_BLK_T_IN = 0"
definition VIRTIO_BLK_T_OUT :: u32 where "VIRTIO_BLK_T_OUT = 1"

definition upd_blk :: "(VirtioBlk \<Rightarrow> VirtioBlk) \<Rightarrow> (Machine, unit) prog" where
  "upd_blk f = updates (\<lambda>m. m\<lparr>em_blk := f (em_blk m)\<rparr>)"

definition get_blk :: "(VirtioBlk \<Rightarrow> 'a) \<Rightarrow> (Machine, 'a) prog" where
  "get_blk f = reads (\<lambda>m. f (em_blk m))"

subsection \<open>The disk image\<close>

text \<open>\<open>init\<close>: \<open>img\<close> is the file, \<open>None\<close> when it does not open.\<close>

definition blk_init :: "u8 list option \<Rightarrow> (Machine, unit) prog" where
  "blk_init img = (case img of
       None \<Rightarrow> throw (RuntimeError ''Failed to open disk image'')
     | Some bytes \<Rightarrow> upd_blk (\<lambda>b. b\<lparr>vb_disk := \<lparr>dk_open = True, dk_data = bytes, dk_fail = False\<rparr>\<rparr>))"

text \<open>
  Seeking fails on a failed or closed stream and to an offset that is negative as a signed
  64-bit number; a failure is never cleared. Reading past the end delivers what there is and
  fails; writing past the end fills the gap with zeros.
\<close>

definition disk_seek :: "u64 \<Rightarrow> Disk \<Rightarrow> Disk" where
  "disk_seek pos d = d\<lparr>dk_fail := dk_fail d \<or> \<not> dk_open d \<or> bit pos 63\<rparr>"

definition disk_read :: "nat \<Rightarrow> nat \<Rightarrow> Disk \<Rightarrow> u8 list \<times> Disk" where
  "disk_read pos len d = (let bytes = take len (drop pos (dk_data d))
     in (bytes, d\<lparr>dk_fail := length bytes < len\<rparr>))"

definition disk_write :: "nat \<Rightarrow> u8 list \<Rightarrow> Disk \<Rightarrow> Disk" where
  "disk_write pos bytes d =
    (if bytes = [] then d
     else d\<lparr>dk_data := take pos (dk_data d @ replicate (pos - length (dk_data d)) 0)
              @ bytes @ drop (pos + length bytes) (dk_data d)\<rparr>)"

definition upd_disk :: "(Disk \<Rightarrow> Disk) \<Rightarrow> (Machine, unit) prog" where
  "upd_disk f = upd_blk (\<lambda>b. b\<lparr>vb_disk := f (vb_disk b)\<rparr>)"

definition disk_failed :: "(Machine, bool) prog" where
  "disk_failed = get_blk (\<lambda>b. dk_fail (vb_disk b))"

text \<open>
  \<open>disk_.read\<close> into the memory array: the bytes that arrive are stored from the offset of the
  address, with no bounds check and without telling the processor; a byte past the end of the
  array is undefined.
\<close>

definition dma_to_dram :: "u32 \<Rightarrow> u8 list \<Rightarrow> (Machine, unit) prog" where
  "dma_to_dram addr bytes =
     checked (bytes = [] \<or> dram_fits addr (length bytes))
       (updates (\<lambda>m. m\<lparr>em_dram := (\<lambda>i. if dram_offset addr \<le> i \<and> i < dram_offset addr + length bytes
            then bytes ! (i - dram_offset addr) else em_dram m i)\<rparr>))"

definition disk_read_into :: "nat \<Rightarrow> u32 \<Rightarrow> u32 \<Rightarrow> (Machine, unit) prog" where
  "disk_read_into pos addr len =
     bnd (state_blk (\<lambda>b. case disk_read pos (unat len) (vb_disk b) of
         (bytes, d) \<Rightarrow> (bytes, b\<lparr>vb_disk := d\<rparr>))) (dma_to_dram addr)"

subsection \<open>Requests\<close>

text \<open>A descriptor: address, length, flags and next index.\<close>

definition blk_read_desc :: "u16 \<Rightarrow> (Machine, u64 \<times> u32 \<times> u16 \<times> u16) prog" where
  "blk_read_desc idx =
    bnd (get_blk vb_desc_addr) (\<lambda>base.
    let d = base + ucast idx * 16 in
    bnd (bus_read32 d) (\<lambda>addr_lo.
    bnd (bus_read32 (d + 4)) (\<lambda>addr_hi.
    bnd (bus_read32 (d + 8)) (\<lambda>len.
    bnd (bus_read16 (d + 12)) (\<lambda>flags.
    bnd (bus_read16 (d + 14)) (\<lambda>nxt.
    ret (push_bit 32 (ucast addr_hi) OR ucast addr_lo, len, flags, nxt)))))))"

text \<open>The disk operation: true when it succeeded.\<close>

definition blk_transfer_in :: "u64 \<Rightarrow> u32 \<Rightarrow> u32 \<Rightarrow> (Machine, bool) prog" where
  "blk_transfer_in sector data_addr len =
    (let pos = sector * SECTOR_SIZE in
     andthen (upd_disk (disk_seek pos))
     (bnd disk_failed (\<lambda>failed.
      if failed then ret False
      else andthen (disk_read_into (unat pos) data_addr len)
        (bnd disk_failed (\<lambda>failed. ret (\<not> failed))))))"

definition blk_transfer_out :: "u64 \<Rightarrow> u32 \<Rightarrow> u32 \<Rightarrow> (Machine, bool) prog" where
  "blk_transfer_out sector data_addr len =
    bnd (bus_read_bytes data_addr (unat len)) (\<lambda>buf.
    let pos = sector * SECTOR_SIZE in
    andthen (upd_disk (disk_seek pos))
    (bnd disk_failed (\<lambda>failed.
     if failed then ret False
     else andthen (upd_disk (disk_write (unat pos) buf)) (ret True))))"

definition handle_request :: "u16 \<Rightarrow> (Machine, unit) prog" where
  "handle_request head =
    bnd (blk_read_desc head) (\<lambda>(addr, len, flags, nxt).
    bnd (bus_read32 (ucast addr)) (\<lambda>type.
    bnd (bus_read32 (ucast addr + 8)) (\<lambda>sector_lo.
    bnd (bus_read32 (ucast addr + 12)) (\<lambda>sector_hi.
    let sector = ucast sector_lo OR push_bit 32 (ucast sector_hi) in
    bnd (blk_read_desc nxt) (\<lambda>(addr, len, flags, nxt).
    let data_addr = ucast addr in
    bnd (blk_read_desc nxt) (\<lambda>(status_addr_64, status_len, status_flags, status_next).
    let status_addr = ucast status_addr_64 in
    bnd (if type = VIRTIO_BLK_T_IN then blk_transfer_in sector data_addr len
         else if type = VIRTIO_BLK_T_OUT then blk_transfer_out sector data_addr len
         else ret True) (\<lambda>ok.
    bus_write8 status_addr (if ok then 0 else 1))))))))"

text \<open>
  The loop of \<open>process_queue\<close>. Its counter is 16 bits wide and grows by one in each round, so
  65536 rounds are enough unless the ring is laid over the device's own registers.
\<close>

definition blk_complete :: "(u32 \<Rightarrow> u32 \<Rightarrow> (Machine, unit) prog) \<Rightarrow> u16 \<Rightarrow> (Machine, unit) prog" where
  "blk_complete w32 head =
    bnd (get_blk vb_used_addr) (\<lambda>used_addr.
    bnd (bus_read16 (used_addr + 2)) (\<lambda>used_idx.
    let used_ring_entry = used_addr + 4 + (ucast (used_idx mod BLK_QUEUE_SIZE)) * 8 in
    andthen (w32 used_ring_entry (ucast head))
    (andthen (w32 (used_ring_entry + 4) 0)
    (bnd (get_blk vb_used_addr) (\<lambda>used_addr.
     bus_write16 (used_addr + 2) (used_idx + 1))))))"

definition blk_round :: "(u32 \<Rightarrow> u32 \<Rightarrow> (Machine, unit) prog) \<Rightarrow> (Machine, unit) prog" where
  "blk_round w32 =
    bnd (get_blk vb_avail_addr) (\<lambda>avail_addr.
    bnd (get_blk vb_last_avail_idx) (\<lambda>last.
    bnd (bus_read16 (avail_addr + 4 + ucast (last mod BLK_QUEUE_SIZE) * 2)) (\<lambda>head.
    andthen (handle_request head)
    (andthen (blk_complete w32 head)
      (upd_blk (\<lambda>b. b\<lparr>vb_last_avail_idx := vb_last_avail_idx b + 1\<rparr>))))))"

fun blk_loop :: "nat \<Rightarrow> (u32 \<Rightarrow> u32 \<Rightarrow> (Machine, unit) prog) \<Rightarrow> u16 \<Rightarrow> (Machine, unit) prog" where
  "blk_loop 0 w32 avail_idx = (\<lambda>m. NoFuel)"
| "blk_loop (Suc n) w32 avail_idx =
    bnd (get_blk vb_last_avail_idx) (\<lambda>last.
    if last = avail_idx then ret ()
    else andthen (blk_round w32) (blk_loop n w32 avail_idx))"

definition RING_FUEL :: nat where "RING_FUEL = 65536"

definition blk_process_queue :: "(u32 \<Rightarrow> u32 \<Rightarrow> (Machine, unit) prog) \<Rightarrow> (Machine, unit) prog" where
  "blk_process_queue w32 =
    bnd (get_blk (\<lambda>b. vb_queue_ready b = 0 \<or> vb_desc_addr b = 0 \<or> vb_avail_addr b = 0
           \<or> vb_used_addr b = 0)) (\<lambda>idle.
    if idle then ret ()
    else bnd (get_blk vb_avail_addr) (\<lambda>avail_addr.
      bnd (bus_read16 (avail_addr + 2)) (\<lambda>avail_idx.
      andthen (blk_loop RING_FUEL w32 avail_idx)
      (andthen (upd_blk (\<lambda>b. b\<lparr>vb_interrupt_status := vb_interrupt_status b OR 0x1\<rparr>))
        (raise_irq BLK_IRQ)))))"

definition blk_write32 :: "(u32 \<Rightarrow> u32 \<Rightarrow> (Machine, unit) prog) \<Rightarrow> u32 \<Rightarrow> u32 \<Rightarrow> (Machine, unit) prog" where
  "blk_write32 w32 offset val =
    (if offset = VIRTIO_DEVICE_FEAT_SEL then upd_blk (\<lambda>b. b\<lparr>vb_device_feat_sel := val\<rparr>)
     else if offset = VIRTIO_DRIVER_FEATS then upd_blk (\<lambda>b. b\<lparr>vb_driver_features := val\<rparr>)
     else if offset = VIRTIO_DRIVER_FEAT_SEL then upd_blk (\<lambda>b. b\<lparr>vb_driver_feat_sel := val\<rparr>)
     else if offset = VIRTIO_QUEUE_SEL then upd_blk (\<lambda>b. b\<lparr>vb_queue_sel := val\<rparr>)
     else if offset = VIRTIO_QUEUE_NUM then upd_blk (\<lambda>b. b\<lparr>vb_queue_num := val\<rparr>)
     else if offset = VIRTIO_QUEUE_READY then upd_blk (\<lambda>b. b\<lparr>vb_queue_ready := val\<rparr>)
     else if offset = VIRTIO_QUEUE_DESC_LO then upd_blk (\<lambda>b. b\<lparr>vb_desc_addr := val\<rparr>)
     else if offset = VIRTIO_QUEUE_AVAIL_LO then upd_blk (\<lambda>b. b\<lparr>vb_avail_addr := val\<rparr>)
     else if offset = VIRTIO_QUEUE_USED_LO then upd_blk (\<lambda>b. b\<lparr>vb_used_addr := val\<rparr>)
     else if offset = VIRTIO_QUEUE_NOTIFY then blk_process_queue w32
     else if offset = VIRTIO_INT_ACK then
       upd_blk (\<lambda>b. b\<lparr>vb_interrupt_status := vb_interrupt_status b AND NOT val\<rparr>)
     else if offset = VIRTIO_STATUS then
       upd_blk (\<lambda>b. if val = 0
         then b\<lparr>vb_status := val, vb_queue_ready := 0, vb_interrupt_status := 0,
                vb_last_avail_idx := 0, vb_desc_addr := 0, vb_avail_addr := 0, vb_used_addr := 0\<rparr>
         else b\<lparr>vb_status := val\<rparr>)
     else ret ())"

end
