(* ===== verification/VirtioNet.thy ===== *)
theory VirtioNet
  imports VirtioBlk
begin

section \<open>The virtio network device\<close>

text \<open>
  src/devices/virtio_net/virtio_net.cpp, and the queueing half of virtio_net_slirp.cpp. The
  backend library is outside the model: frames for it are queued in \<open>vn_sent\<close>, and frames from
  it arrive through \<open>rx_inject\<close> as events. The writes through the bus are the argument \<open>w32\<close>.
\<close>

unbundle bit_operations_syntax

definition NET_IRQ :: u32 where "NET_IRQ = 2"
definition NET_QUEUE_SIZE :: u16 where "NET_QUEUE_SIZE = 64"
definition RXQ :: nat where "RXQ = 0"
definition TXQ :: nat where "TXQ = 1"
definition NET_HDR_SIZE :: u32 where "NET_HDR_SIZE = 12"
definition VIRTQ_DESC_F_NEXT :: u16 where "VIRTQ_DESC_F_NEXT = 1"

definition upd_queue :: "nat \<Rightarrow> (NetQueue \<Rightarrow> NetQueue) \<Rightarrow> (Machine, unit) prog" where
  "upd_queue i f = upd_net (\<lambda>n. n\<lparr>vn_queues := (vn_queues n)(i := f (vn_queues n i))\<rparr>)"

definition get_queue :: "nat \<Rightarrow> (NetQueue \<Rightarrow> 'a) \<Rightarrow> (Machine, 'a) prog" where
  "get_queue i f = get_net (\<lambda>n. f (vn_queues n i))"

definition net_read_desc :: "u16 \<Rightarrow> nat \<Rightarrow> (Machine, u64 \<times> u32 \<times> u16 \<times> u16) prog" where
  "net_read_desc idx queue =
    bnd (get_queue queue nq_desc_addr) (\<lambda>base.
    let d = base + ucast idx * 16 in
    bnd (bus_read32 d) (\<lambda>addr_lo.
    bnd (bus_read32 (d + 4)) (\<lambda>addr_hi.
    bnd (bus_read32 (d + 8)) (\<lambda>len.
    bnd (bus_read16 (d + 12)) (\<lambda>flags.
    bnd (bus_read16 (d + 14)) (\<lambda>nxt.
    ret (ucast addr_lo OR push_bit 32 (ucast addr_hi), len, flags, nxt)))))))"

definition push_used :: "(u32 \<Rightarrow> u32 \<Rightarrow> (Machine, unit) prog) \<Rightarrow> nat \<Rightarrow> u16 \<Rightarrow> u32 \<Rightarrow> (Machine, unit) prog" where
  "push_used w32 queue head len =
    bnd (get_queue queue nq_used_addr) (\<lambda>used_addr.
    bnd (bus_read16 (used_addr + 2)) (\<lambda>uidx.
    let entry = used_addr + 4 + ucast (uidx mod NET_QUEUE_SIZE) * 8 in
    andthen (w32 entry (ucast head))
    (andthen (w32 (entry + 4) len)
    (bnd (get_queue queue nq_used_addr) (\<lambda>used_addr.
     bus_write16 (used_addr + 2) (uidx + 1))))))"

definition queue_idle :: "NetQueue \<Rightarrow> bool" where
  "queue_idle q \<longleftrightarrow> nq_ready q = 0 \<or> nq_desc_addr q = 0 \<or> nq_avail_addr q = 0 \<or> nq_used_addr q = 0"

text \<open>\<open>platform_send\<close> queues the frame for the backend.\<close>

definition platform_send :: "u8 list \<Rightarrow> (Machine, unit) prog" where
  "platform_send frame = upd_net (\<lambda>n. if vn_backend n then n\<lparr>vn_sent := vn_sent n @ [frame]\<rparr> else n)"

text \<open>
  Walking a descriptor chain. An acyclic chain visits each of the 65536 indices at most once;
  a chain with a cycle never ends, in the code as in the model.
\<close>

definition CHAIN_FUEL :: nat where "CHAIN_FUEL = 65537"

fun tx_chain :: "nat \<Rightarrow> u16 \<Rightarrow> bool \<Rightarrow> u8 list \<Rightarrow> (Machine, u8 list) prog" where
  "tx_chain 0 cur first pkt = (\<lambda>m. NoFuel)"
| "tx_chain (Suc n) cur first pkt =
    bnd (net_read_desc cur TXQ) (\<lambda>(addr, len, flags, nxt).
    let skip = (if first then NET_HDR_SIZE else 0);
        copy = (if len > skip then len - skip else 0) in
    bnd (bus_read_bytes (ucast addr + skip) (unat copy)) (\<lambda>bytes.
    if flags AND VIRTQ_DESC_F_NEXT = 0 then ret (pkt @ bytes)
    else tx_chain n nxt False (pkt @ bytes)))"

fun tx_loop :: "nat \<Rightarrow> (u32 \<Rightarrow> u32 \<Rightarrow> (Machine, unit) prog) \<Rightarrow> u16 \<Rightarrow> (Machine, unit) prog" where
  "tx_loop 0 w32 avail_idx = (\<lambda>m. NoFuel)"
| "tx_loop (Suc n) w32 avail_idx =
    bnd (get_queue TXQ nq_last_avail_idx) (\<lambda>last.
    if last = avail_idx then ret ()
    else
      bnd (get_queue TXQ nq_avail_addr) (\<lambda>avail_addr.
      bnd (bus_read16 (avail_addr + 4 + ucast (last mod NET_QUEUE_SIZE) * 2)) (\<lambda>head.
      bnd (tx_chain CHAIN_FUEL head True []) (\<lambda>pkt.
      andthen (push_used w32 TXQ head 0)
      (andthen (upd_queue TXQ (\<lambda>q. q\<lparr>nq_last_avail_idx := nq_last_avail_idx q + 1\<rparr>))
      (andthen (do_if (pkt \<noteq> []) (platform_send pkt))
        (tx_loop n w32 avail_idx)))))))"

text \<open>The end of a pass over a queue: the interrupt.\<close>

definition net_raise :: "(Machine, unit) prog" where
  "net_raise = andthen (upd_net (\<lambda>n. n\<lparr>vn_interrupt_status := vn_interrupt_status n OR 0x1\<rparr>))
     (raise_irq NET_IRQ)"

definition process_tx_queue :: "(u32 \<Rightarrow> u32 \<Rightarrow> (Machine, unit) prog) \<Rightarrow> (Machine, unit) prog" where
  "process_tx_queue w32 =
    bnd (get_queue TXQ queue_idle) (\<lambda>idle.
    bnd (get_net vn_backend) (\<lambda>backend.
    if idle \<or> \<not> backend then ret ()
    else bnd (get_queue TXQ nq_avail_addr) (\<lambda>avail_addr.
      bnd (bus_read16 (avail_addr + 2)) (\<lambda>avail_idx.
      andthen (tx_loop RING_FUEL w32 avail_idx) net_raise))))"

text \<open>
  Receiving: a header of twelve bytes, with 1 in its last half-word, goes in front of the
  frame. A first buffer shorter than the header makes \<open>dlen - NET_HDR_SIZE\<close> wrap around.
\<close>

definition rx_header :: "u8 list" where
  "rx_header = [0, 0, 0, 0, 0, 0, 0, 0, 0, 0, 1, 0]"

definition slice :: "u8 list \<Rightarrow> nat \<Rightarrow> nat \<Rightarrow> u8 list" where
  "slice xs from n = take n (drop from xs)"

fun rx_chain :: "nat \<Rightarrow> u16 \<Rightarrow> bool \<Rightarrow> u32 \<Rightarrow> u8 list \<Rightarrow> (Machine, u32) prog" where
  "rx_chain 0 cur first written frame = (\<lambda>m. NoFuel)"
| "rx_chain (Suc n) cur first written frame =
    bnd (net_read_desc cur RXQ) (\<lambda>(addr, dlen, flags, nxt).
    bnd (if first then
           (let len = of_nat (length frame); space = dlen - NET_HDR_SIZE;
                copy = (if len < space then len else space) in
            andthen (bus_write_bytes (ucast addr) (take (unat dlen) rx_header))
            (andthen (bus_write_bytes (ucast addr + NET_HDR_SIZE) (slice frame 0 (unat copy)))
              (ret (written + NET_HDR_SIZE + copy))))
         else
           (let len = of_nat (length frame); offset = written - NET_HDR_SIZE;
                remaining = (if len > offset then len - offset else 0);
                copy = (if remaining < dlen then remaining else dlen) in
            andthen (bus_write_bytes (ucast addr) (slice frame (unat offset) (unat copy)))
              (ret (written + copy)))) (\<lambda>written.
    if flags AND VIRTQ_DESC_F_NEXT = 0 then ret written
    else rx_chain n nxt False written frame))"

definition rx_inject_locked :: "(u32 \<Rightarrow> u32 \<Rightarrow> (Machine, unit) prog) \<Rightarrow> u8 list \<Rightarrow> (Machine, unit) prog" where
  "rx_inject_locked w32 frame =
    bnd (get_queue RXQ queue_idle) (\<lambda>idle.
    if idle then ret ()
    else bnd (get_queue RXQ nq_avail_addr) (\<lambda>avail_addr.
      bnd (bus_read16 (avail_addr + 2)) (\<lambda>avail_idx.
      bnd (get_queue RXQ nq_last_avail_idx) (\<lambda>last.
      if last = avail_idx then ret ()
      else
        bnd (bus_read16 (avail_addr + 4 + ucast (last mod NET_QUEUE_SIZE) * 2)) (\<lambda>head.
        bnd (rx_chain CHAIN_FUEL head True 0 frame) (\<lambda>written.
        andthen (push_used w32 RXQ head written)
        (andthen (upd_queue RXQ (\<lambda>q. q\<lparr>nq_last_avail_idx := nq_last_avail_idx q + 1\<rparr>))
          net_raise)))))))"

definition rx_inject_with :: "(u32 \<Rightarrow> u32 \<Rightarrow> (Machine, unit) prog) \<Rightarrow> u8 list \<Rightarrow> (Machine, unit) prog" where
  "rx_inject_with w32 frame = net_locked (rx_inject_locked w32 frame)"

text \<open>Register writes; the selected queue is fetched before the switch.\<close>

definition upd_selected :: "(NetQueue \<Rightarrow> NetQueue) \<Rightarrow> (Machine, unit) prog" where
  "upd_selected f = bnd (get_net (\<lambda>n. unat (vn_queue_sel n))) (\<lambda>i. upd_queue i f)"

definition net_reset :: "VirtioNet \<Rightarrow> VirtioNet" where
  "net_reset n = n\<lparr>vn_queues := (\<lambda>i. if i < 2 then NetQueue0 else vn_queues n i), vn_interrupt_status := 0\<rparr>"

definition net_write_locked :: "(u32 \<Rightarrow> u32 \<Rightarrow> (Machine, unit) prog) \<Rightarrow> u32 \<Rightarrow> u32 \<Rightarrow> (Machine, unit) prog" where
  "net_write_locked w32 offset val =
    (if offset = VIRTIO_DEVICE_FEAT_SEL then upd_net (\<lambda>n. n\<lparr>vn_device_feat_sel := val\<rparr>)
     else if offset = VIRTIO_DRIVER_FEATS then upd_net (\<lambda>n. n\<lparr>vn_driver_features := val\<rparr>)
     else if offset = VIRTIO_DRIVER_FEAT_SEL then upd_net (\<lambda>n. n\<lparr>vn_driver_feat_sel := val\<rparr>)
     else if offset = VIRTIO_QUEUE_SEL then do_if (val < 2) (upd_net (\<lambda>n. n\<lparr>vn_queue_sel := val\<rparr>))
     else if offset = VIRTIO_QUEUE_NUM then upd_selected (\<lambda>q. q\<lparr>nq_num := val\<rparr>)
     else if offset = VIRTIO_QUEUE_READY then upd_selected (\<lambda>q. q\<lparr>nq_ready := val\<rparr>)
     else if offset = VIRTIO_QUEUE_DESC_LO then upd_selected (\<lambda>q. q\<lparr>nq_desc_addr := val\<rparr>)
     else if offset = VIRTIO_QUEUE_AVAIL_LO then upd_selected (\<lambda>q. q\<lparr>nq_avail_addr := val\<rparr>)
     else if offset = VIRTIO_QUEUE_USED_LO then upd_selected (\<lambda>q. q\<lparr>nq_used_addr := val\<rparr>)
     else if offset = VIRTIO_QUEUE_NOTIFY then do_if (val = of_nat TXQ) (process_tx_queue w32)
     else if offset = VIRTIO_INT_ACK then
       upd_net (\<lambda>n. n\<lparr>vn_interrupt_status := vn_interrupt_status n AND NOT val\<rparr>)
     else if offset = VIRTIO_STATUS then
       upd_net (\<lambda>n. let n = n\<lparr>vn_status := val\<rparr> in if val = 0 then net_reset n else n)
     else ret ())"

definition net_write32 :: "(u32 \<Rightarrow> u32 \<Rightarrow> (Machine, unit) prog) \<Rightarrow> u32 \<Rightarrow> u32 \<Rightarrow> (Machine, unit) prog" where
  "net_write32 w32 offset val = net_locked (net_write_locked w32 offset val)"

end
