(* ===== verification/Bus.thy ===== *)
theory Bus
  imports VirtioNet
begin

section \<open>The bus\<close>

text \<open>
  The word writes of src/bus/bus.cpp and what is built on them. A word written to the notify
  register of a virtio device makes the device write words of its own; \<open>d\<close> bounds how deep such
  writes nest. A ring in main memory needs depth 2; deeper nesting arises only when a
  driver lays a ring over device registers.
\<close>

unbundle bit_operations_syntax

definition TOHOST :: u32 where "TOHOST = 0x80001000"

fun bus_write32_at :: "nat \<Rightarrow> u32 \<Rightarrow> u32 \<Rightarrow> (Machine, unit) prog" where
  "bus_write32_at 0 addr val = (\<lambda>m. NoFuel)"
| "bus_write32_at (Suc d) addr val =
    (if addr = TOHOST \<and> val \<noteq> 0 then
       (if val = 1 then throw (ProgramExit 0) else throw (ProgramExit 1))
     else if in_clint addr then
       updates (\<lambda>m. m\<lparr>em_clint := clint_write32 (addr - CLINT_BASE) val (em_clint m)\<rparr>)
     else if in_plic addr then with_plic (plic_write32 (addr - PLIC_BASE) val)
     else if in_dram addr then
       checked (dram_fits addr 4)
         (andthen (updates (set_dram_word (dram_offset addr) val)) (notify_store addr))
     else if in_blk addr then blk_write32 (bus_write32_at d) (addr - BLK_BASE) val
     else if in_net addr then net_write32 (bus_write32_at d) (addr - NET_BASE) val
     else if in_fb addr then
       bnd (reads (\<lambda>m. fb_write32 (addr - FB_BASE) val (em_framebuffer m))) (\<lambda>r.
       bnd (defined r) (\<lambda>f. updates (\<lambda>m. m\<lparr>em_framebuffer := f\<rparr>)))
     else if in_input addr then
       updates (\<lambda>m. m\<lparr>em_input := input_write32 (addr - INPUT_BASE) val (em_input m)\<rparr>)
     else ret ())"

definition BUS_DEPTH :: nat where "BUS_DEPTH = 8"

definition bus_write32 :: "u32 \<Rightarrow> u32 \<Rightarrow> (Machine, unit) prog" where
  "bus_write32 = bus_write32_at BUS_DEPTH"

definition atomic_rmw_w :: "u32 \<Rightarrow> (u32 \<Rightarrow> u32) \<Rightarrow> (Machine, u32) prog" where
  "atomic_rmw_w addr operation =
    bnd (bus_read32 addr) (\<lambda>old_val.
    andthen (bus_write32 addr (operation old_val)) (ret old_val))"

definition rx_inject :: "u8 list \<Rightarrow> (Machine, unit) prog" where
  "rx_inject frame = rx_inject_with bus_write32 frame"

text \<open>
  \<open>load_binary\<close> checks the start address only; a copy past the end of the array is undefined.
\<close>

definition bus_load_binary :: "u8 list \<Rightarrow> u32 \<Rightarrow> (Machine, unit) prog" where
  "bus_load_binary bytes addr =
    (if addr \<ge> DRAM_BASE \<and> addr \<le> DRAM_BASE + DRAM_SIZE then dma_to_dram addr bytes
     else throw (RuntimeError ''Cannot load binary outside of DRAM!''))"

fun inject_uart_input :: "u8 list \<Rightarrow> (Machine, unit) prog" where
  "inject_uart_input [] = ret ()"
| "inject_uart_input (ch # rest) = andthen (irq_uart (rx_push ch)) (inject_uart_input rest)"

definition defer_uart_input_until_wfi :: "u8 list \<Rightarrow> (Machine, unit) prog" where
  "defer_uart_input_until_wfi input =
     updates (\<lambda>m. m\<lparr>em_deferred_uart_input := em_deferred_uart_input m @ input\<rparr>)"

definition release_deferred_uart_input :: "(Machine, unit) prog" where
  "release_deferred_uart_input =
    bnd (reads em_deferred_uart_input) (\<lambda>input.
    if input = [] then ret ()
    else andthen (updates (\<lambda>m. m\<lparr>em_deferred_uart_input := []\<rparr>)) (inject_uart_input input))"

end
