(* ===== verification/ICache.thy ===== *)
theory ICache
  imports Bus
begin

section \<open>The instruction cache\<close>

text \<open>
  \<open>ICache::fetch_page\<close> of src/cache/icache.cpp; its invalidations are in the theory Machine.
  A page is copied from memory when it is not cached; the result is the page's bytes.
\<close>

unbundle bit_operations_syntax

definition dram_page :: "u32 \<Rightarrow> Machine \<Rightarrow> nat \<Rightarrow> u8" where
  "dram_page phys_page m = (\<lambda>i. dram_get m (dram_offset (push_bit 12 phys_page) + i))"

definition fetch_page :: "u32 \<Rightarrow> (Machine, nat \<Rightarrow> u8) prog" where
  "fetch_page phys_addr =
    (let phys_page = drop_bit 12 phys_addr; idx = index_from_page phys_page in
     bnd (get_cpu (\<lambda>c. cpu_icache c idx)) (\<lambda>e.
     case (if ic_valid e \<and> ic_phys_page e = phys_page then ic_data e else None) of
       Some bytes \<Rightarrow> ret bytes
     | None \<Rightarrow>
         andthen (phys_ptr (push_bit 12 phys_page))
         (bnd (reads (dram_page phys_page)) (\<lambda>bytes.
         andthen (upd_cpu (\<lambda>c. c\<lparr>cpu_icache := (cpu_icache c)(idx :=
             \<lparr>ic_phys_page = phys_page, ic_data = Some bytes, ic_valid = True\<rparr>)\<rparr>))
           (ret bytes)))))"

end
