(* ===== verification/BusFrame.thy ===== *)
theory BusFrame
  imports ICache
begin

section \<open>What bus accesses leave alone\<close>

text \<open>
  An access to the bus changes memory, devices and the caches of the processor, and nothing
  else. The locale \<open>device_frame\<close> states what a property of the machine must not depend on to
  survive every bus access; it is interpreted for the rest of the state (\<open>core\<close>) and for
  the mutex of the network device.
\<close>

unbundle bit_operations_syntax

text \<open>The processor without its reservation and the two instruction caches.\<close>

definition cpu_core :: "CPU \<Rightarrow> CPU" where
  "cpu_core c = c\<lparr>cpu_reservation_valid := False, cpu_icache := (\<lambda>_. ICacheEntry0),
     cpu_current_epoch := 0, cpu_decoded_cache := (\<lambda>_. CacheEntry0)\<rparr>"

lemma keeps_NoFuel [keeps_intros]: "keeps P (\<lambda>s. NoFuel)"
  by (simp add: keeps_def)

text \<open>The first argument of \<open>P\<close> says whether the mutex of the network device is taken.\<close>

locale device_frame =
  fixes P :: "bool \<Rightarrow> Machine \<Rightarrow> bool"
  assumes clint: "P lk m \<Longrightarrow> P lk (m\<lparr>em_clint := cl\<rparr>)"
    and plic: "P lk m \<Longrightarrow> P lk (m\<lparr>em_plic := pl\<rparr>)"
    and dram: "P lk m \<Longrightarrow> P lk (m\<lparr>em_dram := d\<rparr>)"
    and uart: "P lk m \<Longrightarrow> P lk (m\<lparr>em_uart := u\<rparr>)"
    and blk: "P lk m \<Longrightarrow> P lk (m\<lparr>em_blk := b\<rparr>)"
    and framebuffer: "P lk m \<Longrightarrow> P lk (m\<lparr>em_framebuffer := f\<rparr>)"
    and input: "P lk m \<Longrightarrow> P lk (m\<lparr>em_input := i\<rparr>)"
    and deferred: "P lk m \<Longrightarrow> P lk (m\<lparr>em_deferred_uart_input := bs\<rparr>)"
    and net: "P lk m \<Longrightarrow> vn_locked n = vn_locked (em_net m) \<Longrightarrow> P lk (m\<lparr>em_net := n\<rparr>)"
    and acquire: "P False m \<Longrightarrow> P True (m\<lparr>em_net := (em_net m)\<lparr>vn_locked := True\<rparr>\<rparr>)"
    and release: "P True m \<Longrightarrow> P False (net_unlock m)"
    and free: "P lk m \<Longrightarrow> \<not> vn_locked (em_net m) \<Longrightarrow> P False = P lk"
    and caches: "P lk m \<Longrightarrow> cpu_core c = cpu_core (em_cpu m) \<Longrightarrow> P lk (m\<lparr>em_cpu := c\<rparr>)"
begin

lemma k_net_locked:
  assumes "keeps (P True) p"
  shows "keeps (P lk) (net_locked p)"
proof -
  let ?taken = "\<lambda>m. m\<lparr>em_net := (em_net m)\<lparr>vn_locked := True\<rparr>\<rparr>"
  have in_p: "P lk (net_unlock t)"
    if "P lk m" "\<not> vn_locked (em_net m)" "P True (?taken m) \<Longrightarrow> P True t" for m t
    using that acquire [of m] release [of t] free [of lk m] by auto
  show ?thesis
    by (rule keepsI)
      (auto simp: net_locked_def split: if_splits result.splits
        intro!: in_p dest: keeps_Ok [OF assms] keeps_Raise [OF assms])
qed

lemma cpu_caches: "(\<And>c. cpu_core (f c) = cpu_core c) \<Longrightarrow> keeps (P lk) (upd_cpu f)"
  unfolding upd_cpu_def by (intro keeps_updates) (blast intro: caches)

lemma k_get_cpu: "keeps (P lk) (get_cpu f)"
  unfolding get_cpu_def by (rule keeps_reads)

lemma k_invalidateReservation: "keeps (P lk) (invalidateReservation addr)"
  unfolding invalidateReservation_def by (rule cpu_caches) (simp add: cpu_core_def)

lemma k_invalidate_page: "keeps (P lk) (invalidate_page addr)"
  unfolding invalidate_page_def by (rule cpu_caches) (simp add: cpu_core_def Let_def)

lemma k_clearDecodeCache: "keeps (P lk) clearDecodeCache"
  unfolding clearDecodeCache_def clearDecodeCache_cpu_def
  by (rule cpu_caches) (simp add: cpu_core_def Let_def)

lemma k_icache_flush: "keeps (P lk) icache_flush"
  unfolding icache_flush_def by (rule cpu_caches) (simp add: cpu_core_def)

lemma k_notify_store: "keeps (P lk) (notify_store addr)"
  unfolding notify_store_def
  by (intro keeps_intros k_invalidateReservation k_invalidate_page k_clearDecodeCache)

lemma k_with_plic: "keeps (P lk) (with_plic p)"
  by (rule keepsI) (auto simp: with_plic_def intro: plic split: result.splits)

lemma k_state: "keeps (P lk) (state_plic f1)" "keeps (P lk) (state_uart f2)" "keeps (P lk) (state_input f3)"
    "keeps (P lk) (state_blk f4)"
  by (rule keepsI;
      auto simp: state_plic_def state_uart_def state_input_def state_blk_def
        intro: plic uart input blk split: prod.splits)+

lemma k_raise_irq: "keeps (P lk) (raise_irq irq)"
  unfolding raise_irq_def by (intro keeps_updates plic)

lemma k_irq_uart: "keeps (P lk) (irq_uart f)"
  unfolding irq_uart_def by (intro keeps_intros k_state k_raise_irq)

lemma k_net: "(\<And>n. vn_locked (f n) = vn_locked n) \<Longrightarrow> keeps (P lk) (upd_net f)" "keeps (P lk) (get_net g)"
  unfolding upd_net_def get_net_def by (auto intro!: keeps_intros net)

lemma k_blk: "keeps (P lk) (upd_blk h)" "keeps (P lk) (get_blk g)"
  unfolding upd_blk_def get_blk_def by (auto intro!: keeps_intros blk)

lemma k_checked: "keeps (P lk) p \<Longrightarrow> keeps (P lk) (checked b p)"
  by (simp add: checked_def keeps_undef)

lemmas k_simple = keeps_intros k_get_cpu k_notify_store k_with_plic k_state k_raise_irq k_irq_uart
  k_net(2) k_blk k_checked

lemma k_dram_sets:
  "P lk m \<Longrightarrow> P lk (dram_set i8 b8 m)" "P lk m \<Longrightarrow> P lk (set_dram_word i v m)"
  "P lk m \<Longrightarrow> P lk (set_dram_half i h m)"
  by (simp_all add: dram_set_def set_dram_word_def set_dram_half_def dram)

lemma k_net_read: "keeps (P lk) (net_read32 offset)" "keeps (P lk) (net_read8 offset)"
  unfolding net_read8_def net_read32_def by (intro k_simple k_net_locked)+

lemma k_bus_read8: "keeps (P lk) (bus_read8 addr)"
  unfolding bus_read8_def by (intro k_simple k_net_read)

lemma k_bus_read16: "keeps (P lk) (bus_read16 addr)"
  unfolding bus_read16_def by (intro k_simple)

lemma k_bus_read32: "keeps (P lk) (bus_read32 addr)"
  unfolding bus_read32_def by (intro k_simple k_net_read)

lemma k_bus_read_bytes: "keeps (P lk) (bus_read_bytes addr n)"
  by (induction n arbitrary: addr) (auto intro!: k_simple k_bus_read8)

lemma k_bus_write8: "keeps (P lk) (bus_write8 addr v)"
  unfolding bus_write8_def by (intro k_simple k_dram_sets) (rule framebuffer)

lemma k_bus_write16: "keeps (P lk) (bus_write16 addr v)"
  unfolding bus_write16_def by (intro k_simple k_dram_sets)

lemma k_bus_write_bytes: "keeps (P lk) (bus_write_bytes addr bs)"
  by (induction bs arbitrary: addr) (auto intro!: k_simple k_bus_write8)

text \<open>The virtio devices, whatever word write they are given.\<close>

lemmas k_bus = k_simple k_bus_read8 k_bus_read16 k_bus_read32 k_bus_read_bytes k_bus_write8
  k_bus_write16 k_bus_write_bytes

lemma k_dma: "keeps (P lk) (dma_to_dram addr bytes)"
  unfolding dma_to_dram_def by (intro k_simple dram)

lemma k_disk: "keeps (P lk) (upd_disk f)" "keeps (P lk) disk_failed" "keeps (P lk) (disk_read_into pos addr len)"
  unfolding upd_disk_def disk_failed_def disk_read_into_def by (intro k_simple k_dma)+

lemma k_blk_read_desc: "keeps (P lk) (blk_read_desc idx)"
  unfolding blk_read_desc_def by (intro k_bus)

lemma k_transfers: "keeps (P lk) (blk_transfer_in sector addr len)" "keeps (P lk) (blk_transfer_out sector addr len)"
  unfolding blk_transfer_in_def blk_transfer_out_def by (intro k_bus k_disk)+

lemma k_handle_request: "keeps (P lk) (handle_request head)"
  unfolding handle_request_def by (intro k_bus k_blk_read_desc k_transfers)

lemma k_blk_round: "(\<And>a v. keeps (P lk) (w32 a v)) \<Longrightarrow> keeps (P lk) (blk_round w32)"
  unfolding blk_round_def blk_complete_def by (intro k_bus k_handle_request)

lemma k_blk_loop:
  assumes "\<And>a v. keeps (P lk) (w32 a v)"
  shows "keeps (P lk) (blk_loop n w32 i)"
  by (induction n) (simp_all only: blk_loop.simps, (intro k_bus k_blk_round assms | assumption)+)

lemma k_blk_write32: "(\<And>a v. keeps (P lk) (w32 a v)) \<Longrightarrow> keeps (P lk) (blk_write32 w32 offset v)"
  unfolding blk_write32_def blk_process_queue_def by (intro k_bus k_blk_loop)

lemma k_queue: "keeps (P lk) (upd_queue i f)" "keeps (P lk) (get_queue i g)"
  unfolding upd_queue_def get_queue_def by (intro k_net; simp)+

lemma k_net_read_desc: "keeps (P lk) (net_read_desc idx q)"
  unfolding net_read_desc_def by (intro k_bus k_queue)

lemma k_push_used: "(\<And>a v. keeps (P lk) (w32 a v)) \<Longrightarrow> keeps (P lk) (push_used w32 q head len)"
  unfolding push_used_def by (intro k_bus k_queue)

lemma k_platform_send: "keeps (P lk) (platform_send frame)"
  unfolding platform_send_def by (intro k_net) simp

lemma k_net_raise: "keeps (P lk) net_raise"
  unfolding net_raise_def by (intro k_bus k_net) simp

lemma k_tx_chain: "keeps (P lk) (tx_chain n cur first pkt)"
  by (induction n arbitrary: cur first pkt)
    (simp_all only: tx_chain.simps, (intro k_bus k_net_read_desc | assumption)+)

lemma k_tx_loop:
  assumes "\<And>a v. keeps (P lk) (w32 a v)"
  shows "keeps (P lk) (tx_loop n w32 i)"
  by (induction n)
    (simp_all only: tx_loop.simps,
      (intro k_bus k_queue k_tx_chain k_push_used k_platform_send assms | assumption)+)

lemma k_rx_chain: "keeps (P lk) (rx_chain n cur first written frame)"
  by (induction n arbitrary: cur first written)
    (simp_all only: rx_chain.simps, (intro k_bus k_net_read_desc | assumption)+)

lemma k_rx_inject_locked: "(\<And>a v. keeps (P lk) (w32 a v)) \<Longrightarrow> keeps (P lk) (rx_inject_locked w32 frame)"
  unfolding rx_inject_locked_def
  by (intro k_bus k_queue k_rx_chain k_push_used k_net_raise)

lemma k_process_tx_queue: "(\<And>a v. keeps (P lk) (w32 a v)) \<Longrightarrow> keeps (P lk) (process_tx_queue w32)"
  unfolding process_tx_queue_def by (intro k_bus k_queue k_tx_loop k_net_raise)

lemma k_upd_selected: "keeps (P lk) (upd_selected f)"
  unfolding upd_selected_def by (intro k_bus k_queue)

lemma k_net_write_locked: "(\<And>a v. keeps (P lk) (w32 a v)) \<Longrightarrow> keeps (P lk) (net_write_locked w32 offset v)"
  unfolding net_write_locked_def
  by (intro k_bus k_upd_selected k_process_tx_queue k_net; simp add: net_reset_def Let_def)

lemma k_bus_write32_at: "keeps (P lk) (bus_write32_at d addr v)"
proof (induction d arbitrary: lk addr v)
  case (Suc d)
  then show ?case
    unfolding bus_write32_at.simps net_write32_def
    by (intro k_bus k_dram_sets clint framebuffer input k_blk_write32 k_net_write_locked k_net_locked)
qed (simp add: keeps_NoFuel)

lemma k_bus_write32: "keeps (P lk) (bus_write32 addr v)"
  unfolding bus_write32_def by (rule k_bus_write32_at)

lemma k_atomic_rmw_w: "keeps (P lk) (atomic_rmw_w addr g)"
  unfolding atomic_rmw_w_def by (intro k_bus k_bus_write32)

lemma k_rx_inject: "keeps (P lk) (rx_inject frame)"
  unfolding rx_inject_def rx_inject_with_def
  by (intro k_net_locked k_rx_inject_locked k_bus_write32)

lemma k_inject_uart_input: "keeps (P lk) (inject_uart_input bs)"
  by (induction bs) (simp_all only: inject_uart_input.simps, (intro k_bus | assumption)+)

lemma k_deferred: "keeps (P lk) (defer_uart_input_until_wfi bs)" "keeps (P lk) release_deferred_uart_input"
  unfolding defer_uart_input_until_wfi_def release_deferred_uart_input_def
  by (auto intro!: k_bus k_inject_uart_input deferred)

lemma k_fetch_page: "keeps (P lk) (fetch_page pa)"
  unfolding fetch_page_def phys_ptr_def
  by (intro k_bus cpu_caches; simp add: cpu_core_def)

lemmas k_all = k_bus k_bus_write32 k_atomic_rmw_w k_rx_inject k_inject_uart_input k_deferred
  k_fetch_page k_icache_flush k_clearDecodeCache k_invalidateReservation

end

subsection \<open>The rest of the machine\<close>

definition core :: "Machine \<Rightarrow> EmulatorConfig \<times> CPU" where
  "core m = (em_config m, cpu_core (em_cpu m))"

interpretation core: device_frame "\<lambda>lk m. core m = x"
  by unfold_locales (simp_all add: core_def net_unlock_def)

text \<open>The mutex of the network device is free again after every access that found it free.\<close>

interpretation unlocked: device_frame "\<lambda>lk m. vn_locked (em_net m) = lk"
  by unfold_locales (auto simp: net_unlock_def)

end
