(* ===== verification/Trap.thy ===== *)
theory Trap
  imports Machine
begin

section \<open>Traps, interrupts and the supervisor binary interface\<close>

text \<open>
  src/cpu/trap.cpp. A trap touches the processor only, so \<open>trap_cpu\<close> is a function on its state.
\<close>

unbundle bit_operations_syntax

definition getTrapTargetLevel :: "u32 \<Rightarrow> bool \<Rightarrow> CPU \<Rightarrow> PrivilegeLevel" where
  "getTrapTargetLevel cause is_interrupt c =
    (if cpu_privilege_level c = MACHINE then MACHINE
     else let delegate = (if is_interrupt then tst (cpu_csrs c MIDELEG) (unat cause)
                          else tst (cpu_csrs c MEDELEG) (unat cause))
          in if delegate then SUPERVISOR else MACHINE)"

text \<open>The address of the handler, from the vector register.\<close>

definition handler_pc :: "u32 \<Rightarrow> u32 \<Rightarrow> bool \<Rightarrow> u32" where
  "handler_pc tvec cause is_interrupt =
    (let base = tvec AND NOT 3; mode = tvec AND 3
     in if is_interrupt \<and> mode = 1 then base + cause * 4 else base)"

definition trap_to_machine :: "u32 \<Rightarrow> u32 \<Rightarrow> bool \<Rightarrow> u32 \<Rightarrow> CPU \<Rightarrow> CPU" where
  "trap_to_machine cause tval is_interrupt cause_val c =
    (let mstatus = cpu_csrs c MSTATUS;
         mie = drop_bit 3 mstatus AND 1;
         mstatus = (mstatus AND NOT (push_bit 7 1)) OR push_bit 7 mie;
         mstatus = mstatus AND NOT (push_bit 3 1);
         mstatus = (mstatus AND NOT (push_bit 11 3))
                   OR push_bit 11 (priv_num (cpu_privilege_level c))
     in c\<lparr>cpu_csrs := (cpu_csrs c)(MSTATUS := mstatus, MCAUSE := cause_val,
              MEPC := cpu_pc c, MTVAL := tval),
          cpu_privilege_level := MACHINE,
          cpu_pc := handler_pc (cpu_csrs c MTVEC) cause is_interrupt\<rparr>)"

definition trap_to_supervisor :: "u32 \<Rightarrow> u32 \<Rightarrow> bool \<Rightarrow> u32 \<Rightarrow> CPU \<Rightarrow> CPU" where
  "trap_to_supervisor cause tval is_interrupt cause_val c =
    (let mstatus = cpu_csrs c MSTATUS;
         sie = drop_bit 1 mstatus AND 1;
         spp = (if cpu_privilege_level c = SUPERVISOR then 1 else 0);
         mstatus = (mstatus AND NOT (push_bit 5 1)) OR push_bit 5 sie;
         mstatus = mstatus AND NOT (push_bit 1 1);
         mstatus = (mstatus AND NOT (push_bit 8 1)) OR push_bit 8 spp
     in c\<lparr>cpu_csrs := (cpu_csrs c)(MSTATUS := mstatus, SEPC := cpu_pc c,
              SCAUSE := cause_val, STVAL := tval),
          cpu_privilege_level := SUPERVISOR,
          cpu_pc := handler_pc (cpu_csrs c STVEC) cause is_interrupt\<rparr>)"

definition trap_cpu :: "u32 \<Rightarrow> u32 \<Rightarrow> bool \<Rightarrow> CPU \<Rightarrow> CPU" where
  "trap_cpu cause tval is_interrupt c =
    (let c = c\<lparr>cpu_trap_occurred := True\<rparr>;
         cause_val = (if is_interrupt then cause OR push_bit 31 1 else cause)
     in if getTrapTargetLevel cause is_interrupt c = MACHINE
        then trap_to_machine cause tval is_interrupt cause_val c
        else trap_to_supervisor cause tval is_interrupt cause_val c)"

definition trap :: "u32 \<Rightarrow> u32 \<Rightarrow> bool \<Rightarrow> (Machine, unit) prog" where
  "trap cause tval is_interrupt = upd_cpu (trap_cpu cause tval is_interrupt)"

definition raise_exception :: "ExceptionCause \<Rightarrow> u32 \<Rightarrow> (Machine, unit) prog" where
  "raise_exception cause tval = trap (cause_num cause) tval False"

text \<open>The loop of \<open>checkInterrupts\<close>: the interrupt it takes, if any.\<close>

fun select_interrupt :: "CPU \<Rightarrow> nat list \<Rightarrow> nat option" where
  "select_interrupt c [] = None"
| "select_interrupt c (i # rest) =
    (if \<not> tst (cpu_csrs c MIP AND cpu_csrs c MIE) i then select_interrupt c rest
     else let delegate = tst (cpu_csrs c MIDELEG) i in
       if delegate \<and> cpu_privilege_level c \<le> SUPERVISOR then
         (if cpu_privilege_level c < SUPERVISOR \<or> tst (cpu_csrs c MSTATUS) 1
          then Some i else select_interrupt c rest)
       else
         (if cpu_privilege_level c < MACHINE \<or> tst (cpu_csrs c MSTATUS) 3
          then Some i else select_interrupt c rest))"

definition interrupt_order :: "nat list" where
  "interrupt_order = [11, 3, 7, 9, 1, 5]"

definition checkInterrupts_cpu :: "CPU \<Rightarrow> CPU" where
  "checkInterrupts_cpu c =
    (if cpu_csrs c MIP AND cpu_csrs c MIE = 0 then c
     else (case select_interrupt c interrupt_order of
         Some i \<Rightarrow> trap_cpu (of_nat i) 0 True c
       | None \<Rightarrow> c))"

definition checkInterrupts :: "(Machine, unit) prog" where
  "checkInterrupts = upd_cpu checkInterrupts_cpu"

subsection \<open>Supervisor calls\<close>

text \<open>
  \<open>sbi_result e v\<close> stores the error code and the value in \<open>a0\<close> and \<open>a1\<close>; \<open>sbi_done\<close> steps over the
  call.
\<close>

definition sbi_result :: "u32 \<Rightarrow> u32 \<Rightarrow> (Machine, unit) prog" where
  "sbi_result e v = upd_cpu (\<lambda>c. c\<lparr>cpu_regs := (cpu_regs c)(10 := e, 11 := v)\<rparr>)"

definition sbi_done :: "(Machine, bool) prog" where
  "sbi_done = bnd (get_cpu cpu_pc) (\<lambda>pc. andthen (jump_to (pc + 4)) (ret True))"

definition SBI_ERR_NOT_SUPPORTED :: u32 where "SBI_ERR_NOT_SUPPORTED = - 2"

definition clear_mip :: "nat \<Rightarrow> (Machine, unit) prog" where
  "clear_mip n = bnd (csr MIP) (\<lambda>mip. set_csr MIP (mip AND NOT (push_bit n 1)))"

definition sbi_set_mtimecmp :: "(Machine, unit) prog" where
  "sbi_set_mtimecmp = bnd (reg 11) (\<lambda>hi. bnd (reg 10) (\<lambda>lo.
     updates (\<lambda>m. m\<lparr>em_clint := (em_clint m)\<lparr>cl_mtimecmp :=
       push_bit 32 (ucast hi) OR ucast lo\<rparr>\<rparr>)))"

definition sbi_probe :: "u32 \<Rightarrow> bool" where
  "sbi_probe e \<longleftrightarrow> e = 0x10 \<or> e = 0x54494D45 \<or> e = 0x48534D \<or> e = 0x53525354 \<or> e = 0x00
     \<or> e = 0x01 \<or> e = 0x02 \<or> e = 0x04 \<or> e = 0x05 \<or> e = 0x08"

definition sbi_base :: "u32 \<Rightarrow> (Machine, unit) prog" where
  "sbi_base fid =
    (if fid = 0 then sbi_result 0 (push_bit 24 2)
     else if fid = 1 then sbi_result 0 4
     else if fid = 2 then sbi_result 0 1
     else if fid = 3 then bnd (reg 10) (\<lambda>e. sbi_result 0 (b2w (sbi_probe e)))
     else if fid = 4 \<or> fid = 5 \<or> fid = 6 then sbi_result 0 0
     else sbi_result SBI_ERR_NOT_SUPPORTED 0)"

definition sbi_hsm :: "u32 \<Rightarrow> (Machine, unit) prog" where
  "sbi_hsm fid =
    (if fid = 0 then sbi_result SBI_ERR_NOT_SUPPORTED 0
     else if fid = 1 then set_state HALTED
     else if fid = 2 \<or> fid = 3 then sbi_result 0 0
     else sbi_result SBI_ERR_NOT_SUPPORTED 0)"

definition handleSBI :: "(Machine, bool) prog" where
  "handleSBI = bnd (reg 17) (\<lambda>ext. bnd (reg 16) (\<lambda>fid.
    if ext = 0x00 then
      andthen sbi_set_mtimecmp (andthen (clear_mip 7) (andthen (sbi_result 0 0) sbi_done))
    else if ext = 0x01 then
      bnd (reg 10) (\<lambda>a0.
      andthen (irq_uart (uart_write8 THR (ucast (a0 AND 0xFF))))
        (andthen (sbi_result 0 0) sbi_done))
    else if ext = 0x02 then andthen (sbi_result (- 1) 0) sbi_done
    else if ext = 0x04 then andthen (clear_mip 1) (andthen (sbi_result 0 0) sbi_done)
    else if ext = 0x05 then andthen (sbi_result 0 0) sbi_done
    else if ext = 0x08 then andthen (set_state HALTED) (ret True)
    else if ext = 0x10 then andthen (sbi_base fid) sbi_done
    else if ext = 0x54494D45 then
      andthen (if fid = 0 then
          andthen sbi_set_mtimecmp (andthen (clear_mip 7) (andthen (clear_mip 5) (sbi_result 0 0)))
        else sbi_result SBI_ERR_NOT_SUPPORTED 0) sbi_done
    else if ext = 0x48534D then andthen (sbi_hsm fid) sbi_done
    else if ext = 0x53525354 then
      andthen (if fid = 0 then set_state HALTED else sbi_result SBI_ERR_NOT_SUPPORTED 0) sbi_done
    else andthen (sbi_result SBI_ERR_NOT_SUPPORTED 0) sbi_done))"

subsection \<open>Bit fields\<close>

lemma bit_set1:
  fixes x y :: u32
  assumes "n < 32"
  shows "bit (x AND NOT (push_bit k 1) OR push_bit k (y AND 1)) n
    \<longleftrightarrow> (if n = k then bit y 0 else bit x n)"
  using assms by (auto simp: bit_simps bit_1_iff)

lemma bit_clear1:
  fixes x :: u32
  assumes "n < 32"
  shows "bit (x AND NOT (push_bit k 1)) n \<longleftrightarrow> n \<noteq> k \<and> bit x n"
  using assms by (auto simp: bit_simps bit_1_iff)

lemma bit_priv_num:
  "bit (priv_num p) j \<longleftrightarrow> (j = 0 \<and> (p = SUPERVISOR \<or> p = MACHINE))
    \<or> (j = 1 \<and> (p = RESERVED2 \<or> p = MACHINE))"
proof -
  have "(2 :: u32) = push_bit 1 1" "(3 :: u32) = mask 2" by (simp_all add: mask_numeral)
  then show ?thesis
    by (cases p) (auto simp only: priv_num.simps bit_push_bit_iff bit_mask_iff bit_1_iff bit_0_eq bot_apply,
        auto)
qed

lemma bit_set2:
  fixes x y :: u32
  assumes "n < 32"
  shows "bit (x AND NOT (push_bit k 3) OR push_bit k (priv_num p)) n
    \<longleftrightarrow> (if n = k then bit (priv_num p) 0 else if n = k + 1 then bit (priv_num p) 1 else bit x n)"
proof -
  have 3: "(3 :: u32) = mask 2" by (simp add: mask_numeral)
  show ?thesis
    using assms unfolding 3 by (auto simp: bit_simps bit_priv_num)
qed

lemma drop_bit_and_one: "bit (drop_bit k x AND 1) 0 = bit (x :: u32) k"
  by (simp add: bit_simps bit_1_iff)

lemma bit_irq_number: "bit (push_bit 31 1 :: u32) n \<longleftrightarrow> n = 31"
  by (simp only: bit_push_bit_iff bit_1_iff) auto

subsection \<open>Entering a trap\<close>

text \<open>What the two status words become, bit by bit.\<close>

lemma trap_to_machine_mstatus:
  assumes "n < 32"
  shows "bit (cpu_csrs (trap_to_machine cause tval i cv c) MSTATUS) n \<longleftrightarrow>
    (if n = 3 then False else if n = 7 then bit (cpu_csrs c MSTATUS) 3
     else if n = 11 then bit (priv_num (cpu_privilege_level c)) 0
     else if n = 12 then bit (priv_num (cpu_privilege_level c)) 1
     else bit (cpu_csrs c MSTATUS) n)"
proof -
  let ?x = "cpu_csrs c MSTATUS"
  have "cpu_csrs (trap_to_machine cause tval i cv c) MSTATUS =
    (((?x AND NOT (push_bit 7 1)) OR push_bit 7 (drop_bit 3 ?x AND 1)) AND NOT (push_bit 3 1))
      AND NOT (push_bit 11 3) OR push_bit 11 (priv_num (cpu_privilege_level c))"
    by (simp add: trap_to_machine_def Let_def csr_numbers)
  then show ?thesis
    by (simp only: bit_set2 [OF assms] bit_clear1 [OF assms] bit_set1 [OF assms] bit_drop_bit_eq
        comp_apply) simp
qed

lemma trap_to_machine_MPP:
  "drop_bit 11 (cpu_csrs (trap_to_machine cause tval i cv c) MSTATUS) AND 3
    = priv_num (cpu_privilege_level c)"
proof (rule bit_word_eqI)
  fix n assume "n < LENGTH(32)"
  have 3: "(3 :: u32) = mask 2" by (simp add: mask_numeral)
  show "bit (drop_bit 11 (cpu_csrs (trap_to_machine cause tval i cv c) MSTATUS) AND 3) n =
    bit (priv_num (cpu_privilege_level c)) n"
  proof (cases "n < 2")
    case True
    then have "n = 0 \<or> n = 1" by auto
    then show ?thesis unfolding 3
      by (elim disjE) (simp_all add: bit_and_iff bit_drop_bit_eq trap_to_machine_mstatus bit_mask_iff)
  next
    case False
    then show ?thesis unfolding 3 by (auto simp: bit_and_iff bit_mask_iff bit_priv_num)
  qed
qed

lemma trap_to_supervisor_mstatus:
  assumes "n < 32"
  shows "bit (cpu_csrs (trap_to_supervisor cause tval i cv c) MSTATUS) n \<longleftrightarrow>
    (if n = 1 then False else if n = 5 then bit (cpu_csrs c MSTATUS) 1
     else if n = 8 then cpu_privilege_level c = SUPERVISOR
     else bit (cpu_csrs c MSTATUS) n)"
proof -
  let ?x = "cpu_csrs c MSTATUS" and ?spp = "if cpu_privilege_level c = SUPERVISOR then 1 else 0 :: u32"
  have "cpu_csrs (trap_to_supervisor cause tval i cv c) MSTATUS =
    (((?x AND NOT (push_bit 5 1)) OR push_bit 5 (drop_bit 1 ?x AND 1)) AND NOT (push_bit 1 1))
      AND NOT (push_bit 8 1) OR push_bit 8 (?spp AND 1)"
    by (simp add: trap_to_supervisor_def Let_def csr_numbers)
  then show ?thesis
    by (simp only: bit_clear1 [OF assms] bit_set1 [OF assms] bit_drop_bit_eq comp_apply) simp
qed

lemma handler_pc_aligned: "handler_pc tvec cause i AND 3 = 0"
proof -
  have 3: "(3 :: u32) = mask 2" by (simp add: mask_numeral)
  have two: "2 \<le> n \<Longrightarrow> Suc (Suc (n - 2)) = n" for n :: nat by simp
  have base: "tvec AND NOT 3 = push_bit 2 (drop_bit 2 tvec)"
    unfolding 3 by (rule bit_word_eqI) (auto simp: bit_simps two not_less)
  have sum: "(tvec AND NOT 3) + cause * 4 = push_bit 2 (drop_bit 2 tvec + cause)"
    unfolding base push_bit_add by (simp add: push_bit_eq_mult)
  have "push_bit 2 x AND 3 = 0" for x :: u32
    unfolding 3 by (rule bit_word_eqI) (simp add: bit_simps)
  then show ?thesis unfolding handler_pc_def Let_def sum unfolding base by simp
qed

lemma getTrapTargetLevel_flag [simp]:
  "getTrapTargetLevel cause i (c\<lparr>cpu_trap_occurred := b\<rparr>) = getTrapTargetLevel cause i c"
  by (simp add: getTrapTargetLevel_def)

lemma trap_cpu_level:
  "cpu_privilege_level (trap_cpu cause tval i c) = getTrapTargetLevel cause i c"
  by (simp add: trap_cpu_def trap_to_machine_def trap_to_supervisor_def getTrapTargetLevel_def Let_def)

text \<open>Interrupts of the level entered are masked.\<close>

lemma trap_masks:
  fixes cause tval i c
  defines "d \<equiv> trap_cpu cause tval i c"
  shows "cpu_csrs d MIDELEG = cpu_csrs c MIDELEG"
    and "cpu_privilege_level d = MACHINE \<Longrightarrow> \<not> bit (cpu_csrs d MSTATUS) 3"
    and "cpu_privilege_level d = SUPERVISOR \<Longrightarrow> \<not> bit (cpu_csrs d MSTATUS) 1"
proof -
  show "cpu_csrs d MIDELEG = cpu_csrs c MIDELEG"
    by (simp add: d_def trap_cpu_def trap_to_machine_def trap_to_supervisor_def Let_def csr_numbers)
  show "\<not> bit (cpu_csrs d MSTATUS) 3" if "cpu_privilege_level d = MACHINE"
    using that unfolding d_def trap_cpu_level by (simp add: trap_cpu_def trap_to_machine_mstatus Let_def)
  show "\<not> bit (cpu_csrs d MSTATUS) 1" if "cpu_privilege_level d = SUPERVISOR"
    using that unfolding d_def trap_cpu_level by (simp add: trap_cpu_def trap_to_supervisor_mstatus Let_def)
qed

text \<open>The control registers a trap to a level writes.\<close>

definition trap_csrs :: "PrivilegeLevel \<Rightarrow> u16 set" where
  "trap_csrs p = (if p = MACHINE then {MSTATUS, MEPC, MCAUSE, MTVAL} else {MSTATUS, SEPC, SCAUSE, STVAL})"


text \<open>An environment call from user mode, delegated.\<close>

definition user_cpu :: "CPU \<Rightarrow> CPU" where
  "user_cpu c = c\<lparr>cpu_privilege_level := USER, cpu_pc := 0x1000,
     cpu_csrs := (\<lambda>_. 0)(MEDELEG := 0x100, STVEC := 0x80200000)\<rparr>"


text \<open>
  An interrupt is takeable: pending and enabled, and its target level is above the current one
  or is the current one with interrupts on. Interrupts that are delegated but arrive in machine
  mode count as machine interrupts here, as the code has it.
\<close>

definition takeable :: "CPU \<Rightarrow> nat \<Rightarrow> bool" where
  "takeable c i \<longleftrightarrow> bit (cpu_csrs c MIP) i \<and> bit (cpu_csrs c MIE) i
     \<and> (if bit (cpu_csrs c MIDELEG) i \<and> cpu_privilege_level c \<noteq> MACHINE
         then cpu_privilege_level c = USER \<or> bit (cpu_csrs c MSTATUS) 1
         else cpu_privilege_level c \<noteq> MACHINE \<or> bit (cpu_csrs c MSTATUS) 3)"

lemma find_SomeD_split:
  "find P xs = Some x \<Longrightarrow> \<exists>ys zs. xs = ys @ x # zs \<and> (\<forall>y \<in> set ys. \<not> P y) \<and> P x"
proof (induction xs)
  case (Cons a xs)
  show ?case
  proof (cases "P a")
    case True
    with Cons.prems show ?thesis by (auto intro: exI [of _ "[]"])
  next
    case False
    with Cons obtain ys zs where "xs = ys @ x # zs" "\<forall>y \<in> set ys. \<not> P y" "P x" by auto
    with False show ?thesis by (intro exI [of _ "a # ys"] exI [of _ zs]) auto
  qed
qed simp

lemma select_interrupt_find:
  assumes "cpu_privilege_level c \<noteq> RESERVED2"
  shows "select_interrupt c is = find (takeable c) is"
proof (induction "is")
  case Nil
  then show ?case by simp
next
  case (Cons i rest)
  then show ?case using assms
    by (cases "cpu_privilege_level c")
      (simp_all add: takeable_def bit_and_iff Let_def del: tst_def)
qed

text \<open>
  C16. Interrupt selection: an interrupt is taken exactly when one of the six is takeable, it is
  the first takeable one in the order machine external, software, timer, supervisor external,
  software, timer, and once its handler runs at its level no other interrupt of the six can
  interrupt it, except that a supervisor handler can be interrupted by what is not delegated.
\<close>

theorem interrupt_selection:
  assumes "cpu_privilege_level c \<noteq> RESERVED2"
  shows "case select_interrupt c [11, 3, 7, 9, 1, 5] of
      None \<Rightarrow> checkInterrupts_cpu c = c \<and> (\<forall>i \<in> {11, 3, 7, 9, 1, 5}. \<not> takeable c i)
    | Some i \<Rightarrow> checkInterrupts_cpu c = trap_cpu (of_nat i) 0 True c \<and> takeable c i
        \<and> (\<exists>before after. [11, 3, 7, 9, 1, 5] = before @ i # after \<and> (\<forall>j \<in> set before. \<not> takeable c j))
        \<and> (\<forall>j. takeable (checkInterrupts_cpu c) j \<longrightarrow>
              cpu_privilege_level (checkInterrupts_cpu c) = SUPERVISOR
              \<and> \<not> bit (cpu_csrs c MIDELEG) j)"
proof (cases "select_interrupt c interrupt_order")
  case None
  then have "\<not> takeable c i" if "i \<in> set interrupt_order" for i
    using that by (auto simp: select_interrupt_find [OF assms] find_None_iff)
  then have "\<forall>i \<in> {11, 3, 7, 9, 1, 5}. \<not> takeable c i"
    by (simp add: interrupt_order_def)
  moreover have "checkInterrupts_cpu c = c" using None by (simp add: checkInterrupts_cpu_def)
  ultimately show ?thesis using None by (simp add: interrupt_order_def)
next
  case (Some i)
  let ?d = "trap_cpu (of_nat i) 0 True c"
  obtain before after where split: "interrupt_order = before @ i # after"
    and first: "\<forall>j \<in> set before. \<not> takeable c j" and t: "takeable c i"
    using Some unfolding select_interrupt_find [OF assms] by (auto dest: find_SomeD_split)
  have "cpu_csrs c MIP AND cpu_csrs c MIE \<noteq> 0"
  proof
    assume "cpu_csrs c MIP AND cpu_csrs c MIE = 0"
    then have "\<not> bit (cpu_csrs c MIP AND cpu_csrs c MIE) i" by simp
    then show False using t by (simp add: takeable_def bit_and_iff)
  qed
  then have run: "checkInterrupts_cpu c = ?d" using Some by (simp add: checkInterrupts_cpu_def)
  have "takeable ?d j \<Longrightarrow> cpu_privilege_level ?d = SUPERVISOR \<and> \<not> bit (cpu_csrs c MIDELEG) j" for j
  proof -
    assume j: "takeable ?d j"
    note e = trap_masks [where c = c and cause = "of_nat i" and tval = 0 and i = True]
    have "cpu_privilege_level ?d = MACHINE \<or> cpu_privilege_level ?d = SUPERVISOR"
      by (simp add: trap_cpu_level getTrapTargetLevel_def)
    then show ?thesis using e j by (auto simp: takeable_def split: if_splits)
  qed
  then show ?thesis
    unfolding interrupt_order_def [symmetric] Some option.case run
    using split first t by blast
qed

text \<open>Supervisor external and timer interrupts, both delegated, in user mode: the external one is taken.\<close>

definition irq_cpu :: "CPU \<Rightarrow> CPU" where
  "irq_cpu c = c\<lparr>cpu_privilege_level := USER,
     cpu_csrs := (\<lambda>_. 0)(MIP := 0x220, MIE := 0x220, MIDELEG := 0x220)\<rparr>"

theorem interrupt_selection_witness:
  "cpu_privilege_level (irq_cpu zero_cpu) \<noteq> RESERVED2
   \<and> checkInterrupts_cpu (irq_cpu zero_cpu) = trap_cpu 9 0 True (irq_cpu zero_cpu)"
proof -
  have "cpu_privilege_level (irq_cpu zero_cpu) \<noteq> RESERVED2" by (simp add: irq_cpu_def)
  moreover have "select_interrupt (irq_cpu zero_cpu) [11, 3, 7, 9, 1, 5] = Some 9"
    by (simp add: irq_cpu_def csr_numbers)
  ultimately show ?thesis using interrupt_selection [of "irq_cpu zero_cpu"] by simp
qed

end
