(* ===== verification/Csr.thy ===== *)
theory Csr
  imports Trap
begin

section \<open>Control and status registers\<close>

text \<open>
  src/cpu/csr.cpp: reads and writes with their privilege checks, the write masks, and physical
  memory protection.
\<close>

unbundle bit_operations_syntax

text \<open>The trap both functions take when an access is not allowed.\<close>

definition illegal_csr :: "(Machine, unit) prog" where
  "illegal_csr = bnd (get_cpu (\<lambda>c. sr_instruction (cpu_sr c))) (\<lambda>i.
     raise_exception ILLEGAL_INSTRUCTION i)"

definition is_linux :: "(Machine, bool) prog" where
  "is_linux = reads (\<lambda>m. pf_platform (ec_profile (em_config m)) = LINUX)"

definition csr_required :: "u16 \<Rightarrow> u32" where
  "csr_required addr = ucast (drop_bit 8 addr AND 0x3)"

definition csr_privilege_low :: "u16 \<Rightarrow> CPU \<Rightarrow> bool" where
  "csr_privilege_low addr c \<longleftrightarrow> priv_num (cpu_privilege_level c) < csr_required addr"

definition satp_trapped :: "u16 \<Rightarrow> CPU \<Rightarrow> bool" where
  "satp_trapped addr c \<longleftrightarrow> addr = SATP \<and> cpu_privilege_level c = SUPERVISOR
     \<and> tst (cpu_csrs c MSTATUS) 20"

text \<open>The cases of the two switches that name unimplemented extensions.\<close>

definition unimplemented_csrs :: "u16 list" where
  "unimplemented_csrs = [MENVCFG, MENVCFGH, SENVCFG, MSTATEEN0, MSTATEEN1, MSTATEEN2, MSTATEEN3,
     SSTATEEN0, STIMECMP, STIMECMPH, MSECCFG, MSECCFGH]"

definition deactivated_csr :: "u16 \<Rightarrow> bool" where
  "deactivated_csr addr \<longleftrightarrow>
     (addr \<ge> 0xB03 \<and> addr \<le> 0xB1F) \<or> (addr \<ge> 0x323 \<and> addr \<le> 0x33F)
     \<or> addr = 0xDA0
     \<or> addr = 0x350 \<or> addr = 0x351 \<or> addr = 0x35C
     \<or> addr = 0x150 \<or> addr = 0x151 \<or> addr = 0x15C \<or> addr = 0xFB0 \<or> addr = 0xDB0"

definition readCSR :: "u16 \<Rightarrow> (Machine, u32) prog" where
  "readCSR addr =
    bnd (get_cpu (csr_privilege_low addr)) (\<lambda>low.
    if low then andthen illegal_csr (ret 0) else
    bnd (get_cpu (satp_trapped addr)) (\<lambda>tvm.
    if tvm then andthen illegal_csr (ret 0) else
    bnd is_linux (\<lambda>linux.
    if addr = SSTATUS then bnd (csr MSTATUS) (\<lambda>s. ret (s AND 0x800DE122))
    else if addr = SIE then bnd (csr MIE) (\<lambda>e. bnd (csr MIDELEG) (\<lambda>d. ret (e AND d)))
    else if addr = SIP then bnd (csr MIP) (\<lambda>p. bnd (csr MIDELEG) (\<lambda>d. ret (p AND d)))
    else if addr = TIME then reads (\<lambda>m. ucast (cl_mtime (em_clint m)))
    else if addr = TIMEH then reads (\<lambda>m. ucast (drop_bit 32 (cl_mtime (em_clint m))))
    else if addr \<in> set unimplemented_csrs then
      (if linux then andthen illegal_csr (ret 0) else ret 0)
    else if linux \<and> deactivated_csr addr then andthen illegal_csr (ret 0)
    else if addr < 4096 then csr addr else ret 0)))"

subsection \<open>Physical memory protection\<close>

text \<open>
  \<open>write_pmpcfg\<close> takes the distance of the register from \<open>PMPCFG0\<close> for its current value, and
  so sees no lock bit.
\<close>

definition pmpcfg_byte :: "u32 \<Rightarrow> u32 \<Rightarrow> nat \<Rightarrow> u32" where
  "pmpcfg_byte current val i =
    (let cur_byte = ucast (drop_bit (i * 8) current AND 0xFF) :: u8;
         new_byte = ucast (drop_bit (i * 8) val AND 0xFF) :: u8
     in if cur_byte AND 0x80 \<noteq> 0 then push_bit (i * 8) (ucast cur_byte)
        else push_bit (i * 8) (ucast (new_byte AND 0x9F)))"

definition write_pmpcfg :: "u16 \<Rightarrow> u32 \<Rightarrow> (Machine, unit) prog" where
  "write_pmpcfg addr val =
    (let current = ucast (addr - PMPCFG0);
         result = fold (\<lambda>i r. r OR pmpcfg_byte current val i) [0, 1, 2, 3] 0
     in set_csr addr result)"

text \<open>The configuration byte of an entry.\<close>

definition pmp_cfg :: "CPU \<Rightarrow> u16 \<Rightarrow> u8" where
  "pmp_cfg c entry = (let cfg_reg = entry div 4 + 0x3A0; cfg_byte = unat (entry mod 4)
     in ucast (drop_bit (cfg_byte * 8) (cpu_csrs c cfg_reg) AND 0xFF))"

definition write_pmpaddr :: "u16 \<Rightarrow> u32 \<Rightarrow> (Machine, unit) prog" where
  "write_pmpaddr addr val =
    (let entry = addr - PMPADDR0 in
     bnd (get_cpu (\<lambda>c. pmp_cfg c entry)) (\<lambda>cfg.
     if cfg AND 0x80 \<noteq> 0 then ret ()
     else bnd (get_cpu (\<lambda>c. pmp_cfg c (entry + 1))) (\<lambda>ncfg.
       if entry < 15 \<and> ncfg AND 0x80 \<noteq> 0 \<and> drop_bit 3 ncfg AND 0x3 = 1 then ret ()
       else set_csr addr val)))"

definition pmp_match :: "CPU \<Rightarrow> u16 \<Rightarrow> u8 \<Rightarrow> u32 \<Rightarrow> bool" where
  "pmp_match c i A paddr =
    (let current = cpu_csrs c (PMPADDR0 + i) in
     if A = 1 then
       (let lo = (if i = 0 then 0 else push_bit 2 (cpu_csrs c (PMPADDR0 + i - 1)));
            hi = push_bit 2 current
        in paddr \<ge> lo \<and> paddr < hi)
     else if A = 2 then
       (let base = push_bit 2 current in paddr \<ge> base \<and> paddr < base + 4)
     else if current = 0xFFFFFFFF then True
     else
       (let size_minus1 = current XOR (current OR (current + 1));
            napot_mask = NOT (push_bit 1 size_minus1 OR 1);
            base = push_bit 2 (current AND napot_mask);
            range = push_bit 3 (size_minus1 + 1)
        in paddr \<ge> base \<and> paddr < base + range))"

fun pmp_loop :: "CPU \<Rightarrow> u32 \<Rightarrow> AccessType \<Rightarrow> bool \<Rightarrow> u16 list \<Rightarrow> bool" where
  "pmp_loop c paddr access is_mmode [] = is_mmode"
| "pmp_loop c paddr access is_mmode (i # rest) =
    (let cfg = pmp_cfg c i; A = drop_bit 3 cfg AND 0x3 in
     if A = 0 then pmp_loop c paddr access is_mmode rest
     else if pmp_match c i A paddr then
       (if is_mmode \<and> cfg AND 0x80 = 0 then True
        else if access = FETCH then tst cfg 2
        else if access = LOAD then tst cfg 0 else tst cfg 1)
     else pmp_loop c paddr access is_mmode rest)"

definition pmp_check :: "u32 \<Rightarrow> AccessType \<Rightarrow> PrivilegeLevel \<Rightarrow> CPU \<Rightarrow> bool" where
  "pmp_check paddr access priv c =
     pmp_loop c paddr access (priv = MACHINE) (map of_nat [0..<16])"

subsection \<open>Writes\<close>

definition mstatus_mask :: u32 where "mstatus_mask = 0x007E19EE"
definition sstatus_mask :: u32 where "sstatus_mask = 0x800DE122"

text \<open>An MPP of 2 is written as 1.\<close>

definition clamp_mpp :: "u32 \<Rightarrow> u32" where
  "clamp_mpp val =
    (let mpp = drop_bit 11 val AND 0x3; mpp = (if mpp = 2 then 1 else mpp)
     in (val AND NOT (push_bit 11 3)) OR push_bit 11 mpp)"

text \<open>Assignment under a mask: \<open>csr = (csr & ~mask) | (val & mask)\<close>.\<close>

definition merge :: "u32 \<Rightarrow> u32 \<Rightarrow> u32 \<Rightarrow> u32" where
  "merge msk old val = (old AND NOT msk) OR (val AND msk)"

definition write_csr_switch :: "u16 \<Rightarrow> u32 \<Rightarrow> bool \<Rightarrow> (Machine, bool) prog" where
  "write_csr_switch addr val linux =
    (if addr = MSTATUS then
       bnd (csr MSTATUS) (\<lambda>old. andthen (set_csr MSTATUS (merge mstatus_mask old (clamp_mpp val))) (ret True))
     else if addr = MTVEC then
       andthen (set_csr MTVEC (if val AND 0x3 > 1 then val AND NOT 0x3 else val)) (ret True)
     else if addr = MEPC then andthen (set_csr MEPC (val AND NOT 0x1)) (ret True)
     else if addr = MEDELEG then andthen (set_csr MEDELEG (val AND 0xFFFF)) (ret True)
     else if addr = MIDELEG then andthen (set_csr MIDELEG (val AND 0xFFFF)) (ret True)
     else if addr = SSTATUS then
       bnd (csr MSTATUS) (\<lambda>old. andthen (set_csr MSTATUS (merge sstatus_mask old val)) (ret True))
     else if addr = SIE then
       bnd (csr MIDELEG) (\<lambda>msk. bnd (csr MIE) (\<lambda>old.
       andthen (set_csr MIE (merge msk old val)) (ret True)))
     else if addr = SIP then
       bnd (csr MIDELEG) (\<lambda>d. bnd (csr MIP) (\<lambda>old.
       andthen (set_csr MIP (merge (d AND 0x2) old val)) (ret True)))
     else if addr = MISA then ret True
     else if addr = SATP then
       andthen (set_csr SATP val)
         (andthen (upd_cpu (\<lambda>c. c\<lparr>cpu_tlb := tlb_flush_all (cpu_tlb c)\<rparr>)) (ret True))
     else if addr \<ge> PMPADDR0 \<and> addr \<le> PMPADDR0 + 15 then andthen (write_pmpaddr addr val) (ret True)
     else if addr \<ge> PMPCFG0 \<and> addr \<le> PMPCFG0 + 3 then andthen (write_pmpcfg addr val) (ret True)
     else if addr \<in> set unimplemented_csrs then
       (if linux then andthen illegal_csr (ret True) else ret True)
     else if addr = MHARTID \<or> addr = MVENDORID \<or> addr = MARCHID \<or> addr = MIMPID then ret True
     else if linux \<and> deactivated_csr addr then andthen illegal_csr (ret False)
     else andthen (set_csr addr val) (ret True))"

definition writeCSR :: "u16 \<Rightarrow> u32 \<Rightarrow> (Machine, bool) prog" where
  "writeCSR addr val =
    (if drop_bit 10 addr = 0x3 then andthen illegal_csr (ret False) else
     bnd (get_cpu (csr_privilege_low addr)) (\<lambda>low.
     if low then andthen illegal_csr (ret False) else
     bnd (get_cpu (satp_trapped addr)) (\<lambda>tvm.
     if tvm then andthen illegal_csr (ret False) else
     bnd is_linux (write_csr_switch addr val))))"

subsection \<open>Access control\<close>

definition on_cpu :: "(CPU \<Rightarrow> CPU) \<Rightarrow> Machine \<Rightarrow> Machine" where
  "on_cpu f m = m\<lparr>em_cpu := f (em_cpu m)\<rparr>"

text \<open>The state after an illegal access: the trap of an illegal instruction, and nothing else.\<close>

definition csr_trapped :: "Machine \<Rightarrow> Machine" where
  "csr_trapped m = on_cpu (trap_cpu 2 (sr_instruction (cpu_sr (em_cpu m))) False) m"

lemma illegal_csr_run: "illegal_csr m = Ok () (csr_trapped m)"
  by (simp add: illegal_csr_def raise_exception_def trap_def csr_trapped_def on_cpu_def mach_simps)

lemma csr_required_cases:
  "csr_privilege_low addr c \<longleftrightarrow> priv_num (cpu_privilege_level c) < ucast (drop_bit 8 addr AND 0x3)"
  by (simp add: csr_privilege_low_def csr_required_def)



subsection \<open>The status registers\<close>

lemma bit_merge: "bit (merge k old v) n = (if bit k n then bit v n else bit old n)"
  by (auto simp: merge_def bit_simps dest: bit_imp_le_length)

text \<open>The number of the MPP field.\<close>

definition MPP :: "u32 \<Rightarrow> u32" where
  "MPP mstatus = drop_bit 11 mstatus AND 3"

lemma word_eq_bits2:
  fixes x y :: u32
  assumes "x AND 3 = x" "y AND 3 = y"
  shows "x = y \<longleftrightarrow> (bit x 0 = bit y 0 \<and> bit x 1 = bit y 1)"
proof
  assume b: "bit x 0 = bit y 0 \<and> bit x 1 = bit y 1"
  have 3: "(3 :: u32) = mask 2" by (simp add: mask_numeral)
  show "x = y"
  proof (rule bit_word_eqI)
    fix n
    show "bit x n = bit y n"
    proof (cases "n < 2")
      case True
      then have "n = 0 \<or> n = 1" by auto
      then show ?thesis using b by blast
    next
      case False
      have "bit x n = bit (x AND 3) n" "bit y n = bit (y AND 3) n" using assms by simp_all
      then show ?thesis using False unfolding 3 by (simp add: bit_and_iff bit_mask_iff)
    qed
  qed
qed simp

lemma MPP_and [simp]: "MPP s AND 3 = MPP s"
  by (simp add: MPP_def and.assoc)

lemma bit_MPP: "bit (MPP s) 0 = bit s 11" "bit (MPP s) 1 = bit s 12"
  by (simp_all add: MPP_def bit_and_iff bit_drop_bit_eq)

lemmas bit_MPP_Suc = bit_MPP [unfolded One_nat_def]

lemma priv_num_and [simp]: "priv_num p AND 3 = priv_num p"
  by (cases p) simp_all

lemma MPP_priv:
  "MPP s = priv_num p \<longleftrightarrow> bit s 11 = bit (priv_num p) 0 \<and> bit s 12 = bit (priv_num p) 1"
  using word_eq_bits2 [of "MPP s" "priv_num p"] by (simp add: bit_MPP bit_MPP_Suc)

lemma MPP_2: "MPP s = 2 \<longleftrightarrow> \<not> bit s 11 \<and> bit s 12"
  using MPP_priv [of s RESERVED2] by (simp add: bit_priv_num)

lemma MPP_cases: "\<exists>p. MPP s = priv_num p"
proof (cases "bit s 11"; cases "bit s 12")
  assume "bit s 11" "bit s 12" then show ?thesis by (intro exI [of _ MACHINE]) (simp only: MPP_priv bit_priv_num, simp)
next
  assume "bit s 11" "\<not> bit s 12" then show ?thesis by (intro exI [of _ SUPERVISOR]) (simp only: MPP_priv bit_priv_num, simp)
next
  assume "\<not> bit s 11" "bit s 12" then show ?thesis by (intro exI [of _ RESERVED2]) (simp only: MPP_priv bit_priv_num, simp)
next
  assume "\<not> bit s 11" "\<not> bit s 12" then show ?thesis by (intro exI [of _ USER]) (simp only: MPP_priv bit_priv_num, simp)
qed

lemma MPP_clamp: "MPP (clamp_mpp v) \<noteq> 2"
proof -
  obtain p where p: "MPP v = priv_num p" using MPP_cases by blast
  obtain q where q: "clamp_mpp v = v AND NOT (push_bit 11 3) OR push_bit 11 (priv_num q)"
    and "q \<noteq> RESERVED2"
  proof (cases "p = RESERVED2")
    case True
    then have "clamp_mpp v = v AND NOT (push_bit 11 3) OR push_bit 11 (priv_num SUPERVISOR)"
      using p by (simp add: clamp_mpp_def MPP_def Let_def)
    then show ?thesis using that by blast
  next
    case False
    have "priv_num p \<noteq> 2" using False by (cases p) simp_all
    then have "clamp_mpp v = v AND NOT (push_bit 11 3) OR push_bit 11 (priv_num p)"
      using p by (simp add: clamp_mpp_def MPP_def Let_def)
    then show ?thesis using that False by blast
  qed
  then have "MPP (clamp_mpp v) = priv_num q"
    unfolding MPP_priv q by (simp only: bit_set2) simp
  then show ?thesis using \<open>q \<noteq> RESERVED2\<close> by (cases q) simp_all
qed

lemma MPP_merge_mstatus: "MPP (merge mstatus_mask old v) = MPP v"
proof -
  have "bit mstatus_mask 11" "bit mstatus_mask 12" by (simp_all add: mstatus_mask_def)
  then show ?thesis
    using word_eq_bits2 [of "MPP (merge mstatus_mask old v)" "MPP v"]
    by (simp add: bit_MPP bit_MPP_Suc bit_merge)
qed

text \<open>A write that was not refused went through the switch.\<close>

lemma writeCSR_switch:
  assumes "writeCSR addr v m = Ok True m'"
  shows "write_csr_switch addr v (pf_platform (ec_profile (em_config m)) = LINUX) m = Ok True m'"
    and "\<not> csr_privilege_low addr (em_cpu m)"
  using assms
  by (auto simp: writeCSR_def mach_simps illegal_csr_run is_linux_def split: if_splits)

text \<open>
  C18. The status word keeps a legal previous privilege: whatever machine code writes to it, the
  MPP field holds 0, 1 or 3 afterwards, and only the bits of the write mask change.
\<close>

theorem mstatus_write_legal:
  assumes "writeCSR MSTATUS v m = Ok True m'" 
  shows "MPP (cpu_csrs (em_cpu m') MSTATUS) \<noteq> 2
    \<and> (\<forall>n. \<not> bit mstatus_mask n \<longrightarrow>
          bit (cpu_csrs (em_cpu m') MSTATUS) n = bit (cpu_csrs (em_cpu m) MSTATUS) n)"
proof -
  have "cpu_csrs (em_cpu m') MSTATUS = merge mstatus_mask (cpu_csrs (em_cpu m) MSTATUS) (clamp_mpp v)"
    using writeCSR_switch(1) [OF assms] by (auto simp: write_csr_switch_def mach_simps)
  then show ?thesis by (simp add: MPP_merge_mstatus MPP_clamp bit_merge)
qed

definition csr_machine :: "Machine \<Rightarrow> Machine" where
  "csr_machine m = on_cpu (\<lambda>c. c\<lparr>cpu_privilege_level := MACHINE, cpu_csrs := (\<lambda>_. 0)\<rparr>) m"

text \<open>Machine code writes an MPP of 2.\<close>

theorem mstatus_write_legal_witness:
  "\<exists>m'. writeCSR MSTATUS 0x1000 (csr_machine demo) = Ok True m'
     \<and> MPP (cpu_csrs (em_cpu m') MSTATUS) \<noteq> 2"
proof -
  have "\<exists>m'. writeCSR MSTATUS 0x1000 (csr_machine demo) = Ok True m'"
    by (simp add: writeCSR_def write_csr_switch_def csr_machine_def on_cpu_def csr_numbers mach_simps
        csr_required_cases satp_trapped_def is_linux_def)
  then show ?thesis using mstatus_write_legal by blast
qed

text \<open>
  The supervisor view of the status word is faithful and confined: what supervisor code
  writes to it reads back under its mask, and the fields that belong to machine mode (the
  machine interrupt enables, MPP, MPRV, TVM, TW, TSR) are not touched.
\<close>

theorem sstatus_view:
  assumes "writeCSR SSTATUS v m = Ok True m'"
  shows "readCSR SSTATUS m' = Ok (v AND sstatus_mask) m'
    \<and> (\<forall>n \<in> {3, 7, 11, 12, 17, 20, 21, 22}.
          bit (cpu_csrs (em_cpu m') MSTATUS) n = bit (cpu_csrs (em_cpu m) MSTATUS) n)"
proof -
  have st: "m' = on_cpu (\<lambda>c. c\<lparr>cpu_csrs := (cpu_csrs c)(MSTATUS :=
      merge sstatus_mask (cpu_csrs c MSTATUS) v)\<rparr>) m"
    using writeCSR_switch(1) [OF assms]
    by (auto simp: write_csr_switch_def mach_simps on_cpu_def csr_numbers)
  have "\<not> csr_privilege_low SSTATUS (em_cpu m')"
    using writeCSR_switch(2) [OF assms] by (simp add: st on_cpu_def csr_privilege_low_def)
  then have "readCSR SSTATUS m' = Ok (cpu_csrs (em_cpu m') MSTATUS AND sstatus_mask) m'"
    by (simp add: readCSR_def mach_simps satp_trapped_def is_linux_def csr_numbers sstatus_mask_def)
  moreover have "merge sstatus_mask x v AND sstatus_mask = v AND sstatus_mask" for x
    by (rule bit_word_eqI) (auto simp: bit_merge bit_and_iff)
  moreover have "\<forall>n \<in> {3, 7, 11, 12, 17, 20, 21, 22}. \<not> bit sstatus_mask n"
    by (simp add: sstatus_mask_def)
  ultimately show ?thesis by (simp add: st on_cpu_def bit_merge)
qed

definition csr_supervisor :: "Machine \<Rightarrow> Machine" where
  "csr_supervisor m = on_cpu (\<lambda>c. c\<lparr>cpu_privilege_level := SUPERVISOR, cpu_csrs := (\<lambda>_. 0)\<rparr>) m"

text \<open>Supervisor code tries to set every bit.\<close>

theorem sstatus_view_witness:
  "\<exists>m'. writeCSR SSTATUS 0xFFFFFFFF (csr_supervisor demo) = Ok True m'
     \<and> readCSR SSTATUS m' = Ok (0xFFFFFFFF AND sstatus_mask) m'"
proof -
  have "\<exists>m'. writeCSR SSTATUS 0xFFFFFFFF (csr_supervisor demo) = Ok True m'"
    by (simp add: writeCSR_def write_csr_switch_def csr_supervisor_def on_cpu_def csr_numbers mach_simps
        csr_required_cases satp_trapped_def is_linux_def)
  then show ?thesis using sstatus_view by blast
qed

lemma le32_and:
  "le32 (a AND k) (b AND k) (c AND k) (d AND k) = le32 a b c d AND le32 k k k k"
proof (rule bit_word_eqI)
  fix n assume "n < LENGTH(32)"
  then consider "n < 8" | "8 \<le> n" "n < 16" | "16 \<le> n" "n < 24" | "24 \<le> n" "n < 32"
    by fastforce
  then show "bit (le32 (a AND k) (b AND k) (c AND k) (d AND k)) n =
      bit (le32 a b c d AND le32 k k k k) n"
    by cases (auto simp: le32_def bit_simps dest: bit_imp_le_length)
qed

lemma pmpcfg_byte_small:
  assumes "current < 4"
  shows "pmpcfg_byte current v i = push_bit (i * 8) (ucast (byte_of i v AND 0x9F :: u8))"
proof -
  have "\<not> bit current (i * 8 + 7)"
    using word_less_exp_bit [of current 2 "i * 8 + 7"] assms by auto
  then have "\<not> bit (ucast (drop_bit (i * 8) current AND 0xFF) :: u8) 7"
    by (auto simp: bit_simps)
  then have "(ucast (drop_bit (i * 8) current AND 0xFF) :: u8) AND 0x80 = 0"
    using and_exp_eq_0_iff_not_bit [of "ucast (drop_bit (i * 8) current AND 0xFF) :: u8" 7] by simp
  moreover have "(ucast (drop_bit (i * 8) v AND 0xFF) :: u8) = byte_of i v"
  proof -
    have e: "(0xFF :: u32) = mask 8" by (simp add: mask_numeral)
    show ?thesis
      unfolding byte_of_def e by (intro bit_word_eqI) (auto simp: bit_simps mult.commute)
  qed
  ultimately show ?thesis by (simp add: pmpcfg_byte_def Let_def)
qed

text \<open>
  The protection configuration registers ignore their lock bits: a write stores the new
  value with the two reserved bits of each entry cleared, whatever was stored before, so a
  locked entry is overwritten and its lock can be removed.
\<close>

theorem write_pmpcfg_ignores_lock:
  assumes "addr \<in> {PMPCFG0, PMPCFG0 + 1, PMPCFG0 + 2, PMPCFG0 + 3}"
  shows "write_pmpcfg addr v = set_csr addr (v AND 0x9F9F9F9F)"
proof -
  have cur: "ucast (addr - PMPCFG0) < (4 :: u32)"
    using assms by (auto simp: PMPCFG0_def)
  have "fold (\<lambda>i r. r OR pmpcfg_byte (ucast (addr - PMPCFG0)) v i) [0, 1, 2, 3] 0 =
      le32 (byte_of 0 v AND 0x9F) (byte_of 1 v AND 0x9F) (byte_of 2 v AND 0x9F) (byte_of 3 v AND 0x9F)"
    by (simp add: pmpcfg_byte_small [OF cur] le32_def or.assoc)
  also have "\<dots> = v AND 0x9F9F9F9F"
  proof -
    have "le32 0x9F 0x9F 0x9F 0x9F = 0x9F9F9F9F" by (simp add: le32_def)
    then show ?thesis by (simp add: le32_and)
  qed
  finally show ?thesis by (simp add: write_pmpcfg_def Let_def)
qed

text \<open>Clearing everything over a locked entry.\<close>

theorem write_pmpcfg_ignores_lock_witness:
  "write_pmpcfg PMPCFG0 0 (on_cpu (\<lambda>c. c\<lparr>cpu_csrs := (\<lambda>_. 0)(PMPCFG0 := 0x9F)\<rparr>) demo)
     = Ok () (on_cpu (\<lambda>c. c\<lparr>cpu_csrs := (\<lambda>_. 0)\<rparr>) demo)"
  using write_pmpcfg_ignores_lock [of PMPCFG0 0] by (simp add: mach_simps on_cpu_def fun_upd_idem)

end
