(* ===== verification/Mmu.thy ===== *)
theory Mmu
  imports ICache Csr
begin

section \<open>Address translation\<close>

text \<open>
  src/mmu/mmu.cpp: the Sv32 page-table walk behind the translation buffer. The result of the
  memory-protection check is computed and discarded, as in the code.
\<close>

unbundle bit_operations_syntax

definition VPN_MASK :: u32 where "VPN_MASK = 0x3FF"
definition PPN_MASK :: u32 where "PPN_MASK = 0x3FFFFF"
definition ASID_MASK :: u32 where "ASID_MASK = 0x1FF"
definition PTE_V :: u32 where "PTE_V = 0x01"
definition PTE_R :: u32 where "PTE_R = 0x02"
definition PTE_W :: u32 where "PTE_W = 0x04"
definition PTE_X :: u32 where "PTE_X = 0x08"
definition PTE_U :: u32 where "PTE_U = 0x10"
definition PTE_A :: u32 where "PTE_A = 0x40"
definition PTE_D :: u32 where "PTE_D = 0x80"

lemmas pte_defs = PTE_V_def PTE_R_def PTE_W_def PTE_X_def PTE_U_def PTE_A_def PTE_D_def

definition page_fault :: "AccessType \<Rightarrow> exn" where
  "page_fault type = (case type of FETCH \<Rightarrow> InstructionPageError | LOAD \<Rightarrow> LoadPageError
     | STORE \<Rightarrow> StorePageError)"

definition triggerPageFault :: "AccessType \<Rightarrow> (Machine, 'a) prog" where
  "triggerPageFault type = throw (page_fault type)"

text \<open>\<open>fault_if b type\<close> is \<open>if (b) triggerPageFault(type)\<close>.\<close>

definition fault_if :: "bool \<Rightarrow> AccessType \<Rightarrow> (Machine, unit) prog" where
  "fault_if b type = (if b then triggerPageFault type else ret ())"

definition check_tlb_permissions :: "TLBEntry \<Rightarrow> AccessType \<Rightarrow> PrivilegeLevel \<Rightarrow> (Machine, unit) prog" where
  "check_tlb_permissions e type priv =
    bnd (csr MSTATUS) (\<lambda>mstatus.
    let sum = tst mstatus 18; f = te_flags e in
    andthen (fault_if (priv = SUPERVISOR \<and> fl_user f \<and> \<not> sum) type)
    (andthen (fault_if (priv = USER \<and> \<not> fl_user f) type)
      (case type of
         LOAD \<Rightarrow> fault_if (\<not> fl_read f) type
       | STORE \<Rightarrow> fault_if (\<not> fl_write f) type
       | FETCH \<Rightarrow> fault_if (\<not> fl_execute f) type)))"

definition pte_to_flags :: "u32 \<Rightarrow> TLBFlags" where
  "pte_to_flags pte = \<lparr>fl_read = tst pte 1, fl_write = tst pte 2, fl_execute = tst pte 3,
     fl_user = tst pte 4, fl_global = tst pte 5, fl_accessed = tst pte 6, fl_dirty = tst pte 7\<rparr>"

text \<open>The protection check, whose result nobody uses.\<close>

definition pmp_probe :: "u32 \<Rightarrow> AccessType \<Rightarrow> PrivilegeLevel \<Rightarrow> (Machine, unit) prog" where
  "pmp_probe pa type priv = bnd (get_cpu (pmp_check pa type priv)) (\<lambda>_. ret ())"

subsection \<open>The walk\<close>

definition pte_invalid :: "u32 \<Rightarrow> bool" where
  "pte_invalid pte \<longleftrightarrow> pte AND PTE_V = 0 \<or> (pte AND PTE_R = 0 \<and> pte AND PTE_W \<noteq> 0)"

definition pte_leaf :: "u32 \<Rightarrow> bool" where
  "pte_leaf pte \<longleftrightarrow> pte AND (PTE_R OR PTE_W OR PTE_X) \<noteq> 0"

text \<open>The five permission tests of a leaf entry.\<close>

definition leaf_denied :: "u32 \<Rightarrow> u32 \<Rightarrow> AccessType \<Rightarrow> PrivilegeLevel \<Rightarrow> bool" where
  "leaf_denied mstatus pte type level \<longleftrightarrow>
     (level = USER \<and> pte AND PTE_U = 0)
     \<or> (level = SUPERVISOR \<and> pte AND PTE_U \<noteq> 0 \<and> \<not> tst mstatus 18)
     \<or> (type = FETCH \<and> pte AND PTE_X = 0)
     \<or> (type = LOAD \<and> \<not> (pte AND PTE_R \<noteq> 0 \<or> (tst mstatus 19 \<and> pte AND PTE_X \<noteq> 0)))
     \<or> (type = STORE \<and> pte AND PTE_W = 0)"

definition pte_updated :: "u32 \<Rightarrow> AccessType \<Rightarrow> u32" where
  "pte_updated pte type =
    (let pte = (if pte AND PTE_A = 0 then pte OR PTE_A else pte)
     in if type = STORE \<and> pte AND PTE_D = 0 then pte OR PTE_D else pte)"

definition fill_tlb :: "u32 \<Rightarrow> u16 \<Rightarrow> u32 \<Rightarrow> TLBFlags \<Rightarrow> bool \<Rightarrow> (Machine, unit) prog" where
  "fill_tlb vpn asid ppn flags superpage =
     upd_cpu (\<lambda>c. c\<lparr>cpu_tlb := tlb_fill vpn asid ppn flags superpage (cpu_tlb c)\<rparr>)"

text \<open>A leaf entry at level \<open>i\<close>; the flags for the buffer are those read, before the update.\<close>

definition walk_leaf ::
  "u32 \<Rightarrow> AccessType \<Rightarrow> PrivilegeLevel \<Rightarrow> u32 \<Rightarrow> u16 \<Rightarrow> nat \<Rightarrow> u32 \<Rightarrow> u32 \<Rightarrow> (Machine, u32) prog" where
  "walk_leaf va type level full_vpn asid i pte_addr pte =
    bnd (csr MSTATUS) (\<lambda>mstatus.
    andthen (fault_if (leaf_denied mstatus pte type level) type)
    (let flags = pte_to_flags pte; pte' = pte_updated pte type in
     andthen (do_if (pte' \<noteq> pte) (bus_write32 pte_addr pte'))
     (andthen (fault_if (i = 1 \<and> pte' AND 0x000FFC00 \<noteq> 0) type)
      (bnd (if i = 1
            then (let ppn1 = drop_bit 20 pte' AND 0xFFF in
              andthen (fill_tlb full_vpn asid ppn1 flags True)
                (ret (push_bit 22 ppn1 OR (va AND PPN_MASK))))
            else (let ppn = drop_bit 10 pte' in
              andthen (fill_tlb full_vpn asid ppn flags False)
                (ret (push_bit 12 ppn OR (va AND 0xFFF))))) (\<lambda>pa.
       andthen (pmp_probe pa type level) (ret pa))))))"

text \<open>One level of the loop; \<open>i\<close> counts down from 1, and a table below level 0 is a fault.\<close>

definition vpn_of :: "u32 \<Rightarrow> nat \<Rightarrow> u32" where
  "vpn_of va i = (if i = 0 then drop_bit 12 va AND VPN_MASK else drop_bit 22 va AND VPN_MASK)"

definition read_pte :: "u32 \<Rightarrow> AccessType \<Rightarrow> (Machine, u32) prog" where
  "read_pte pte_addr type = catching (bus_read32 pte_addr)
     (\<lambda>e. if e = BusAccessError then Some (triggerPageFault type) else None)"

fun walk_levels ::
  "u32 \<Rightarrow> AccessType \<Rightarrow> PrivilegeLevel \<Rightarrow> u32 \<Rightarrow> u16 \<Rightarrow> nat list \<Rightarrow> u32 \<Rightarrow> (Machine, u32) prog" where
  "walk_levels va type level full_vpn asid [] a = triggerPageFault type"
| "walk_levels va type level full_vpn asid (i # rest) a =
    (let pte_addr = a + vpn_of va i * 4 in
     bnd (read_pte pte_addr type) (\<lambda>pte.
     andthen (fault_if (pte_invalid pte) type)
     (if pte_leaf pte then walk_leaf va type level full_vpn asid i pte_addr pte
      else walk_levels va type level full_vpn asid rest (drop_bit 10 pte * 4096))))"

definition translate_walk :: "u32 \<Rightarrow> AccessType \<Rightarrow> PrivilegeLevel \<Rightarrow> u32 \<Rightarrow> u16 \<Rightarrow> (Machine, u32) prog" where
  "translate_walk va type level full_vpn asid =
    bnd (csr SATP) (\<lambda>satp.
    walk_levels va type level full_vpn asid [1, 0] ((satp AND PPN_MASK) * 4096))"

definition effective_level :: "AccessType \<Rightarrow> CPU \<Rightarrow> PrivilegeLevel" where
  "effective_level type c =
    (let mstatus = cpu_csrs c MSTATUS in
     if tst mstatus 17 \<and> type \<noteq> FETCH then priv_of (drop_bit 11 mstatus AND 0x3)
     else cpu_privilege_level c)"

definition hit_address :: "TLBEntry \<Rightarrow> u32 \<Rightarrow> u32" where
  "hit_address e va =
    (if te_superpage e
     then (let vpn0 = drop_bit 12 va AND 0x3FF in
           push_bit 22 (te_ppn e) OR push_bit 12 vpn0 OR (va AND 0xFFF))
     else push_bit 12 (te_ppn e) OR (va AND 0xFFF))"

definition lookup_tlb :: "u32 \<Rightarrow> u16 \<Rightarrow> (Machine, TLBEntry option) prog" where
  "lookup_tlb vpn asid = (\<lambda>m. case tlb_lookup vpn asid (cpu_tlb (em_cpu m)) of
     (r, t) \<Rightarrow> Ok r (m\<lparr>em_cpu := (em_cpu m)\<lparr>cpu_tlb := t\<rparr>\<rparr>))"

definition satp_asid :: "u32 \<Rightarrow> u16" where
  "satp_asid satp = ucast (drop_bit 22 satp AND ASID_MASK)"

definition translate :: "u32 \<Rightarrow> AccessType \<Rightarrow> (Machine, u32) prog" where
  "translate va type =
    bnd (csr SATP) (\<lambda>satp.
    if drop_bit 31 satp = 0 then ret va
    else
      bnd (get_cpu (effective_level type)) (\<lambda>level.
      let full_vpn = drop_bit 12 va; asid = satp_asid satp in
      bnd (lookup_tlb full_vpn asid) (\<lambda>hit.
      case hit of
        Some e \<Rightarrow>
          andthen (check_tlb_permissions e type level)
          (let pa = hit_address e va in andthen (pmp_probe pa type level) (ret pa))
      | None \<Rightarrow> translate_walk va type level full_vpn asid)))"

end
