(* ===== verification/Execute.thy ===== *)
theory Execute
  imports Mmu
begin

section \<open>Instruction execution\<close>

text \<open>
  src/cpu/execute.cpp, one definition for each handler, in the order of the file, and the
  dispatch table at the end. Results are written through \<open>commit\<close>, which is the three
  statements every handler ends with.
\<close>

unbundle bit_operations_syntax

text \<open>
  \<open>uint32_t o = regs_[i.rd]; writeReg(i.rd, v); sr.reg_write = RegWrite{true, i.rd, o, regs_[i.rd]}\<close>.
\<close>

definition record_reg :: "DecodedInstr \<Rightarrow> u32 \<Rightarrow> (Machine, unit) prog" where
  "record_reg i old = bnd (reg (di_rd i)) (\<lambda>new.
     upd_sr (\<lambda>s. s\<lparr>sr_reg_write :=
       \<lparr>rw_valid = True, rw_rd = di_rd i, rw_old_val = old, rw_new_val = new\<rparr>\<rparr>))"

definition commit :: "DecodedInstr \<Rightarrow> u32 \<Rightarrow> (Machine, unit) prog" where
  "commit i v = bnd (reg (di_rd i)) (\<lambda>old. andthen (writeReg (di_rd i) v) (record_reg i old))"

definition record_mem :: "u32 \<Rightarrow> u32 \<Rightarrow> u32 \<Rightarrow> u8 \<Rightarrow> (Machine, unit) prog" where
  "record_mem addr old new sz = upd_sr (\<lambda>s. s\<lparr>sr_mem_write :=
     \<lparr>mw_valid = True, mw_addr = addr, mw_old_val = old, mw_new_val = new, mw_size = sz\<rparr>\<rparr>)"

definition record_csr :: "u16 \<Rightarrow> u32 \<Rightarrow> u32 \<Rightarrow> (Machine, unit) prog" where
  "record_csr addr old new = upd_sr (\<lambda>s. s\<lparr>sr_csr_write :=
     \<lparr>cw_valid = True, cw_addr = addr, cw_old_val = old, cw_new_val = new\<rparr>\<rparr>)"

text \<open>The operands of a register instruction, and of one with an immediate.\<close>

definition with_regs :: "DecodedInstr \<Rightarrow> (u32 \<Rightarrow> u32 \<Rightarrow> (Machine, unit) prog) \<Rightarrow> (Machine, unit) prog" where
  "with_regs i f = bnd (reg (di_rs1 i)) (\<lambda>a. bnd (reg (di_rs2 i)) (\<lambda>b. f a b))"

definition with_rs1 :: "DecodedInstr \<Rightarrow> (u32 \<Rightarrow> (Machine, unit) prog) \<Rightarrow> (Machine, unit) prog" where
  "with_rs1 i f = bnd (reg (di_rs1 i)) f"

definition illegal_raw :: "DecodedInstr \<Rightarrow> (Machine, unit) prog" where
  "illegal_raw i = raise_exception ILLEGAL_INSTRUCTION (di_raw i)"

definition illegal_fetched :: "(Machine, unit) prog" where
  "illegal_fetched = bnd (get_cpu (\<lambda>c. sr_instruction (cpu_sr c)))
     (raise_exception ILLEGAL_INSTRUCTION)"

subsection \<open>Arithmetic and logic\<close>

definition execADD :: "DecodedInstr \<Rightarrow> (Machine, unit) prog" where
  "execADD i = with_regs i (\<lambda>a b. bnd (defined (sadd32 a b)) (commit i))"

definition execSUB :: "DecodedInstr \<Rightarrow> (Machine, unit) prog" where
  "execSUB i = with_regs i (\<lambda>a b. bnd (defined (ssub32 a b)) (commit i))"

definition execAND :: "DecodedInstr \<Rightarrow> (Machine, unit) prog" where
  "execAND i = with_regs i (\<lambda>a b. commit i (a AND b))"

definition execOR :: "DecodedInstr \<Rightarrow> (Machine, unit) prog" where
  "execOR i = with_regs i (\<lambda>a b. commit i (a OR b))"

definition execXOR :: "DecodedInstr \<Rightarrow> (Machine, unit) prog" where
  "execXOR i = with_regs i (\<lambda>a b. commit i (a XOR b))"

definition execSLL :: "DecodedInstr \<Rightarrow> (Machine, unit) prog" where
  "execSLL i = with_regs i (\<lambda>a b. bnd (defined (shl32 a b)) (commit i))"

definition execSRL :: "DecodedInstr \<Rightarrow> (Machine, unit) prog" where
  "execSRL i = with_regs i (\<lambda>a b. bnd (defined (shr32 a b)) (commit i))"

definition execSRA :: "DecodedInstr \<Rightarrow> (Machine, unit) prog" where
  "execSRA i = with_regs i (\<lambda>a b. bnd (defined (sar32 a b)) (commit i))"

definition execSLT :: "DecodedInstr \<Rightarrow> (Machine, unit) prog" where
  "execSLT i = with_regs i (\<lambda>a b. commit i (if sint a < sint b then 1 else 0))"

definition execSLTU :: "DecodedInstr \<Rightarrow> (Machine, unit) prog" where
  "execSLTU i = with_regs i (\<lambda>a b. commit i (if a < b then 1 else 0))"

definition execADDI :: "DecodedInstr \<Rightarrow> (Machine, unit) prog" where
  "execADDI i = with_rs1 i (\<lambda>a. bnd (defined (sadd32 a (di_imm i))) (commit i))"

definition execANDI :: "DecodedInstr \<Rightarrow> (Machine, unit) prog" where
  "execANDI i = with_rs1 i (\<lambda>a. commit i (a AND di_imm i))"

definition execORI :: "DecodedInstr \<Rightarrow> (Machine, unit) prog" where
  "execORI i = with_rs1 i (\<lambda>a. commit i (a OR di_imm i))"

definition execXORI :: "DecodedInstr \<Rightarrow> (Machine, unit) prog" where
  "execXORI i = with_rs1 i (\<lambda>a. commit i (a XOR di_imm i))"

definition execSLTI :: "DecodedInstr \<Rightarrow> (Machine, unit) prog" where
  "execSLTI i = with_rs1 i (\<lambda>a. commit i (if sint a < sint (di_imm i) then 1 else 0))"

definition execSLTIU :: "DecodedInstr \<Rightarrow> (Machine, unit) prog" where
  "execSLTIU i = with_rs1 i (\<lambda>a. commit i (if a < di_imm i then 1 else 0))"

text \<open>\<open>(i.imm >> 5) != 0\<close> on the signed immediate.\<close>

definition execSLLI :: "DecodedInstr \<Rightarrow> (Machine, unit) prog" where
  "execSLLI i = (if signed_drop_bit 5 (di_imm i) \<noteq> 0 then illegal_raw i
     else with_rs1 i (\<lambda>a. bnd (defined (shl32 a (di_imm i))) (commit i)))"

definition execSRLI :: "DecodedInstr \<Rightarrow> (Machine, unit) prog" where
  "execSRLI i = (if signed_drop_bit 5 (di_imm i) \<noteq> 0 then illegal_raw i
     else with_rs1 i (\<lambda>a. bnd (defined (shr32 a (di_imm i))) (commit i)))"

definition execSRAI :: "DecodedInstr \<Rightarrow> (Machine, unit) prog" where
  "execSRAI i =
    (let shamt = di_imm i AND 0x1F; funct7 = drop_bit 5 (di_imm i) AND 0x7F in
     if funct7 \<noteq> 0x20 then illegal_raw i
     else with_rs1 i (\<lambda>a. bnd (defined (sar32 a shamt)) (commit i)))"

subsection \<open>Loads\<close>

text \<open>The \<open>catch\<close> clauses of the loads and of the stores; \<open>before\<close> is what a clause does first.\<close>

definition load_handlers :: "u32 \<Rightarrow> exn \<Rightarrow> (Machine, unit) prog option" where
  "load_handlers a e =
    (if e = BusAccessError then Some (raise_exception LOAD_ACCESS_FAULT a)
     else if e = LoadPageError then Some (raise_exception LOAD_PAGE_FAULT a) else None)"

definition store_handlers :: "(Machine, unit) prog \<Rightarrow> u32 \<Rightarrow> exn \<Rightarrow> (Machine, unit) prog option" where
  "store_handlers before a e =
    (if e = BusAccessError then Some (andthen before (raise_exception STORE_ACCESS_FAULT a))
     else if e = StorePageError then Some (andthen before (raise_exception STORE_PAGE_FAULT a))
     else None)"

text \<open>A load: the address, the access, and the value made of what was read.\<close>

definition exec_load :: "(u32 \<Rightarrow> (Machine, u32) prog) \<Rightarrow> DecodedInstr \<Rightarrow> (Machine, unit) prog" where
  "exec_load access i = with_rs1 i (\<lambda>base.
     let a = base + di_imm i in
     catching (bnd (translate a LOAD) (\<lambda>pa. bnd (access pa) (commit i))) (load_handlers a))"

definition execLW :: "DecodedInstr \<Rightarrow> (Machine, unit) prog" where
  "execLW = exec_load bus_read32"

definition execLH :: "DecodedInstr \<Rightarrow> (Machine, unit) prog" where
  "execLH = exec_load (\<lambda>pa. bnd (bus_read16 pa) (\<lambda>h. ret (scast h)))"

definition execLHU :: "DecodedInstr \<Rightarrow> (Machine, unit) prog" where
  "execLHU = exec_load (\<lambda>pa. bnd (bus_read16 pa) (\<lambda>h. ret (ucast h)))"

definition execLB :: "DecodedInstr \<Rightarrow> (Machine, unit) prog" where
  "execLB = exec_load (\<lambda>pa. bnd (bus_read8 pa) (\<lambda>b. ret (scast b)))"

definition execLBU :: "DecodedInstr \<Rightarrow> (Machine, unit) prog" where
  "execLBU = exec_load (\<lambda>pa. bnd (bus_read8 pa) (\<lambda>b. ret (ucast b)))"

subsection \<open>Stores\<close>

text \<open>
  In verbose mode the old value is read first, for the trace, which makes an unmapped store
  fault; otherwise the old value is recorded as 0.
\<close>

definition is_verbose :: "(Machine, bool) prog" where
  "is_verbose = reads (\<lambda>m. pf_verbose (ec_profile (em_config m)))"

definition old_value :: "(u32 \<Rightarrow> (Machine, u32) prog) \<Rightarrow> u32 \<Rightarrow> (Machine, u32) prog" where
  "old_value read pa = bnd is_verbose (\<lambda>v. if v \<and> \<not> is_mmio pa then read pa else ret 0)"

definition exec_store ::
  "(u32 \<Rightarrow> (Machine, u32) prog) \<Rightarrow> (u32 \<Rightarrow> u32 \<Rightarrow> (Machine, unit) prog) \<Rightarrow> u8 \<Rightarrow> DecodedInstr
     \<Rightarrow> (Machine, unit) prog" where
  "exec_store read write sz i = with_rs1 i (\<lambda>base.
     let a = base + di_imm i in
     catching
       (bnd (translate a STORE) (\<lambda>pa.
        bnd (old_value read pa) (\<lambda>old.
        bnd (reg (di_rs2 i)) (\<lambda>v.
        andthen (write pa v) (record_mem a old v sz)))))
       (store_handlers (ret ()) a))"

definition execSW :: "DecodedInstr \<Rightarrow> (Machine, unit) prog" where
  "execSW = exec_store bus_read32 bus_write32 4"

definition execSH :: "DecodedInstr \<Rightarrow> (Machine, unit) prog" where
  "execSH = exec_store (\<lambda>pa. bnd (bus_read16 pa) (\<lambda>h. ret (ucast h)))
     (\<lambda>pa v. bus_write16 pa (ucast v)) 2"

definition execSB :: "DecodedInstr \<Rightarrow> (Machine, unit) prog" where
  "execSB = exec_store (\<lambda>pa. bnd (bus_read8 pa) (\<lambda>b. ret (ucast b)))
     (\<lambda>pa v. bus_write8 pa (ucast v)) 1"

subsection \<open>Branches and jumps\<close>

text \<open>The body of a taken branch.\<close>

definition branch_to :: "u32 \<Rightarrow> (Machine, unit) prog \<Rightarrow> (Machine, unit) prog" where
  "branch_to target link = bnd (get_cpu cpu_misalignment_mask) (\<lambda>msk.
     if target AND msk \<noteq> 0 then raise_exception MISALIGNED_INSTRUCTION target
     else andthen link (jump_to target))"

definition exec_branch :: "(u32 \<Rightarrow> u32 \<Rightarrow> bool) \<Rightarrow> DecodedInstr \<Rightarrow> (Machine, unit) prog" where
  "exec_branch taken i = with_regs i (\<lambda>a b.
     do_if (taken a b) (bnd (get_cpu cpu_pc) (\<lambda>pc. branch_to (pc + di_imm i) (ret ()))))"

definition execBEQ :: "DecodedInstr \<Rightarrow> (Machine, unit) prog" where
  "execBEQ = exec_branch (\<lambda>a b. a = b)"

definition execBNE :: "DecodedInstr \<Rightarrow> (Machine, unit) prog" where
  "execBNE = exec_branch (\<lambda>a b. a \<noteq> b)"

definition execBLT :: "DecodedInstr \<Rightarrow> (Machine, unit) prog" where
  "execBLT = exec_branch (\<lambda>a b. sint a < sint b)"

definition execBGE :: "DecodedInstr \<Rightarrow> (Machine, unit) prog" where
  "execBGE = exec_branch (\<lambda>a b. sint a \<ge> sint b)"

definition execBLTU :: "DecodedInstr \<Rightarrow> (Machine, unit) prog" where
  "execBLTU = exec_branch (\<lambda>a b. a < b)"

definition execBGEU :: "DecodedInstr \<Rightarrow> (Machine, unit) prog" where
  "execBGEU = exec_branch (\<lambda>a b. a \<ge> b)"

definition execJAL :: "DecodedInstr \<Rightarrow> (Machine, unit) prog" where
  "execJAL i = bnd (get_cpu cpu_pc) (\<lambda>pc.
     branch_to (pc + di_imm i) (commit i (pc + di_instr_len i)))"

definition execJALR :: "DecodedInstr \<Rightarrow> (Machine, unit) prog" where
  "execJALR i = with_rs1 i (\<lambda>base. bnd (get_cpu cpu_pc) (\<lambda>pc.
     branch_to ((base + di_imm i) AND NOT 1) (commit i (pc + di_instr_len i))))"

definition execLUI :: "DecodedInstr \<Rightarrow> (Machine, unit) prog" where
  "execLUI i = commit i (di_imm i)"

definition execAUIPC :: "DecodedInstr \<Rightarrow> (Machine, unit) prog" where
  "execAUIPC i = bnd (get_cpu cpu_pc) (\<lambda>pc. commit i (pc + di_imm i))"

subsection \<open>Calls and breakpoints\<close>

definition call_cause :: "PrivilegeLevel \<Rightarrow> ExceptionCause" where
  "call_cause p = (case p of USER \<Rightarrow> U_MODE_ENVIRONMENT_CALL
     | SUPERVISOR \<Rightarrow> S_MODE_ENVIRONMENT_CALL
     | MACHINE \<Rightarrow> M_MODE_ENVIRONMENT_CALL
     | RESERVED2 \<Rightarrow> M_MODE_ENVIRONMENT_CALL)"

definition trap_ecall :: "(Machine, unit) prog" where
  "trap_ecall = bnd (get_cpu cpu_privilege_level) (\<lambda>p. raise_exception (call_cause p) 0)"

definition execECALL :: "DecodedInstr \<Rightarrow> (Machine, unit) prog" where
  "execECALL i =
    bnd (reads (\<lambda>m. cc_mode (ec_cpu_config (em_config m)) = BARE_METAL_MODE)) (\<lambda>bare.
    bnd (reg 17) (\<lambda>a7.
    if bare \<and> a7 = 93 then set_state HALTED
    else
      bnd (get_cpu cpu_privilege_level) (\<lambda>p.
      bnd (reads (\<lambda>m. pf_opensbi_path (ec_profile (em_config m)) \<noteq> [])) (\<lambda>sbi.
      if p = SUPERVISOR \<and> sbi
      then bnd handleSBI (\<lambda>handled. if handled then ret () else trap_ecall)
      else trap_ecall))))"

definition execEBREAK :: "DecodedInstr \<Rightarrow> (Machine, unit) prog" where
  "execEBREAK i = bnd (get_cpu cpu_pc) (raise_exception BREAKPOINT)"

definition execFENCE :: "DecodedInstr \<Rightarrow> (Machine, unit) prog" where
  "execFENCE i = ret ()"

subsection \<open>Control registers\<close>

text \<open>\<open>sr.csr_write\<close> and \<open>sr.reg_write\<close> at the end of the six handlers.\<close>

definition record_csr_access :: "DecodedInstr \<Rightarrow> u16 \<Rightarrow> u32 \<Rightarrow> u32 \<Rightarrow> (Machine, unit) prog" where
  "record_csr_access i a old_reg old_val =
    andthen (record_reg i old_reg) (bnd (csr a) (\<lambda>new. record_csr a old_val new))"

definition csr_address :: "DecodedInstr \<Rightarrow> u16" where
  "csr_address i = di_csr i AND 0xFFF"

text \<open>The read that starts each handler; the rest runs unless it trapped.\<close>

definition csr_read_then :: "DecodedInstr \<Rightarrow> (u32 \<Rightarrow> (Machine, unit) prog) \<Rightarrow> (Machine, unit) prog" where
  "csr_read_then i k = bnd (readCSR (csr_address i)) (\<lambda>old_val.
     bnd (get_cpu cpu_trap_occurred) (\<lambda>trapped. if trapped then ret () else k old_val))"

text \<open>\<open>if (!writeCSR(...)) return;\<close>, skipped when there is nothing to write.\<close>

definition csr_write_then :: "bool \<Rightarrow> u16 \<Rightarrow> u32 \<Rightarrow> (Machine, unit) prog \<Rightarrow> (Machine, unit) prog" where
  "csr_write_then needed a v k =
    (if needed then bnd (writeCSR a v) (\<lambda>ok. if ok then k else ret ()) else k)"

text \<open>The register forms write the control register before the destination register.\<close>

definition exec_csr_reg :: "(u32 \<Rightarrow> u32 \<Rightarrow> u32) \<Rightarrow> (u8 \<Rightarrow> bool) \<Rightarrow> DecodedInstr \<Rightarrow> (Machine, unit) prog" where
  "exec_csr_reg f needed i = csr_read_then i (\<lambda>old_val.
     bnd (reg (di_rd i)) (\<lambda>old_reg.
     with_rs1 i (\<lambda>v.
     csr_write_then (needed (di_rs1 i)) (csr_address i) (f old_val v)
       (andthen (writeReg (di_rd i) old_val)
         (record_csr_access i (csr_address i) old_reg old_val)))))"

definition execCSRRW :: "DecodedInstr \<Rightarrow> (Machine, unit) prog" where
  "execCSRRW = exec_csr_reg (\<lambda>old v. v) (\<lambda>_. True)"

definition execCSRRS :: "DecodedInstr \<Rightarrow> (Machine, unit) prog" where
  "execCSRRS = exec_csr_reg (\<lambda>old v. old OR v) (\<lambda>r. r \<noteq> 0)"

definition execCSRRC :: "DecodedInstr \<Rightarrow> (Machine, unit) prog" where
  "execCSRRC = exec_csr_reg (\<lambda>old v. old AND NOT v) (\<lambda>r. r \<noteq> 0)"

definition execCSRRWI :: "DecodedInstr \<Rightarrow> (Machine, unit) prog" where
  "execCSRRWI i = csr_read_then i (\<lambda>old_val.
     bnd (reg (di_rd i)) (\<lambda>old_reg.
     csr_write_then True (csr_address i) (ucast (di_rs1 i))
       (andthen (writeReg (di_rd i) old_val)
         (record_csr_access i (csr_address i) old_reg old_val))))"

text \<open>The immediate set and clear forms write the destination register first.\<close>

definition exec_csr_imm :: "(u32 \<Rightarrow> u32 \<Rightarrow> u32) \<Rightarrow> DecodedInstr \<Rightarrow> (Machine, unit) prog" where
  "exec_csr_imm f i = csr_read_then i (\<lambda>old_val.
     let uimm = ucast (di_rs1 i) in
     bnd (reg (di_rd i)) (\<lambda>old_reg.
     andthen (writeReg (di_rd i) old_val)
       (csr_write_then (uimm \<noteq> 0) (csr_address i) (f old_val uimm)
         (record_csr_access i (csr_address i) old_reg old_val))))"

definition execCSRRSI :: "DecodedInstr \<Rightarrow> (Machine, unit) prog" where
  "execCSRRSI = exec_csr_imm (\<lambda>old u. old OR u)"

definition execCSRRCI :: "DecodedInstr \<Rightarrow> (Machine, unit) prog" where
  "execCSRRCI = exec_csr_imm (\<lambda>old u. old AND NOT u)"

subsection \<open>Multiplication and division\<close>

definition wmul :: "u32 \<Rightarrow> u32 \<Rightarrow> u32" where
  "wmul a b = (let res = scast a * scast b :: u64 in ucast (res AND 0xFFFFFFFF))"

definition wmulh :: "u32 \<Rightarrow> u32 \<Rightarrow> u32" where
  "wmulh a b = (let res = scast a * scast b :: u64 in ucast (signed_drop_bit 32 res))"

definition wmulhsu :: "u32 \<Rightarrow> u32 \<Rightarrow> u32" where
  "wmulhsu a b = (let res = scast a * ucast b :: u64 in ucast (drop_bit 32 res))"

definition wmulhu :: "u32 \<Rightarrow> u32 \<Rightarrow> u32" where
  "wmulhu a b = (let res = ucast a * ucast b :: u64 in ucast (drop_bit 32 res))"

definition wdiv :: "u32 \<Rightarrow> u32 \<Rightarrow> u32" where
  "wdiv a b = (if b = 0 then 0xFFFFFFFF
     else if sint a = - (2 ^ 31) \<and> sint b = - 1 then a
     else word_of_int (tdiv (sint a) (sint b)))"

definition wdivu :: "u32 \<Rightarrow> u32 \<Rightarrow> u32" where
  "wdivu a b = (if b = 0 then 0xFFFFFFFF else a div b)"

definition wrem :: "u32 \<Rightarrow> u32 \<Rightarrow> u32" where
  "wrem a b = (if b = 0 then a
     else if sint a = - (2 ^ 31) \<and> sint b = - 1 then 0
     else word_of_int (trem (sint a) (sint b)))"

definition wremu :: "u32 \<Rightarrow> u32 \<Rightarrow> u32" where
  "wremu a b = (if b = 0 then a else a mod b)"

definition execMUL :: "DecodedInstr \<Rightarrow> (Machine, unit) prog" where
  "execMUL i = with_regs i (\<lambda>a b. commit i (wmul a b))"

definition execMULH :: "DecodedInstr \<Rightarrow> (Machine, unit) prog" where
  "execMULH i = with_regs i (\<lambda>a b. commit i (wmulh a b))"

definition execMULHSU :: "DecodedInstr \<Rightarrow> (Machine, unit) prog" where
  "execMULHSU i = with_regs i (\<lambda>a b. commit i (wmulhsu a b))"

definition execMULHU :: "DecodedInstr \<Rightarrow> (Machine, unit) prog" where
  "execMULHU i = with_regs i (\<lambda>a b. commit i (wmulhu a b))"

definition execDIV :: "DecodedInstr \<Rightarrow> (Machine, unit) prog" where
  "execDIV i = with_regs i (\<lambda>a b. commit i (wdiv a b))"

definition execDIVU :: "DecodedInstr \<Rightarrow> (Machine, unit) prog" where
  "execDIVU i = with_regs i (\<lambda>a b. commit i (wdivu a b))"

definition execREM :: "DecodedInstr \<Rightarrow> (Machine, unit) prog" where
  "execREM i = with_regs i (\<lambda>a b. commit i (wrem a b))"

definition execREMU :: "DecodedInstr \<Rightarrow> (Machine, unit) prog" where
  "execREMU i = with_regs i (\<lambda>a b. commit i (wremu a b))"

subsection \<open>Returning from traps, waiting, fences\<close>

definition mret_status :: "u32 \<Rightarrow> u32" where
  "mret_status mstatus =
    (let mpp = drop_bit 11 mstatus AND 0x3;
         mpie = drop_bit 7 mstatus AND 1;
         mstatus = (mstatus AND NOT (push_bit 3 1)) OR push_bit 3 mpie;
         mstatus = mstatus OR push_bit 7 1;
         mstatus = mstatus AND NOT (push_bit 11 3)
     in if priv_of mpp \<noteq> MACHINE then mstatus AND NOT (push_bit 17 1) else mstatus)"

definition execMRET :: "DecodedInstr \<Rightarrow> (Machine, unit) prog" where
  "execMRET i =
    bnd (get_cpu cpu_privilege_level) (\<lambda>p.
    if p \<noteq> MACHINE then illegal_fetched
    else
      bnd (csr MEPC) (\<lambda>mepc.
      andthen (jump_to mepc)
      (bnd (csr MSTATUS) (\<lambda>mstatus.
       andthen (set_privilege (priv_of (drop_bit 11 mstatus AND 0x3)))
       (andthen (record_csr MSTATUS mstatus (mret_status mstatus))
         (set_csr MSTATUS (mret_status mstatus)))))))"

definition sret_status :: "u32 \<Rightarrow> u32" where
  "sret_status mstatus =
    (let spie = drop_bit 5 mstatus AND 1;
         mstatus = (mstatus AND NOT (push_bit 1 1)) OR push_bit 1 spie;
         mstatus = mstatus OR push_bit 5 1;
         mstatus = mstatus AND NOT (push_bit 8 1)
     in mstatus AND NOT (push_bit 17 1))"

definition execSRET :: "DecodedInstr \<Rightarrow> (Machine, unit) prog" where
  "execSRET i =
    bnd (get_cpu cpu_privilege_level) (\<lambda>p.
    bnd (csr MSTATUS) (\<lambda>mstatus.
    if p = USER then illegal_fetched
    else if p = SUPERVISOR \<and> tst mstatus 22 then illegal_fetched
    else
      andthen (record_csr MSTATUS mstatus (sret_status mstatus))
      (andthen (set_csr MSTATUS (sret_status mstatus))
      (andthen (set_privilege (if tst mstatus 8 then SUPERVISOR else USER))
      (bnd (csr SEPC) jump_to)))))"

definition execWFI :: "DecodedInstr \<Rightarrow> (Machine, unit) prog" where
  "execWFI i =
    bnd (get_cpu cpu_privilege_level) (\<lambda>p.
    bnd (csr MSTATUS) (\<lambda>mstatus.
    if p = USER then illegal_raw i
    else if p = SUPERVISOR \<and> tst mstatus 21 then illegal_raw i
    else andthen (set_state WAITING_FOR_INTERRUPT) release_deferred_uart_input))"

definition upd_tlb :: "(TLB \<Rightarrow> TLB) \<Rightarrow> (Machine, unit) prog" where
  "upd_tlb f = upd_cpu (\<lambda>c. c\<lparr>cpu_tlb := f (cpu_tlb c)\<rparr>)"

definition execSFENCE_VMA :: "DecodedInstr \<Rightarrow> (Machine, unit) prog" where
  "execSFENCE_VMA i =
    bnd (get_cpu cpu_privilege_level) (\<lambda>p.
    bnd (csr MSTATUS) (\<lambda>mstatus.
    if p = USER then illegal_fetched
    else if p = SUPERVISOR \<and> tst mstatus 20 then illegal_fetched
    else with_regs i (\<lambda>va asid.
      andthen
        (if di_rs1 i = 0 \<and> di_rs2 i = 0 then upd_tlb tlb_flush_all
         else if di_rs1 i = 0 \<and> di_rs2 i \<noteq> 0 then upd_tlb (tlb_flush_asid (ucast (asid AND 0x1FF)))
         else if di_rs1 i \<noteq> 0 \<and> di_rs2 i = 0 then upd_tlb (tlb_flush_va va)
         else upd_tlb (tlb_flush_va_asid va (ucast (asid AND 0x1FF))))
        (andthen icache_flush clearDecodeCache))))"

subsection \<open>Atomic instructions\<close>

definition set_reservation :: "bool \<Rightarrow> (Machine, unit) prog" where
  "set_reservation b = upd_cpu (\<lambda>c. c\<lparr>cpu_reservation_valid := b\<rparr>)"

definition execLR_W :: "DecodedInstr \<Rightarrow> (Machine, unit) prog" where
  "execLR_W i = with_rs1 i (\<lambda>va.
    catching
      (bnd (translate va LOAD) (\<lambda>paddr.
       bnd (reg (di_rd i)) (\<lambda>old.
       bnd (bus_read32 paddr) (\<lambda>v.
       andthen (writeReg (di_rd i) v)
       (andthen (upd_cpu (\<lambda>c. c\<lparr>cpu_reservation_addr := paddr, cpu_reservation_valid := True\<rparr>))
         (record_reg i old))))))
      (load_handlers va))"

text \<open>The record of a store is taken after the destination register is written.\<close>

definition record_amo :: "DecodedInstr \<Rightarrow> u32 \<Rightarrow> u32 \<Rightarrow> (Machine, unit) prog" where
  "record_amo i old new = bnd (reg (di_rs1 i)) (\<lambda>addr. record_mem addr old new 4)"

definition execSC_W :: "DecodedInstr \<Rightarrow> (Machine, unit) prog" where
  "execSC_W i = with_rs1 i (\<lambda>va.
    catching
      (bnd (translate va STORE) (\<lambda>paddr.
       bnd (reg (di_rd i)) (\<lambda>old_reg.
       bnd (bus_read32 paddr) (\<lambda>old_mem.
       bnd (get_cpu (\<lambda>c. cpu_reservation_valid c \<and> cpu_reservation_addr c = paddr)) (\<lambda>reserved.
       andthen
         (if reserved then
            bnd (reg (di_rs2 i)) (\<lambda>v.
            andthen (bus_write32 paddr v)
            (andthen (writeReg (di_rd i) 0)
              (bnd (reg (di_rs2 i)) (record_amo i old_mem))))
          else andthen (writeReg (di_rd i) 1) (record_amo i old_mem old_mem))
         (andthen (set_reservation False) (record_reg i old_reg)))))))
      (store_handlers (set_reservation False) va))"

definition exec_amo :: "(u32 \<Rightarrow> u32 \<Rightarrow> u32) \<Rightarrow> DecodedInstr \<Rightarrow> (Machine, unit) prog" where
  "exec_amo f i = with_rs1 i (\<lambda>va.
    catching
      (bnd (reg (di_rd i)) (\<lambda>old_reg.
       bnd (translate va STORE) (\<lambda>paddr.
       if paddr AND 0x3 \<noteq> 0 then raise_exception MISALIGNED_STORE_ADDRESS paddr
       else
         bnd (reg (di_rs2 i)) (\<lambda>operand.
         bnd (atomic_rmw_w paddr (\<lambda>v. f v operand)) (\<lambda>old_mem.
         andthen (writeReg (di_rd i) old_mem)
         (andthen (record_reg i old_reg) (record_amo i old_mem (f old_mem operand))))))))
      (store_handlers (ret ()) va))"

text \<open>\<open>std::max\<close> and \<open>std::min\<close>, signed and unsigned.\<close>

definition smax :: "u32 \<Rightarrow> u32 \<Rightarrow> u32" where
  "smax a b = (if sint a < sint b then b else a)"

definition smin :: "u32 \<Rightarrow> u32 \<Rightarrow> u32" where
  "smin a b = (if sint b < sint a then b else a)"

definition execAMOSWAP_W :: "DecodedInstr \<Rightarrow> (Machine, unit) prog" where
  "execAMOSWAP_W = exec_amo (\<lambda>v operand. operand)"

definition execAMOADD_W :: "DecodedInstr \<Rightarrow> (Machine, unit) prog" where
  "execAMOADD_W = exec_amo (\<lambda>v operand. v + operand)"

definition execAMOAND_W :: "DecodedInstr \<Rightarrow> (Machine, unit) prog" where
  "execAMOAND_W = exec_amo (\<lambda>v operand. v AND operand)"

definition execAMOOR_W :: "DecodedInstr \<Rightarrow> (Machine, unit) prog" where
  "execAMOOR_W = exec_amo (\<lambda>v operand. v OR operand)"

definition execAMOXOR_W :: "DecodedInstr \<Rightarrow> (Machine, unit) prog" where
  "execAMOXOR_W = exec_amo (\<lambda>v operand. v XOR operand)"

definition execAMOMAX_W :: "DecodedInstr \<Rightarrow> (Machine, unit) prog" where
  "execAMOMAX_W = exec_amo smax"

definition execAMOMAXU_W :: "DecodedInstr \<Rightarrow> (Machine, unit) prog" where
  "execAMOMAXU_W = exec_amo max"

definition execAMOMIN_W :: "DecodedInstr \<Rightarrow> (Machine, unit) prog" where
  "execAMOMIN_W = exec_amo smin"

definition execAMOMINU_W :: "DecodedInstr \<Rightarrow> (Machine, unit) prog" where
  "execAMOMINU_W = exec_amo min"

definition execINVALID :: "DecodedInstr \<Rightarrow> (Machine, unit) prog" where
  "execINVALID i = illegal_fetched"

subsection \<open>Dispatch\<close>

text \<open>The table, in the order of the source, and the position of an enumerator in its type.\<close>

definition dispatch :: "(DecodedInstr \<Rightarrow> (Machine, unit) prog) list" where
  "dispatch =
    [execADD, execSUB, execAND, execOR, execXOR, execSLL, execSLT, execSLTU, execSRL,
     execSRA, execADDI, execANDI, execORI, execXORI, execSLTI, execSLTIU, execSLLI,
     execSRLI, execSRAI, execLW, execLH, execLHU, execLB, execLBU, execSW, execSH, execSB,
     execBEQ, execBNE, execBLT, execBGE, execBLTU, execBGEU, execJAL, execJALR, execLUI,
     execAUIPC, execECALL, execEBREAK, execFENCE, execCSRRW, execCSRRS, execCSRRC,
     execCSRRWI, execCSRRSI, execCSRRCI, execMUL, execMULH, execMULHSU, execMULHU, execDIV,
     execDIVU, execREM, execREMU, execMRET, execSRET, execWFI, execSFENCE_VMA, execLR_W,
     execSC_W, execAMOSWAP_W, execAMOADD_W, execAMOAND_W, execAMOOR_W, execAMOXOR_W,
     execAMOMAX_W, execAMOMAXU_W, execAMOMIN_W, execAMOMINU_W, execINVALID]"

fun kind_index :: "InstrKind \<Rightarrow> nat" where
  "kind_index I_ADD = 0"
| "kind_index I_SUB = 1"
| "kind_index I_AND = 2"
| "kind_index I_OR = 3"
| "kind_index I_XOR = 4"
| "kind_index I_SLL = 5"
| "kind_index I_SLT = 6"
| "kind_index I_SLTU = 7"
| "kind_index I_SRL = 8"
| "kind_index I_SRA = 9"
| "kind_index I_ADDI = 10"
| "kind_index I_ANDI = 11"
| "kind_index I_ORI = 12"
| "kind_index I_XORI = 13"
| "kind_index I_SLTI = 14"
| "kind_index I_SLTIU = 15"
| "kind_index I_SLLI = 16"
| "kind_index I_SRLI = 17"
| "kind_index I_SRAI = 18"
| "kind_index I_LW = 19"
| "kind_index I_LH = 20"
| "kind_index I_LHU = 21"
| "kind_index I_LB = 22"
| "kind_index I_LBU = 23"
| "kind_index I_SW = 24"
| "kind_index I_SH = 25"
| "kind_index I_SB = 26"
| "kind_index I_BEQ = 27"
| "kind_index I_BNE = 28"
| "kind_index I_BLT = 29"
| "kind_index I_BGE = 30"
| "kind_index I_BLTU = 31"
| "kind_index I_BGEU = 32"
| "kind_index I_JAL = 33"
| "kind_index I_JALR = 34"
| "kind_index I_LUI = 35"
| "kind_index I_AUIPC = 36"
| "kind_index I_ECALL = 37"
| "kind_index I_EBREAK = 38"
| "kind_index I_FENCE = 39"
| "kind_index I_CSRRW = 40"
| "kind_index I_CSRRS = 41"
| "kind_index I_CSRRC = 42"
| "kind_index I_CSRRWI = 43"
| "kind_index I_CSRRSI = 44"
| "kind_index I_CSRRCI = 45"
| "kind_index I_MUL = 46"
| "kind_index I_MULH = 47"
| "kind_index I_MULHSU = 48"
| "kind_index I_MULHU = 49"
| "kind_index I_DIV = 50"
| "kind_index I_DIVU = 51"
| "kind_index I_REM = 52"
| "kind_index I_REMU = 53"
| "kind_index I_MRET = 54"
| "kind_index I_SRET = 55"
| "kind_index I_WFI = 56"
| "kind_index I_SFENCE_VMA = 57"
| "kind_index I_LR_W = 58"
| "kind_index I_SC_W = 59"
| "kind_index I_AMOSWAP_W = 60"
| "kind_index I_AMOADD_W = 61"
| "kind_index I_AMOAND_W = 62"
| "kind_index I_AMOOR_W = 63"
| "kind_index I_AMOXOR_W = 64"
| "kind_index I_AMOMAX_W = 65"
| "kind_index I_AMOMAXU_W = 66"
| "kind_index I_AMOMIN_W = 67"
| "kind_index I_AMOMINU_W = 68"
| "kind_index I_INVALID = 69"

definition execute :: "DecodedInstr \<Rightarrow> (Machine, unit) prog" where
  "execute i = (dispatch ! kind_index (di_kind i)) i"

text \<open>The handlers that are one line over the shared ones.\<close>

lemmas handler_defs =
  execADD_def execSUB_def execAND_def execOR_def execXOR_def execSLL_def execSLT_def
  execSLTU_def execSRL_def execSRA_def execADDI_def execANDI_def execORI_def execXORI_def
  execSLTI_def execSLTIU_def execSLLI_def execSRLI_def execSRAI_def execLW_def execLH_def
  execLHU_def execLB_def execLBU_def execSW_def execSH_def execSB_def execBEQ_def execBNE_def
  execBLT_def execBGE_def execBLTU_def execBGEU_def execJAL_def execJALR_def execLUI_def
  execAUIPC_def execFENCE_def execCSRRW_def execCSRRS_def execCSRRC_def execCSRRWI_def
  execCSRRSI_def execCSRRCI_def execMUL_def execMULH_def execMULHSU_def execMULHU_def
  execDIV_def execDIVU_def execREM_def execREMU_def execAMOSWAP_W_def execAMOADD_W_def
  execAMOAND_W_def execAMOOR_W_def execAMOXOR_W_def execAMOMAX_W_def execAMOMAXU_W_def
  execAMOMIN_W_def execAMOMINU_W_def execINVALID_def

text \<open>
  The dispatch table is complete and in step with the instruction kinds: every kind has
  an entry, and the entry is the handler of that name.
\<close>

theorem dispatch_correct:
  "length dispatch = 70
   \<and> (\<forall>i. execute i = (case di_kind i of
        I_ADD \<Rightarrow> execADD i
      | I_SUB \<Rightarrow> execSUB i
      | I_AND \<Rightarrow> execAND i
      | I_OR \<Rightarrow> execOR i
      | I_XOR \<Rightarrow> execXOR i
      | I_SLL \<Rightarrow> execSLL i
      | I_SLT \<Rightarrow> execSLT i
      | I_SLTU \<Rightarrow> execSLTU i
      | I_SRL \<Rightarrow> execSRL i
      | I_SRA \<Rightarrow> execSRA i
      | I_ADDI \<Rightarrow> execADDI i
      | I_ANDI \<Rightarrow> execANDI i
      | I_ORI \<Rightarrow> execORI i
      | I_XORI \<Rightarrow> execXORI i
      | I_SLTI \<Rightarrow> execSLTI i
      | I_SLTIU \<Rightarrow> execSLTIU i
      | I_SLLI \<Rightarrow> execSLLI i
      | I_SRLI \<Rightarrow> execSRLI i
      | I_SRAI \<Rightarrow> execSRAI i
      | I_LW \<Rightarrow> execLW i
      | I_LH \<Rightarrow> execLH i
      | I_LHU \<Rightarrow> execLHU i
      | I_LB \<Rightarrow> execLB i
      | I_LBU \<Rightarrow> execLBU i
      | I_SW \<Rightarrow> execSW i
      | I_SH \<Rightarrow> execSH i
      | I_SB \<Rightarrow> execSB i
      | I_BEQ \<Rightarrow> execBEQ i
      | I_BNE \<Rightarrow> execBNE i
      | I_BLT \<Rightarrow> execBLT i
      | I_BGE \<Rightarrow> execBGE i
      | I_BLTU \<Rightarrow> execBLTU i
      | I_BGEU \<Rightarrow> execBGEU i
      | I_JAL \<Rightarrow> execJAL i
      | I_JALR \<Rightarrow> execJALR i
      | I_LUI \<Rightarrow> execLUI i
      | I_AUIPC \<Rightarrow> execAUIPC i
      | I_ECALL \<Rightarrow> execECALL i
      | I_EBREAK \<Rightarrow> execEBREAK i
      | I_FENCE \<Rightarrow> execFENCE i
      | I_CSRRW \<Rightarrow> execCSRRW i
      | I_CSRRS \<Rightarrow> execCSRRS i
      | I_CSRRC \<Rightarrow> execCSRRC i
      | I_CSRRWI \<Rightarrow> execCSRRWI i
      | I_CSRRSI \<Rightarrow> execCSRRSI i
      | I_CSRRCI \<Rightarrow> execCSRRCI i
      | I_MUL \<Rightarrow> execMUL i
      | I_MULH \<Rightarrow> execMULH i
      | I_MULHSU \<Rightarrow> execMULHSU i
      | I_MULHU \<Rightarrow> execMULHU i
      | I_DIV \<Rightarrow> execDIV i
      | I_DIVU \<Rightarrow> execDIVU i
      | I_REM \<Rightarrow> execREM i
      | I_REMU \<Rightarrow> execREMU i
      | I_MRET \<Rightarrow> execMRET i
      | I_SRET \<Rightarrow> execSRET i
      | I_WFI \<Rightarrow> execWFI i
      | I_SFENCE_VMA \<Rightarrow> execSFENCE_VMA i
      | I_LR_W \<Rightarrow> execLR_W i
      | I_SC_W \<Rightarrow> execSC_W i
      | I_AMOSWAP_W \<Rightarrow> execAMOSWAP_W i
      | I_AMOADD_W \<Rightarrow> execAMOADD_W i
      | I_AMOAND_W \<Rightarrow> execAMOAND_W i
      | I_AMOOR_W \<Rightarrow> execAMOOR_W i
      | I_AMOXOR_W \<Rightarrow> execAMOXOR_W i
      | I_AMOMAX_W \<Rightarrow> execAMOMAX_W i
      | I_AMOMAXU_W \<Rightarrow> execAMOMAXU_W i
      | I_AMOMIN_W \<Rightarrow> execAMOMIN_W i
      | I_AMOMINU_W \<Rightarrow> execAMOMINU_W i
      | I_INVALID \<Rightarrow> execINVALID i))"
  by (simp add: dispatch_def execute_def split: InstrKind.split)

end
