(* ===== verification/Cpu.thy ===== *)
theory Cpu
  imports Execute Compressed
begin

section \<open>Fetching, stepping and running\<close>

text \<open>
  src/cpu/cpu.cpp. The host clock is read in \<open>updateCycle\<close>; the elapsed microseconds are an
  argument. The other threads of the program (terminal input, network, the window) act between
  the iterations of \<open>run\<close> as events.
\<close>

unbundle bit_operations_syntax

subsection \<open>Fetching\<close>

definition page_half :: "(nat \<Rightarrow> u8) \<Rightarrow> nat \<Rightarrow> u16" where
  "page_half page i = le16 (page i) (page (i + 1))"

definition fetch_handlers :: "u32 \<Rightarrow> exn \<Rightarrow> (Machine, u32) prog option" where
  "fetch_handlers pc e =
    (if e = BusAccessError then Some (andthen (raise_exception INSTRUCTION_ACCESS_FAULT pc) (ret 0))
     else if e = InstructionPageError then
       Some (andthen (raise_exception INSTRUCTION_PAGE_FAULT pc) (ret 0))
     else None)"

text \<open>The second half of a 32-bit instruction, which may be on the next page.\<close>

definition fetch_second :: "u32 \<Rightarrow> (nat \<Rightarrow> u8) \<Rightarrow> nat \<Rightarrow> (Machine, u16) prog" where
  "fetch_second pc page offset =
    (if offset < 4094 then ret (page_half page (offset + 2))
     else
       bnd (translate (pc + 2) FETCH) (\<lambda>phys_pc2.
       bnd (fetch_page phys_pc2) (\<lambda>page2. ret (page_half page2 0))))"

definition set_instruction :: "u32 \<Rightarrow> (Machine, unit) prog" where
  "set_instruction w = upd_sr (\<lambda>s. s\<lparr>sr_instruction := w\<rparr>)"

text \<open>
  \<open>fetchInstr\<close> uses \<open>pc_\<close> throughout; its argument, which it ignores, is always equal to it. A
  half-word at offset 4095 of a page would be read past the page and is undefined.
\<close>

definition fetchInstr :: "(Machine, u32) prog" where
  "fetchInstr =
    bnd (csr MISA) (\<lambda>misa.
    bnd (get_cpu cpu_pc) (\<lambda>pc.
    catching
      (bnd (get_cpu cpu_misalignment_mask) (\<lambda>msk.
       if pc AND msk \<noteq> 0
       then andthen (raise_exception MISALIGNED_INSTRUCTION pc) (ret 0)
       else
         bnd (translate pc FETCH) (\<lambda>phys_pc.
         bnd (fetch_page phys_pc) (\<lambda>page.
         let offset = unat (phys_pc AND 0xFFF) in
         checked (offset < 4095)
         (let first_half = page_half page offset in
          if first_half AND 0x3 \<noteq> 0x3 then
            (if misa AND 0x4 = 0
             then andthen (raise_exception ILLEGAL_INSTRUCTION (ucast first_half)) (ret 0)
             else andthen (set_instruction (decompress first_half)) (ret 2))
          else
            bnd (fetch_second pc page offset) (\<lambda>second_half.
            andthen (set_instruction (push_bit 16 (ucast second_half) OR ucast first_half))
              (ret 4)))))))
      (fetch_handlers pc)))"

definition decode_index :: "u32 \<Rightarrow> nat" where
  "decode_index pc = unat (drop_bit 1 pc AND (DECODE_CACHE_SIZE - 1))"

definition set_dInstr :: "DecodedInstr \<Rightarrow> (Machine, unit) prog" where
  "set_dInstr d = upd_sr (\<lambda>s. s\<lparr>sr_dInstr := d\<rparr>)"

definition cache_decoded :: "u32 \<Rightarrow> DecodedInstr \<Rightarrow> u32 \<Rightarrow> (Machine, unit) prog" where
  "cache_decoded pc d raw = upd_cpu (\<lambda>c. c\<lparr>cpu_decoded_cache := (cpu_decoded_cache c)(decode_index pc :=
     \<lparr>ce_epoch = cpu_current_epoch c, ce_pc = pc, ce_decoded = d, ce_raw = raw\<rparr>)\<rparr>)"

definition fetch_and_decode :: "u32 \<Rightarrow> (Machine, DecodedInstr) prog" where
  "fetch_and_decode pc =
    bnd (get_cpu (\<lambda>c. (cpu_decoded_cache c (decode_index pc), cpu_current_epoch c))) (\<lambda>(e, epoch).
    if ce_epoch e = epoch \<and> ce_pc e = pc
    then andthen (set_instruction (ce_raw e)) (andthen (set_dInstr (ce_decoded e)) (ret (ce_decoded e)))
    else
      bnd fetchInstr (\<lambda>len.
      bnd (get_cpu cpu_trap_occurred) (\<lambda>trapped.
      if trapped then get_cpu (\<lambda>c. sr_dInstr (cpu_sr c))
      else
        bnd (get_cpu (\<lambda>c. sr_instruction (cpu_sr c))) (\<lambda>raw.
        let di = (decode raw)\<lparr>di_instr_len := len\<rparr> in
        andthen (set_dInstr di) (andthen (cache_decoded pc di raw) (ret di))))))"

subsection \<open>Stepping\<close>

definition clearStep :: "(Machine, unit) prog" where
  "clearStep = upd_cpu (\<lambda>c. c\<lparr>cpu_set_next_pc := False, cpu_trap_occurred := False,
     cpu_sr := (cpu_sr c)\<lparr>sr_dInstr := DecodedInstr0, sr_pc_before := 0, sr_pc_after := 0,
       sr_instruction := 0,
       sr_mem_write := (sr_mem_write (cpu_sr c))\<lparr>mw_valid := False\<rparr>,
       sr_reg_write := (sr_reg_write (cpu_sr c))\<lparr>rw_valid := False\<rparr>,
       sr_csr_write := (sr_csr_write (cpu_sr c))\<lparr>cw_valid := False\<rparr>\<rparr>\<rparr>)"

text \<open>Counting the instruction and moving to the next one.\<close>

definition retire :: "DecodedInstr \<Rightarrow> (Machine, unit) prog" where
  "retire di =
    bnd (csr MINSTRET) (\<lambda>n.
    andthen (set_csr MINSTRET (n + 1))
    (andthen (do_if (n + 1 = 0) (bnd (csr MINSTRETH) (\<lambda>h. set_csr MINSTRETH (h + 1))))
    (bnd (get_cpu (\<lambda>c. if cpu_set_next_pc c then cpu_next_pc c else cpu_pc c + di_instr_len di)) (\<lambda>pc.
     andthen (set_pc pc) (upd_sr (\<lambda>s. s\<lparr>sr_pc_after := pc\<rparr>))))))"

text \<open>\<open>if (trap_occurred_) return sr;\<close> before the rest of the step.\<close>

definition unless_trapped :: "(Machine, unit) prog \<Rightarrow> (Machine, unit) prog" where
  "unless_trapped p = bnd (get_cpu cpu_trap_occurred) (\<lambda>t. if t then ret () else p)"

definition step :: "(Machine, unit) prog" where
  "step =
    andthen clearStep
    (bnd (get_cpu cpu_pc) (\<lambda>pc.
     andthen (upd_sr (\<lambda>s. s\<lparr>sr_pc_before := pc\<rparr>))
     (andthen checkInterrupts
      (unless_trapped
        (bnd (get_cpu cpu_pc) (\<lambda>pc.
         bnd (fetch_and_decode pc) (\<lambda>di.
         unless_trapped (andthen (execute di) (unless_trapped (retire di))))))))))"

text \<open>The value \<open>step\<close> returns is the record it leaves in the state.\<close>

definition step_result :: "Machine \<Rightarrow> StepResult" where
  "step_result m = cpu_sr (em_cpu m)"

subsection \<open>Timers and interrupt lines\<close>

definition set_mip :: "nat \<Rightarrow> bool \<Rightarrow> u32 \<Rightarrow> u32" where
  "set_mip n b mip = (if b then mip OR push_bit n 1 else mip AND NOT (push_bit n 1))"

definition timer_lines :: "bool \<Rightarrow> u32 \<Rightarrow> u32 \<Rightarrow> u32" where
  "timer_lines expired mideleg mip =
    (if expired then
       (let mip = mip OR push_bit 7 1 in
        if tst mideleg 5 then (mip OR push_bit 5 1) AND NOT (push_bit 7 1) else mip)
     else mip AND NOT (push_bit 7 1))"

definition updateCycle_cpu :: "Clint \<Rightarrow> PLIC \<Rightarrow> CPU \<Rightarrow> CPU" where
  "updateCycle_cpu cl pl c =
    (let low = cpu_csrs c MCYCLE + 1;
         high = (if low < cpu_csrs c MCYCLE then cpu_csrs c MCYCLEH + 1 else cpu_csrs c MCYCLEH);
         mip = set_mip 3 (cl_msip cl) (cpu_csrs c MIP);
         mip = timer_lines (cl_mtime cl \<ge> cl_mtimecmp cl) (cpu_csrs c MIDELEG) mip;
         mip = set_mip 11 (m_interrupt_pending pl) mip;
         mip = set_mip 9 (s_interrupt_pending pl) mip
     in c\<lparr>cpu_csrs := (cpu_csrs c)(MCYCLE := low, MCYCLEH := high, CYCLE := low, CYCLEH := high,
            MIP := mip, TIME := ucast (cl_mtime cl), TIMEH := ucast (drop_bit 32 (cl_mtime cl)))\<rparr>)"

definition updateCycle :: "u64 \<Rightarrow> (Machine, unit) prog" where
  "updateCycle elapsed =
    andthen (updates (\<lambda>m. m\<lparr>em_clint := clint_updateMtime elapsed (em_clint m)\<rparr>))
      (updates (\<lambda>m. m\<lparr>em_cpu := updateCycle_cpu (em_clint m) (em_plic m) (em_cpu m)\<rparr>))"

subsection \<open>Running\<close>

text \<open>
  One iteration of the loop of \<open>run\<close>: \<open>counter\<close> is the loop's instruction counter after its
  increment. A waiting processor wakes when an enabled interrupt is pending.
\<close>

definition run_iteration :: "u64 \<Rightarrow> u64 \<Rightarrow> (Machine, unit) prog" where
  "run_iteration counter elapsed =
    andthen (do_if (counter AND 1023 = 0) (updateCycle elapsed))
    (bnd (get_cpu cpu_state) (\<lambda>st.
     if st = WAITING_FOR_INTERRUPT then
       (bnd (get_cpu (\<lambda>c. cpu_csrs c MIP AND cpu_csrs c MIE)) (\<lambda>pending.
        if pending \<noteq> 0 then andthen (set_state ACTIVE) step else ret ()))
     else step))"

text \<open>
  \<open>run\<close> for the given iterations: the clock readings of the host stand for how long it runs, and
  it stops early when the processor is halted. \<open>True\<close> means the loop has ended.
\<close>

fun run_loop :: "u64 \<Rightarrow> u64 list \<Rightarrow> (Machine, bool) prog" where
  "run_loop counter clocks =
    bnd isHalted (\<lambda>halted.
    if halted then ret True
    else (case clocks of
        [] \<Rightarrow> ret False
      | t # rest \<Rightarrow> andthen (run_iteration (counter + 1) t) (run_loop (counter + 1) rest)))"

declare run_loop.simps [simp del]

lemma run_loop_Nil: "run_loop n [] = bnd isHalted (\<lambda>halted. if halted then ret True else ret False)"
  by (subst run_loop.simps) (simp cong: if_cong)

lemma run_loop_Cons: "run_loop n (t # rest) = bnd isHalted (\<lambda>halted. if halted then ret True
    else andthen (run_iteration (n + 1) t) (run_loop (n + 1) rest))"
  by (subst run_loop.simps) (simp cong: if_cong)

definition run :: "u64 list \<Rightarrow> (Machine, bool) prog" where
  "run clocks = andthen (set_state ACTIVE) (run_loop 0 clocks)"

text \<open>\<open>Emulator::emulate\<close>: the exit code, when there is one.\<close>

definition emulate :: "u64 list \<Rightarrow> (Machine, int option) prog" where
  "emulate clocks = catching (bnd (run clocks) (\<lambda>ended. ret (if ended then Some 0 else None)))
     (\<lambda>e. case e of ProgramExit code \<Rightarrow> Some (ret (Some code)) | _ \<Rightarrow> None)"

end
