(* ===== verification/Hart.thy ===== *)
theory Hart
  imports BusFrame Cpu
begin

section \<open>Invariants of the processor\<close>

text \<open>
  The locale \<open>hart_frame\<close> extends \<open>device_frame\<close> with what a property may ask of the processor
  to survive every instruction: it may constrain register 0, the privilege level, \<open>mstatus\<close>, \<open>misa\<close>
  and the alignment mask, and must admit every legal privilege. It is proved once that such a
  property is kept by translation, by each of the seventy handlers, by a step and by the
  run loop; it is interpreted for \<open>machine_ok\<close>, the invariant of the reachable machines.
\<close>

unbundle bit_operations_syntax

definition cpu_mode :: "CPU \<Rightarrow> u32 \<times> PrivilegeLevel \<times> u32 \<times> u32 \<times> u32" where
  "cpu_mode c = (cpu_regs c 0, cpu_privilege_level c, cpu_csrs c MSTATUS, cpu_csrs c MISA,
     cpu_misalignment_mask c)"

lemma kind_index_less: "kind_index k < length dispatch"
  by (cases k) (simp_all add: dispatch_def)

lemma priv_of_MPP: "MPP v \<noteq> 2 \<Longrightarrow> priv_of (drop_bit 11 v AND 0x3) \<noteq> RESERVED2"
  using MPP_cases [of v] by (auto simp: MPP_def [symmetric] priv_of_def)

lemma MPP_mret_status: "MPP (mret_status v) \<noteq> 2"
  unfolding MPP_2 mret_status_def Let_def
  by (simp add: bit_simps)

lemma MPP_sret_status: "MPP v \<noteq> 2 \<Longrightarrow> MPP (sret_status v) \<noteq> 2"
  unfolding MPP_2 sret_status_def Let_def
  by (simp add: bit_simps)

locale hart_frame = device_frame P for P :: "bool \<Rightarrow> Machine \<Rightarrow> bool" +
  assumes mode: "P lk m \<Longrightarrow> cpu_mode c = cpu_mode (em_cpu m) \<Longrightarrow> P lk (m\<lparr>em_cpu := c\<rparr>)"
    and status: "P lk m \<Longrightarrow> MPP v \<noteq> 2 \<Longrightarrow>
      P lk (m\<lparr>em_cpu := (em_cpu m)\<lparr>cpu_csrs := (cpu_csrs (em_cpu m))(MSTATUS := v)\<rparr>\<rparr>)"
    and level: "P lk m \<Longrightarrow> l \<noteq> RESERVED2 \<Longrightarrow>
      P lk (m\<lparr>em_cpu := (em_cpu m)\<lparr>cpu_privilege_level := l\<rparr>\<rparr>)"
    and legal: "P lk m \<Longrightarrow> MPP (cpu_csrs (em_cpu m) MSTATUS) \<noteq> 2
      \<and> cpu_privilege_level (em_cpu m) \<noteq> RESERVED2"
begin

lemma k_mode: "(\<And>c. cpu_mode (f c) = cpu_mode c) \<Longrightarrow> keeps (P lk) (upd_cpu f)"
  unfolding upd_cpu_def by (intro keeps_updates) (blast intro: mode)

lemma switch:
  assumes "P lk m" and "MPP (cpu_csrs c MSTATUS) \<noteq> 2" and "cpu_privilege_level c \<noteq> RESERVED2"
    and "cpu_regs c 0 = cpu_regs (em_cpu m) 0" and "cpu_csrs c MISA = cpu_csrs (em_cpu m) MISA"
    and "cpu_misalignment_mask c = cpu_misalignment_mask (em_cpu m)"
  shows "P lk (m\<lparr>em_cpu := c\<rparr>)"
proof -
  have "MISA \<noteq> MSTATUS" by (simp add: csr_numbers)
  then show ?thesis
    using mode [OF level [OF status [OF assms(1,2)] assms(3)], of c] assms(4-6)
    by (simp add: cpu_mode_def)
qed

lemma trapped:
  assumes "P lk m"
  shows "P lk (m\<lparr>em_cpu := trap_cpu cause tval i (em_cpu m)\<rparr>)"
proof (rule switch [OF assms])
  let ?c = "em_cpu m" and ?d = "trap_cpu cause tval i (em_cpu m)"
  note legal [OF assms]
  then show "cpu_privilege_level ?d \<noteq> RESERVED2"
    by (simp add: trap_cpu_level getTrapTargetLevel_def)
  have "MPP (cpu_csrs (trap_to_machine cause tval i cv (c\<lparr>cpu_trap_occurred := True\<rparr>)) MSTATUS) \<noteq> 2"
    if "cpu_privilege_level c \<noteq> RESERVED2" for c cv
    unfolding MPP_def trap_to_machine_MPP using that by (cases "cpu_privilege_level c") simp_all
  moreover have "MPP (cpu_csrs (trap_to_supervisor cause tval i cv (c\<lparr>cpu_trap_occurred := True\<rparr>)) MSTATUS)
      = MPP (cpu_csrs c MSTATUS)" for c cv
    by (subst word_eq_bits2) (simp_all add: bit_MPP bit_MPP_Suc trap_to_supervisor_mstatus)
  ultimately show "MPP (cpu_csrs ?d MSTATUS) \<noteq> 2"
    using legal [OF assms] by (simp add: trap_cpu_def Let_def)
qed (simp_all add: trap_cpu_def trap_to_machine_def trap_to_supervisor_def Let_def csr_numbers)

lemma k_trap: "keeps (P lk) (trap cause tval i)" "keeps (P lk) (raise_exception e tval)"
  unfolding raise_exception_def trap_def upd_cpu_def by (auto intro!: keeps_updates trapped)

lemma k_set_csr: "a \<noteq> MSTATUS \<Longrightarrow> a \<noteq> MISA \<Longrightarrow> keeps (P lk) (set_csr a v)"
  unfolding set_csr_def by (rule k_mode) (simp add: cpu_mode_def)

lemma k_set_mstatus: "MPP v \<noteq> 2 \<Longrightarrow> keeps (P lk) (set_csr MSTATUS v)"
  unfolding set_csr_def upd_cpu_def by (intro keeps_updates status)

lemma k_set_privilege: "l \<noteq> RESERVED2 \<Longrightarrow> keeps (P lk) (set_privilege l)"
  unfolding set_privilege_def upd_cpu_def by (intro keeps_updates level)

text \<open>What is read from \<open>mstatus\<close> is legal.\<close>

lemma k_mstatus:
  assumes "\<And>v. MPP v \<noteq> 2 \<Longrightarrow> keeps (P lk) (k v)"
  shows "keeps (P lk) (bnd (csr MSTATUS) k)"
  using legal by (intro keepsI)
    (auto simp: bnd_def csr_def get_cpu_def reads_def dest: keeps_Ok [OF assms] keeps_Raise [OF assms])

lemma k_reads: "keeps (P lk) (csr a)" "keeps (P lk) (reg r)"
  unfolding csr_def reg_def by (rule k_get_cpu)+

lemma k_writeReg: "keeps (P lk) (writeReg r v)"
  unfolding writeReg_def by (intro keeps_intros k_mode) (simp add: cpu_mode_def)

lemma k_cpu_flags: "keeps (P lk) (upd_sr f)" "keeps (P lk) (set_pc v)" "keeps (P lk) (jump_to v)" "keeps (P lk) (set_state st)"
  "keeps (P lk) (upd_tlb g)" "keeps (P lk) (set_reservation b)"
  unfolding upd_sr_def set_pc_def jump_to_def set_state_def upd_tlb_def set_reservation_def
  by (rule k_mode; simp add: cpu_mode_def)+

lemmas k_cpu = k_all k_reads k_writeReg k_cpu_flags k_trap

subsection \<open>Control registers\<close>

lemma k_illegal: "keeps (P lk) illegal_csr" "keeps (P lk) is_linux"
  unfolding illegal_csr_def is_linux_def by (auto intro!: k_cpu)

lemma k_readCSR: "keeps (P lk) (readCSR a)"
  unfolding readCSR_def by (intro k_cpu k_illegal)

lemma k_write_pmp:
  "a \<ge> PMPADDR0 \<and> a \<le> PMPADDR0 + 15 \<Longrightarrow> keeps (P lk) (write_pmpaddr a v)"
  "a \<ge> PMPCFG0 \<and> a \<le> PMPCFG0 + 3 \<Longrightarrow> keeps (P lk) (write_pmpcfg a v)"
  unfolding write_pmpaddr_def write_pmpcfg_def
  by (auto intro!: k_cpu k_set_csr simp: csr_numbers word_le_nat_alt)

lemma k_write_csr_switch: "keeps (P lk) (write_csr_switch a v linux)"
proof -
  have "MPP (merge mstatus_mask old (clamp_mpp v)) \<noteq> 2" for old
    by (simp add: MPP_merge_mstatus MPP_clamp)
  moreover have "MPP (merge sstatus_mask old v) \<noteq> 2" if "MPP old \<noteq> 2" for old
  proof -
    have "MPP (merge sstatus_mask old v) = MPP old"
      by (subst word_eq_bits2) (simp_all add: bit_MPP bit_MPP_Suc bit_merge sstatus_mask_def)
    then show ?thesis using that by simp
  qed
  ultimately show ?thesis
    unfolding write_csr_switch_def
    by (intro keeps_if k_mstatus k_cpu k_illegal k_set_mstatus k_write_pmp k_mode k_set_csr)
      (simp_all add: csr_numbers cpu_mode_def)
qed

lemma k_writeCSR: "keeps (P lk) (writeCSR a v)"
  unfolding writeCSR_def by (intro k_cpu k_illegal k_write_csr_switch)

subsection \<open>Translation\<close>

lemma k_fault: "keeps (P lk) (triggerPageFault t :: (Machine, 'b) prog)" "keeps (P lk) (fault_if b t)"
  unfolding fault_if_def triggerPageFault_def by (auto intro!: k_cpu)

lemma k_lookup_tlb: "keeps (P lk) (lookup_tlb vpn asid)"
  by (rule keepsI) (auto simp: lookup_tlb_def cpu_mode_def intro: mode split: prod.splits)

lemma k_fill_tlb: "keeps (P lk) (fill_tlb vpn asid ppn fl sp)"
  unfolding fill_tlb_def by (rule k_mode) (simp add: cpu_mode_def)

lemma k_permissions: "keeps (P lk) (check_tlb_permissions e t l)" "keeps (P lk) (pmp_probe pa t l)"
  unfolding check_tlb_permissions_def pmp_probe_def
  by (auto intro!: k_cpu k_fault split: AccessType.split)

lemma k_walk_leaf: "keeps (P lk) (walk_leaf va t l vpn asid i a pte)"
  unfolding walk_leaf_def by (intro k_cpu k_fault k_fill_tlb k_permissions)

lemma k_read_pte: "keeps (P lk) (read_pte a t)"
  unfolding read_pte_def
  by (rule keeps_catching) (auto intro: k_cpu k_fault split: if_splits)

lemma k_walk_levels: "keeps (P lk) (walk_levels va t l vpn asid levels a)"
  by (induction levels arbitrary: a)
    (simp_all only: walk_levels.simps, (intro k_cpu k_fault k_read_pte k_walk_leaf | assumption)+)

lemma k_translate: "keeps (P lk) (translate va t)"
  unfolding translate_def translate_walk_def
  by (intro k_cpu k_lookup_tlb k_permissions k_walk_levels)

subsection \<open>The handlers\<close>

lemma k_record: "keeps (P lk) (record_reg i old)" "keeps (P lk) (record_mem a old new sz)" "keeps (P lk) (record_csr n old new)"
    "keeps (P lk) (record_amo i old new)"
  unfolding record_reg_def record_mem_def record_csr_def record_amo_def by (auto intro!: k_cpu)

lemma k_commit: "keeps (P lk) (commit i v)"
  unfolding commit_def by (intro k_cpu k_record)

lemma k_operands: "(\<And>a b. keeps (P lk) (f a b)) \<Longrightarrow> keeps (P lk) (with_regs i f)"
    "(\<And>a. keeps (P lk) (g a)) \<Longrightarrow> keeps (P lk) (with_rs1 i g)"
  unfolding with_regs_def with_rs1_def by (auto intro!: k_cpu)

lemma k_illegals: "keeps (P lk) (illegal_raw i)" "keeps (P lk) illegal_fetched"
  unfolding illegal_raw_def illegal_fetched_def by (auto intro!: k_cpu)

lemma k_catch: "keeps (P lk) p \<Longrightarrow> keeps (P lk) (catching p (load_handlers a))"
    "keeps (P lk) p \<Longrightarrow> keeps (P lk) q \<Longrightarrow> keeps (P lk) (catching p (store_handlers q a))"
  by (rule keeps_catching;
      auto simp: load_handlers_def store_handlers_def intro: k_cpu split: if_splits)+

lemmas k_exec = k_cpu k_record k_commit k_operands k_illegals k_catch k_translate

lemma k_exec_load: "(\<And>pa. keeps (P lk) (access pa)) \<Longrightarrow> keeps (P lk) (exec_load access i)"
  unfolding exec_load_def by (intro k_exec)

lemma k_exec_store:
  "(\<And>pa. keeps (P lk) (read pa)) \<Longrightarrow> (\<And>pa v. keeps (P lk) (write pa v)) \<Longrightarrow> keeps (P lk) (exec_store read write sz i)"
  unfolding exec_store_def old_value_def is_verbose_def by (intro k_exec)

lemma k_branch: "keeps (P lk) q \<Longrightarrow> keeps (P lk) (branch_to t q)" "keeps (P lk) (exec_branch taken i)"
  unfolding exec_branch_def branch_to_def by (auto intro!: k_exec)

lemma k_csr_parts:
  "(\<And>v. keeps (P lk) (f v)) \<Longrightarrow> keeps (P lk) (csr_read_then i f)"
  "keeps (P lk) q \<Longrightarrow> keeps (P lk) (csr_write_then b a v q)"
  "keeps (P lk) (record_csr_access i a r old)"
  unfolding csr_read_then_def csr_write_then_def record_csr_access_def
  by (auto intro!: k_exec k_readCSR k_writeCSR)

lemma k_exec_csr: "keeps (P lk) (exec_csr_reg f g i)" "keeps (P lk) (exec_csr_imm f i)"
  unfolding exec_csr_reg_def exec_csr_imm_def by (auto intro!: k_exec k_csr_parts)

lemma k_handleSBI: "keeps (P lk) handleSBI"
proof -
  have mip: "keeps (P lk) (set_csr MIP v)" for v by (rule k_set_csr) (simp_all add: csr_numbers)
  have result: "keeps (P lk) (sbi_result e v)" for e v
    unfolding sbi_result_def by (rule k_mode) (simp add: cpu_mode_def)
  show ?thesis
    unfolding handleSBI_def sbi_done_def clear_mip_def sbi_set_mtimecmp_def sbi_base_def sbi_hsm_def
    by (intro k_cpu mip result clint)
qed

lemma k_exec_amo: "keeps (P lk) (exec_amo f i)"
  unfolding exec_amo_def by (intro k_exec)

lemma k_calls: "keeps (P lk) (execECALL i)" "keeps (P lk) (execEBREAK i)"
  unfolding execECALL_def execEBREAK_def trap_ecall_def by (auto intro!: k_exec k_handleSBI)

lemma k_returns: "keeps (P lk) (execMRET i)" "keeps (P lk) (execSRET i)"
proof -
  show "keeps (P lk) (execMRET i)"
    unfolding execMRET_def
    by (intro k_exec k_mstatus k_set_privilege k_set_mstatus priv_of_MPP MPP_mret_status)
  have p: "(if b then SUPERVISOR else USER) \<noteq> RESERVED2" for b by simp
  show "keeps (P lk) (execSRET i)"
    unfolding execSRET_def
    by (intro k_exec k_mstatus k_set_privilege k_set_mstatus p MPP_sret_status)
qed

lemma k_reservation: "keeps (P lk) (execLR_W i)" "keeps (P lk) (execSC_W i)"
  unfolding execLR_W_def execSC_W_def
  by (auto intro!: k_exec k_mode simp: cpu_mode_def)

lemma k_execWFI: "keeps (P lk) (execWFI i)"
  unfolding execWFI_def by (intro k_exec)

lemma k_execSFENCE_VMA: "keeps (P lk) (execSFENCE_VMA i)"
  unfolding execSFENCE_VMA_def by (intro k_exec)

lemma k_dispatch: "f \<in> set dispatch \<Longrightarrow> keeps (P lk) (f i)"
  unfolding dispatch_def list.set
  by (elim insertE emptyE; hypsubst; (unfold handler_defs)?;
      intro k_exec k_exec_load k_exec_store k_branch k_exec_csr k_csr_parts k_exec_amo
        k_calls k_returns k_execWFI k_execSFENCE_VMA k_reservation)

lemma k_execute: "keeps (P lk) (execute i)"
  unfolding execute_def by (rule k_dispatch) (simp add: kind_index_less)

subsection \<open>Fetching, stepping and running\<close>

lemma k_set_sr: "keeps (P lk) (set_instruction w)" "keeps (P lk) (set_dInstr d)"
  unfolding set_instruction_def set_dInstr_def by (rule k_cpu)+

lemma k_fetchInstr: "keeps (P lk) fetchInstr"
proof -
  have catch: "keeps (P lk) p \<Longrightarrow> keeps (P lk) (catching p (fetch_handlers pc))" for p pc
    by (rule keeps_catching) (auto simp: fetch_handlers_def intro!: k_cpu split: if_splits)
  show ?thesis
    unfolding fetchInstr_def fetch_second_def
    by (intro keeps_bnd catch k_reads k_get_cpu; intro k_cpu k_translate k_set_sr)
qed

lemma k_fetch_and_decode: "keeps (P lk) (fetch_and_decode pc)"
  unfolding fetch_and_decode_def cache_decoded_def
  by (intro k_cpu k_fetchInstr k_set_sr k_mode) (simp add: cpu_mode_def)

lemma k_checkInterrupts: "keeps (P lk) checkInterrupts"
  unfolding checkInterrupts_def checkInterrupts_cpu_def upd_cpu_def
  by (intro keeps_updates) (auto intro: mode trapped split: option.splits)

lemma k_retire: "keeps (P lk) (retire di)"
  unfolding retire_def by (intro k_cpu k_set_csr; simp add: csr_numbers)

lemma k_step: "keeps (P lk) step"
  unfolding step_def unless_trapped_def clearStep_def
  by (intro k_cpu k_checkInterrupts k_fetch_and_decode k_execute k_retire k_mode) (simp add: cpu_mode_def)

lemma k_updateCycle: "keeps (P lk) (updateCycle elapsed)"
  unfolding updateCycle_def
  by (intro keeps_intros clint mode; simp add: updateCycle_cpu_def Let_def cpu_mode_def csr_numbers)

lemma k_run_iteration: "keeps (P lk) (run_iteration n elapsed)"
  unfolding run_iteration_def by (intro k_cpu k_updateCycle k_step)

lemma k_run_loop: "keeps (P lk) (run_loop n clocks)"
  by (induction clocks arbitrary: n)
    (simp_all only: run_loop_Nil run_loop_Cons isHalted_def, (intro k_cpu k_run_iteration | assumption)+)

lemma k_run: "keeps (P lk) (run clocks)"
  unfolding run_def by (intro k_cpu k_run_loop)

end

end
