(* ===== verification/Loader.thy ===== *)
theory Loader
  imports Cpu
begin

section \<open>Loading and starting\<close>

text \<open>
  src/elf/elf.cpp, src/elf/binary.cpp, the rest of src/emulator.cpp and src/main.cpp. The
  file system is the argument \<open>fs\<close>: the bytes of a file, or \<open>None\<close> when it does not open.
\<close>

unbundle bit_operations_syntax

type_synonym filesystem = "string \<Rightarrow> u8 list option"

subsection \<open>Files\<close>

text \<open>
  A \<open>std::ifstream\<close>: its bytes, position and failure bit. A file that does not open has the bit
  set from the start; a failed stream neither moves nor delivers.
\<close>

record Stream =
  st_data :: "u8 list"
  st_pos :: nat
  st_fail :: bool

definition stream_open :: "u8 list option \<Rightarrow> Stream" where
  "stream_open file = (case file of
       None \<Rightarrow> \<lparr>st_data = [], st_pos = 0, st_fail = True\<rparr>
     | Some bytes \<Rightarrow> \<lparr>st_data = bytes, st_pos = 0, st_fail = False\<rparr>)"

definition stream_seek :: "nat \<Rightarrow> Stream \<Rightarrow> Stream" where
  "stream_seek pos s = (if st_fail s then s else s\<lparr>st_pos := pos\<rparr>)"

definition stream_read :: "nat \<Rightarrow> Stream \<Rightarrow> u8 list \<times> Stream" where
  "stream_read n s =
    (if st_fail s then ([], s)
     else (let bytes = take n (drop (st_pos s) (st_data s))
           in (bytes, s\<lparr>st_pos := st_pos s + length bytes, st_fail := length bytes < n\<rparr>)))"

text \<open>
  A field of a structure that was read: \<open>None\<close>, an uninitialised value, when the file was too
  short for it.
\<close>

definition field16 :: "nat \<Rightarrow> u8 list \<Rightarrow> u16 option" where
  "field16 i bs = (if i + 2 \<le> length bs then Some (le16 (bs ! i) (bs ! (i + 1))) else None)"

definition field32 :: "nat \<Rightarrow> u8 list \<Rightarrow> u32 option" where
  "field32 i bs = (if i + 4 \<le> length bs
     then Some (le32 (bs ! i) (bs ! (i + 1)) (bs ! (i + 2)) (bs ! (i + 3))) else None)"

definition EHDR_SIZE :: nat where "EHDR_SIZE = 52"
definition PHDR_SIZE :: nat where "PHDR_SIZE = 32"

definition e_machine :: "u8 list \<Rightarrow> u16 option" where "e_machine = field16 18"
definition e_entry :: "u8 list \<Rightarrow> u32 option" where "e_entry = field32 24"
definition e_phoff :: "u8 list \<Rightarrow> u32 option" where "e_phoff = field32 28"
definition e_phnum :: "u8 list \<Rightarrow> u16 option" where "e_phnum = field16 44"
definition p_type :: "u8 list \<Rightarrow> u32 option" where "p_type = field32 0"
definition p_offset :: "u8 list \<Rightarrow> u32 option" where "p_offset = field32 4"
definition p_paddr :: "u8 list \<Rightarrow> u32 option" where "p_paddr = field32 12"
definition p_filesz :: "u8 list \<Rightarrow> u32 option" where "p_filesz = field32 16"
definition p_memsz :: "u8 list \<Rightarrow> u32 option" where "p_memsz = field32 20"

subsection \<open>Images\<close>

definition load_binary :: "filesystem \<Rightarrow> string \<Rightarrow> u32 \<Rightarrow> (Machine, unit) prog" where
  "load_binary fs filename addr = (case fs filename of
       None \<Rightarrow> throw (RuntimeError ''Error: Unable to open binary'')
     | Some bytes \<Rightarrow> bus_load_binary bytes addr)"

text \<open>
  A loadable segment: the bytes the file has for it, zeros for those it lacks, and zeros up to
  its size in memory. The stream is put back where it was.
\<close>

definition load_segment :: "u8 list \<Rightarrow> Stream \<Rightarrow> (Machine, Stream) prog" where
  "load_segment phdr s =
    bnd (defined (p_filesz phdr)) (\<lambda>filesz.
    bnd (defined (p_offset phdr)) (\<lambda>offset.
    case stream_read (unat filesz) (stream_seek (unat offset) s) of (bytes, t) \<Rightarrow>
    let buffer = bytes @ replicate (unat filesz - length bytes) 0 in
    bnd (defined (p_paddr phdr)) (\<lambda>paddr.
    bnd (defined (p_memsz phdr)) (\<lambda>memsz.
    andthen (bus_write_bytes paddr (buffer @ replicate (unat memsz - unat filesz) 0))
      (ret (stream_seek (st_pos s) t))))))"

fun load_segments :: "nat \<Rightarrow> Stream \<Rightarrow> (Machine, unit) prog" where
  "load_segments 0 s = ret ()"
| "load_segments (Suc n) s =
    (case stream_read PHDR_SIZE s of (phdr, s) \<Rightarrow>
     bnd (defined (p_type phdr)) (\<lambda>type.
     bnd (if type = 1 then load_segment phdr s else ret s) (load_segments n)))"

definition load_elf :: "filesystem \<Rightarrow> string \<Rightarrow> (Machine, unit) prog" where
  "load_elf fs filename =
    (case stream_read EHDR_SIZE (stream_open (fs filename)) of (header, s) \<Rightarrow>
     bnd (defined (e_machine header)) (\<lambda>machine.
     if machine \<noteq> 0xF3 then throw (RuntimeError ''[ERROR] Not a RISC-V ELF'')
     else
       bnd (defined (e_entry header)) (\<lambda>entry.
       andthen (setPC entry)
       (bnd (defined (e_phoff header)) (\<lambda>phoff.
        bnd (defined (e_phnum header)) (\<lambda>phnum.
        load_segments (unat phnum) (stream_seek (unat phoff) s)))))))"

subsection \<open>The emulator\<close>

text \<open>
  \<open>Bus::init_devices\<close>: \<open>net_ok\<close> says whether the network backend starts. The window it may open is
  not part of the state.
\<close>

definition net_init :: "bool \<Rightarrow> (Machine, unit) prog" where
  "net_init net_ok = (if net_ok then upd_net (\<lambda>n. n\<lparr>vn_backend := True\<rparr>)
     else throw (RuntimeError ''[virtio-net] failed''))"

definition init_devices :: "filesystem \<Rightarrow> bool \<Rightarrow> string \<Rightarrow> string \<Rightarrow> (Machine, unit) prog" where
  "init_devices fs net_ok disk_path tap_name =
    andthen (do_if (disk_path \<noteq> []) (blk_init (fs disk_path)))
      (do_if (tap_name \<noteq> []) (net_init net_ok))"

definition initialize :: "filesystem \<Rightarrow> bool \<Rightarrow> (Machine, unit) prog" where
  "initialize fs net_ok =
    bnd (reads em_config) (\<lambda>cfg.
    let p = ec_profile cfg in
    if pf_elf_path p = [] \<and> pf_bin_path p = []
    then throw (RuntimeError ''[ERROR] Missing ELF/Bin path...'')
    else if cc_mode (ec_cpu_config cfg) = SYSTEM_MODE \<and> pf_disk_path p = []
    then throw (RuntimeError ''[ERROR] Missing disk path for system level execution...'')
    else
      andthen (init_devices fs net_ok (pf_disk_path p) (pf_tap_name p))
      (andthen
        (if pf_opensbi_path p = [] then
           (if pf_elf_path p \<noteq> [] then load_elf fs (pf_elf_path p)
            else load_binary fs (pf_bin_path p) (pf_dram_start p))
         else andthen (load_elf fs (pf_opensbi_path p))
           (load_binary fs (pf_bin_path p) (pf_kernel_address p)))
        (do_if (pf_dtb_path p \<noteq> []) (load_binary fs (pf_dtb_path p) (pf_dtb_address p)))))"

text \<open>
  \<open>main\<close> on a profile that was read: the configuration made of it, and the exit code. \<open>env\<close> is the
  test input of the serial port, \<open>junk\<close> the uninitialised memory of the processor; \<open>None\<close> as an
  exit code says that the program is still running.
\<close>

definition main_config :: "Profile \<Rightarrow> EmulatorConfig" where
  "main_config p = \<lparr>ec_profile = p, ec_cpu_config =
     \<lparr>cc_mode = (if pf_platform p = BARE_METAL then BARE_METAL_MODE else SYSTEM_MODE),
      cc_extensions = pf_extensions p, cc_starting_pc = pf_starting_pc p\<rparr>\<rparr>"

definition Emulator_start :: "EmulatorConfig \<Rightarrow> u8 list \<Rightarrow> CPU \<Rightarrow> Machine" where
  "Emulator_start cfg env junk = (Emulator_new cfg junk)\<lparr>em_uart := load_test_input env UART0\<rparr>"

definition is_runtime_error :: "exn \<Rightarrow> bool" where
  "is_runtime_error e \<longleftrightarrow> e \<noteq> OutOfRange"

definition main_run ::
  "filesystem \<Rightarrow> bool \<Rightarrow> u8 list \<Rightarrow> CPU \<Rightarrow> u64 list \<Rightarrow> Profile \<Rightarrow> (int option, Machine) result" where
  "main_run fs net_ok env junk clocks p =
     catching (andthen (initialize fs net_ok) (emulate clocks))
       (\<lambda>e. if is_runtime_error e then Some (ret (Some 1)) else None)
       (Emulator_start (main_config p) env junk)"

end
