(* ===== verification/System.thy ===== *)
theory System
  imports Hart Loader
begin

section \<open>The reachable machines\<close>

text \<open>
  The program as a transition system: a machine is started by the loader and then changes by
  iterations of the processor loop and by what the other threads do (typed bytes, key events,
  network frames, a halt). The invariant \<open>machine_ok\<close> holds in every reachable machine.
\<close>

unbundle bit_operations_syntax

subsection \<open>Events\<close>

datatype event =
    Iteration u64 u64
  | TypedByte bool u8
  | KeyEvent Event
  | NetworkFrame "u8 list"

text \<open>
  The input thread halts the processor when the escape sequence asks for it. The flag says whether the
  input is a terminal.
\<close>

definition typed_byte :: "bool \<Rightarrow> u8 \<Rightarrow> (Machine, unit) prog" where
  "typed_byte inst b = bnd (state_uart (\<lambda>u. case input_thread_body inst b u of (v, irq, hlt) \<Rightarrow> ((irq, hlt), v))) (\<lambda>(irq, hlt).
     andthen (do_if irq (raise_irq UART_IRQ)) (do_if hlt halt))"

fun event_prog :: "event \<Rightarrow> (Machine, unit) prog" where
  "event_prog (Iteration counter elapsed) =
     bnd isHalted (\<lambda>halted. if halted then ret () else run_iteration counter elapsed)"
| "event_prog (TypedByte inst b) = typed_byte inst b"
| "event_prog (KeyEvent e) = state_input (\<lambda>d. ((), push_event e d))"
| "event_prog (NetworkFrame bytes) = rx_inject bytes"

inductive reachable :: "EmulatorConfig \<Rightarrow> Machine \<Rightarrow> bool" for cfg where
  started: "initialize fs net_ok (Emulator_start cfg env junk) = Ok () m \<Longrightarrow>
    set_state ACTIVE m = Ok () m' \<Longrightarrow> reachable cfg m'"
| stepped: "reachable cfg m \<Longrightarrow> event_prog e m = Ok () m' \<Longrightarrow> reachable cfg m'"

subsection \<open>The invariant\<close>

definition machine_ok :: "EmulatorConfig \<Rightarrow> bool \<Rightarrow> Machine \<Rightarrow> bool" where
  "machine_ok cfg lk m \<longleftrightarrow>
     em_config m = cfg
     \<and> cpu_regs (em_cpu m) 0 = 0
     \<and> cpu_privilege_level (em_cpu m) \<noteq> RESERVED2
     \<and> MPP (cpu_csrs (em_cpu m) MSTATUS) \<noteq> 2
     \<and> cpu_csrs (em_cpu m) MISA = misa_of (ec_cpu_config cfg)
     \<and> cpu_misalignment_mask (em_cpu m) = (if ext_c (cc_extensions (ec_cpu_config cfg)) then 1 else 3)
     \<and> vn_locked (em_net m) = lk"

lemma cpu_core_mode: "cpu_core c = cpu_core d \<Longrightarrow> cpu_mode c = cpu_mode d"
proof -
  assume e: "cpu_core c = cpu_core d"
  have "cpu_mode c = cpu_mode (cpu_core c)" for c by (simp add: cpu_mode_def cpu_core_def)
  then show ?thesis using e by metis
qed

interpretation hart: hart_frame "machine_ok cfg"
proof unfold_locales
  show "machine_ok cfg lk (m\<lparr>em_cpu := c\<rparr>)"
    if "machine_ok cfg lk m" "cpu_core c = cpu_core (em_cpu m)" for m c lk
    using that cpu_core_mode [of c "em_cpu m"] by (simp add: machine_ok_def cpu_mode_def)
qed (auto simp: machine_ok_def cpu_mode_def net_unlock_def csr_numbers)

subsection \<open>Events keep the invariant\<close>

context hart_frame
begin

lemma k_load_binary: "keeps (P lk) (load_binary fs name addr)"
  unfolding load_binary_def bus_load_binary_def by (intro k_cpu k_dma)

lemma k_load_segments: "keeps (P lk) (load_segments n s)"
proof (induction n arbitrary: s)
  case (Suc n)
  then show ?case
    unfolding load_segments.simps load_segment_def by (intro k_cpu)
qed (simp add: keeps_ret)

lemma k_load_elf: "keeps (P lk) (load_elf fs name)"
  unfolding load_elf_def setPC_def by (intro k_cpu k_load_segments)

lemma k_initialize: "keeps (P lk) (initialize fs net_ok)"
  unfolding initialize_def init_devices_def blk_init_def net_init_def
  by (intro k_cpu k_load_elf k_load_binary k_net) simp

lemma k_event: "keeps (P lk) (event_prog e)"
  by (cases e)
    (simp_all only: event_prog.simps typed_byte_def isHalted_def halt_def,
      (intro k_cpu k_run_iteration)+)

lemma reachable_P:
  assumes "reachable cfg m" and start: "\<And>env junk. P False (Emulator_start cfg env junk)"
  shows "P False m"
  using assms(1)
proof (induction rule: reachable.induct)
  case (started fs net_ok env junk m m')
  then show ?case
    using keeps_Ok [OF k_cpu_flags(4) keeps_Ok [OF k_initialize start started(1)] started(2)] by simp
next
  case (stepped m e m')
  then show ?case using keeps_Ok [OF k_event stepped.IH stepped.hyps(2)] by simp
qed

end

lemma start_ok: "machine_ok cfg False (Emulator_start cfg env junk)"
  by (simp add: machine_ok_def Emulator_start_def Emulator_new_def CPU_new_def VirtioNet0_def
      csr_numbers MPP_def)

text \<open>
  C5. In every reachable machine the configuration is the one it was started with, register 0
  is zero, the privilege level and the saved one in \<open>mstatus\<close> are legal, \<open>misa\<close> and the alignment
  mask are those of the configuration, and the mutex of the network device is free.
\<close>

theorem reachable_invariant:
  assumes "reachable cfg m"
  shows "em_config m = cfg
    \<and> cpu_regs (em_cpu m) 0 = 0
    \<and> cpu_privilege_level (em_cpu m) \<in> {USER, SUPERVISOR, MACHINE}
    \<and> MPP (cpu_csrs (em_cpu m) MSTATUS) \<in> {0, 1, 3}
    \<and> cpu_csrs (em_cpu m) MISA = misa_of (ec_cpu_config cfg)
    \<and> cpu_misalignment_mask (em_cpu m) = (if ext_c (cc_extensions (ec_cpu_config cfg)) then 1 else 3)
    \<and> \<not> vn_locked (em_net m)"
proof -
  have ok: "machine_ok cfg False m"
    using hart.reachable_P [OF assms] start_ok by blast
  moreover have "cpu_privilege_level (em_cpu m) \<in> {USER, SUPERVISOR, MACHINE}"
    using ok by (cases "cpu_privilege_level (em_cpu m)") (simp_all add: machine_ok_def)
  moreover obtain p where "MPP (cpu_csrs (em_cpu m) MSTATUS) = priv_num p" using MPP_cases by blast
  then have "MPP (cpu_csrs (em_cpu m) MSTATUS) \<in> {0, 1, 3}"
    using ok by (cases p) (simp_all add: machine_ok_def)
  ultimately show ?thesis by (simp add: machine_ok_def)
qed

text \<open>A machine started on an executable without segments.\<close>

definition tiny_elf :: "u8 list" where
  "tiny_elf = replicate 18 0 @ [0xF3, 0] @ replicate 32 0"

theorem reachable_invariant_witness:
  "\<exists>m. reachable demo_config m \<and> cpu_regs (em_cpu m) 0 = 0 \<and> \<not> vn_locked (em_net m)"
proof -
  let ?fs = "\<lambda>f. Some tiny_elf"
  have elf: "length tiny_elf = 52" "tiny_elf ! 18 = 0xF3" "tiny_elf ! 19 = 0"
    by (simp_all add: tiny_elf_def nth_append)
  have 0: "tiny_elf ! i = 0" if "20 \<le> i" "i < 52" for i
    using that by (simp add: tiny_elf_def nth_append)
  have "\<exists>m. initialize ?fs True (Emulator_start demo_config [] zero_cpu) = Ok () m"
    by (simp add: initialize_def init_devices_def blk_init_def load_elf_def stream_open_def
        stream_read_def stream_seek_def EHDR_SIZE_def e_machine_def e_entry_def e_phoff_def e_phnum_def
        field16_def field32_def elf 0 le16_def le32_def setPC_def upd_blk_def
        Emulator_start_def Emulator_new_def demo_config_def mach_simps)
  then obtain m where m: "initialize ?fs True (Emulator_start demo_config [] zero_cpu) = Ok () m" ..
  have "reachable demo_config (m\<lparr>em_cpu := (em_cpu m)\<lparr>cpu_state := ACTIVE\<rparr>\<rparr>)"
    by (rule reachable.started [OF m]) (simp add: mach_simps)
  from this reachable_invariant [OF this] show ?thesis by blast
qed

end
