(* ===== verification/Errors.thy ===== *)
theory Errors
  imports System
begin

section \<open>Which exceptions escape\<close>

text \<open>
  \<open>raises E p\<close>: whatever \<open>p\<close> throws is in \<open>E\<close>. Bus accesses throw only bus errors and the two
  program exits, translation adds the page fault of its access type, and every handler
  catches what it can cause, so that a step throws nothing but a program exit.
\<close>

unbundle bit_operations_syntax

definition raises :: "exn set \<Rightarrow> ('s, 'a) prog \<Rightarrow> bool" where
  "raises E p \<longleftrightarrow> (\<forall>s e t. p s = Raise e t \<longrightarrow> e \<in> E)"

lemma raisesI: "(\<And>s e t. p s = Raise e t \<Longrightarrow> e \<in> E) \<Longrightarrow> raises E p"
  by (simp add: raises_def)

lemma raisesD: "raises E p \<Longrightarrow> p s = Raise e t \<Longrightarrow> e \<in> E"
  unfolding raises_def by blast

lemma raises_mono: "raises E p \<Longrightarrow> E \<subseteq> F \<Longrightarrow> raises F p"
  by (auto simp: raises_def)

lemma r_basic:
  "raises E (ret a)" "raises E (reads f)" "raises E (updates g)" "raises E undef"
  "raises E (defined x)" "raises E (\<lambda>s. NoFuel)" "raises E (\<lambda>s. Ok (f1 s) (f2 s))"
  by (simp_all add: raises_def prog_simps split: option.splits)

lemma r_throw: "e \<in> E \<Longrightarrow> raises E (throw e)"
  by (simp add: raises_def prog_simps)

lemma r_bnd:
  assumes "raises E p" and "\<And>a. raises E (k a)"
  shows "raises E (bnd p k)"
proof (rule raisesI)
  fix s e t
  assume "bnd p k s = Raise e t"
  then consider "p s = Raise e t" | a u where "k a u = Raise e t"
    by (auto simp: bnd_def split: result.splits)
  then show "e \<in> E" using raisesD [OF assms(1)] raisesD [OF assms(2)] by cases blast+
qed

lemma r_andthen: "raises E p \<Longrightarrow> raises E q \<Longrightarrow> raises E (andthen p q)"
  by (simp add: andthen_def r_bnd)

lemma r_if: "(b \<Longrightarrow> raises E p) \<Longrightarrow> (\<not> b \<Longrightarrow> raises E q) \<Longrightarrow> raises E (if b then p else q)"
  by simp

lemma r_do_if: "(b \<Longrightarrow> raises E p) \<Longrightarrow> raises E (do_if b p)"
  by (simp add: do_if_def r_basic)

lemma r_let: "(\<And>a. raises E (q a)) \<Longrightarrow> raises E (let a = x in q a)"
  by (simp add: Let_def)

lemma r_prod: "(\<And>a b. raises E (q a b)) \<Longrightarrow> raises E (case x of (a, b) \<Rightarrow> q a b)"
  by (cases x) simp

lemma r_option: "raises E p \<Longrightarrow> (\<And>a. raises E (q a)) \<Longrightarrow> raises E (case x of None \<Rightarrow> p | Some a \<Rightarrow> q a)"
  by (cases x) simp_all

text \<open>A \<open>try\<close> block: an exception of the body is passed on or handled.\<close>

lemma r_catching:
  assumes "raises F p" and "\<And>e q. e \<in> F \<Longrightarrow> h e = Some q \<Longrightarrow> raises E q"
    and "\<And>e. e \<in> F \<Longrightarrow> h e = None \<Longrightarrow> e \<in> E"
  shows "raises E (catching p h)"
proof (rule raisesI)
  fix s e t
  assume r: "catching p h s = Raise e t"
  show "e \<in> E"
  proof (cases "p s")
    case (Raise f u)
    then have "f \<in> F" by (rule raisesD [OF assms(1)])
    show ?thesis
    proof (cases "h f")
      case None
      then show ?thesis using r Raise assms(3) [OF \<open>f \<in> F\<close>] by (simp add: catching_def)
    next
      case (Some q)
      then show ?thesis
        using r Raise raisesD [OF assms(2) [OF \<open>f \<in> F\<close> Some]] by (simp add: catching_def)
    qed
  qed (use r in \<open>simp_all add: catching_def\<close>)
qed

lemmas r_intros = r_basic r_bnd r_andthen r_if r_do_if r_let r_prod r_option

subsection \<open>The bus\<close>

definition exits :: "exn set" where
  "exits = {ProgramExit 0, ProgramExit 1}"

definition bus_errors :: "exn set" where
  "bus_errors = insert BusAccessError exits"

lemma error_sets: "BusAccessError \<in> bus_errors" "ProgramExit 0 \<in> bus_errors" "ProgramExit 1 \<in> bus_errors"
    "ProgramExit 0 \<in> exits" "ProgramExit 1 \<in> exits"
  by (simp_all add: bus_errors_def exits_def)

lemma r_machine:
  "raises E (upd_cpu f)" "raises E (get_cpu f1)" "raises E (reg r)" "raises E (csr a)" "raises E (set_csr a v)"
  "raises E (writeReg r v)" "raises E (jump_to t)" "raises E (set_state st)" "raises E (upd_sr f2)"
  "raises E (set_pc pc)" "raises E (set_privilege p)"
  "raises E (state_plic g1)" "raises E (state_uart g2)" "raises E (state_input g3)" "raises E (state_blk g4)"
  "raises E (raise_irq i)" "raises E (notify_store addr)" "raises E (upd_net h1)" "raises E (get_net h2)"
  "raises E (upd_blk h3)" "raises E (get_blk h4)" "raises E (irq_uart h5)" "raises E clearDecodeCache"
  "raises E icache_flush" "raises E (upd_queue q u)" "raises E (get_queue q w)"
  by (auto simp: raises_def mach_simps state_plic_def state_uart_def state_input_def state_blk_def
      raise_irq_def notify_store_def invalidateReservation_def invalidate_page_def clearDecodeCache_def
      icache_flush_def upd_net_def get_net_def upd_blk_def get_blk_def irq_uart_def upd_queue_def
      get_queue_def split: prod.splits if_splits)

lemmas r_simple = r_intros r_machine

lemma r_checked: "raises E p \<Longrightarrow> raises E (checked b p)"
  by (simp add: checked_def r_basic)

lemma r_net_locked:
  assumes "raises E p"
  shows "raises E (net_locked p)"
  by (rule raisesI) (auto simp: net_locked_def split: if_splits result.splits dest: raisesD [OF assms])

lemma r_plic: "raises E (with_plic (plic_write32 offset v))"
proof -
  have "raises E (plic_write32 offset v)"
    unfolding plic_write32_def by (intro r_intros)
  then show ?thesis
    by (intro raisesI) (auto simp: with_plic_def split: result.splits dest: raisesD [where E = E])
qed

lemma r_net_read: "raises E (net_read32 offset)" "raises E (net_read8 offset)"
  unfolding net_read8_def net_read32_def by (intro r_simple r_net_locked)+

lemma r_bus_read:
  "raises bus_errors (bus_read8 addr)" "raises bus_errors (bus_read16 addr)"
  "raises bus_errors (bus_read32 addr)" "raises bus_errors (phys_ptr addr)"
  unfolding bus_read8_def bus_read16_def bus_read32_def phys_ptr_def
  by (intro r_simple r_checked r_net_read r_throw error_sets)+

lemma r_bus_read_bytes: "raises bus_errors (bus_read_bytes addr n)"
  by (induction n arbitrary: addr) (simp_all only: bus_read_bytes.simps, (intro r_simple r_bus_read | assumption)+)

lemma r_bus_write8: "raises E (bus_write8 addr v)" "raises E (bus_write16 addr w)"
  unfolding bus_write8_def bus_write16_def by (intro r_simple r_checked)+

lemma r_bus_write_bytes: "raises E (bus_write_bytes addr bs)"
  by (induction bs arbitrary: addr)
    (simp_all only: bus_write_bytes.simps, (intro r_simple r_bus_write8 | assumption)+)

lemmas r_bus = r_simple r_checked r_bus_read r_bus_read_bytes r_bus_write8 r_bus_write_bytes

lemma r_blk_write32:
  assumes "\<And>a v. raises bus_errors (w32 a v)"
  shows "raises bus_errors (blk_write32 w32 offset v)"
proof -
  have dma: "raises E (dma_to_dram a bs)" for E a bs
    unfolding dma_to_dram_def by (intro r_bus)
  have request: "raises bus_errors (handle_request head)" for head
    unfolding handle_request_def blk_read_desc_def blk_transfer_in_def blk_transfer_out_def
      upd_disk_def disk_failed_def disk_read_into_def
    by (intro r_bus dma)
  have loop: "raises bus_errors (blk_loop n w32 i)" for n i
    by (induction n)
      (simp_all only: blk_loop.simps blk_round_def blk_complete_def, (intro r_bus request assms | assumption)+)
  show ?thesis
    unfolding blk_write32_def blk_process_queue_def by (intro r_bus loop)
qed

lemma r_net_parts:
  assumes "\<And>a v. raises bus_errors (w32 a v)"
  shows "raises bus_errors (push_used w32 q head len)"
    and "raises bus_errors (net_read_desc idx q)" and "raises E net_raise"
  unfolding push_used_def net_read_desc_def net_raise_def by (intro r_bus assms)+

lemma r_net_write32:
  assumes w32: "\<And>a v. raises bus_errors (w32 a v)"
  shows "raises bus_errors (net_write32 w32 offset v)"
proof -
  note parts = r_net_parts [of w32, OF w32]
  have chain: "raises bus_errors (tx_chain n cur first pkt)" for n cur first pkt
    by (induction n arbitrary: cur first pkt)
      (simp_all only: tx_chain.simps, (intro r_bus parts | assumption)+)
  have send: "raises E (platform_send pkt)" for E pkt
    unfolding platform_send_def by (intro r_bus)
  have loop: "raises bus_errors (tx_loop n w32 i)" for n i
    by (induction n)
      (simp_all only: tx_loop.simps, (intro r_bus parts chain send | assumption)+)
  show ?thesis
    unfolding net_write32_def net_write_locked_def process_tx_queue_def upd_selected_def
    by (intro r_net_locked r_bus loop parts)
qed

lemma r_bus_write32: "raises bus_errors (bus_write32 addr v)"
proof -
  have "raises bus_errors (bus_write32_at d addr v)" for d
  proof (induction d arbitrary: addr v)
    case (Suc d)
    then show ?case
      unfolding bus_write32_at.simps
      by (intro r_bus r_throw error_sets r_plic r_blk_write32 r_net_write32)
  qed (simp add: r_basic)
  then show ?thesis by (simp add: bus_write32_def)
qed

text \<open>A frame from the network can only fail with the same errors.\<close>

lemma r_rx_inject: "raises bus_errors (rx_inject frame)"
proof -
  note parts = r_net_parts [of bus_write32, OF r_bus_write32]
  have chain: "raises bus_errors (rx_chain n cur first written bs)" for n cur first written bs
    by (induction n arbitrary: cur first written)
      (simp_all only: rx_chain.simps, (intro r_bus parts | assumption)+)
  show ?thesis
    unfolding rx_inject_def rx_inject_with_def rx_inject_locked_def
    by (intro r_net_locked r_bus chain parts)
qed

subsection \<open>Translation\<close>

lemma r_fault: "page_fault t \<in> E \<Longrightarrow> raises E (triggerPageFault t)"
    "page_fault t \<in> E \<Longrightarrow> raises E (fault_if b t)"
  unfolding fault_if_def triggerPageFault_def by (auto intro!: r_intros r_throw)

definition access_errors :: "AccessType \<Rightarrow> exn set" where
  "access_errors t = insert (page_fault t) bus_errors"

lemma access_error_sets: "page_fault t \<in> access_errors t" "bus_errors \<subseteq> access_errors t"
  by (auto simp: access_errors_def)

lemmas r_widened = raises_mono [OF _ access_error_sets(2)]

lemma r_translate: "raises (access_errors t) (translate va t)"
proof -
  have tlb: "raises E (lookup_tlb vpn asid)" for E vpn asid
    by (rule raisesI) (auto simp: lookup_tlb_def split: prod.splits)
  have perm: "raises (access_errors t) (check_tlb_permissions e t l)" "raises E (pmp_probe pa t l)" for E e l pa
    unfolding check_tlb_permissions_def pmp_probe_def
    by (auto intro!: r_simple r_fault access_error_sets split: AccessType.split)
  have leaf: "raises (access_errors t) (walk_leaf va t l vpn asid i a pte)" for l vpn asid i a pte
    unfolding walk_leaf_def fill_tlb_def
    by (intro r_simple r_fault access_error_sets perm r_widened [OF r_bus_write32])
  have pte: "raises (access_errors t) (read_pte a t)" for a
    unfolding read_pte_def
    by (rule r_catching [OF r_bus_read(3)])
      (auto split: if_splits intro: r_fault access_error_sets simp: access_errors_def)
  have "raises (access_errors t) (walk_levels va t l vpn asid levels a)" for l vpn asid levels a
    by (induction levels arbitrary: a)
      (simp_all only: walk_levels.simps, (intro r_simple r_fault access_error_sets pte leaf | assumption)+)
  then show ?thesis
    unfolding translate_def translate_walk_def by (intro r_simple tlb perm)
qed

subsection \<open>Handlers and steps\<close>

lemma r_trap: "raises E (raise_exception c v)" "raises E illegal_csr" "raises E is_linux"
    "raises E (illegal_raw i)" "raises E illegal_fetched" "raises E trap_ecall" "raises E checkInterrupts"
    "raises E (trap cause v b)"
  unfolding raise_exception_def trap_def illegal_csr_def is_linux_def illegal_raw_def
    illegal_fetched_def trap_ecall_def checkInterrupts_def
  by (intro r_simple)+

lemma r_csr_access: "raises E (readCSR a)" "raises E (writeCSR a v)"
  unfolding readCSR_def writeCSR_def write_csr_switch_def write_pmpaddr_def write_pmpcfg_def
  by (intro r_simple r_trap)+

lemma r_records: "raises E (record_reg i old)" "raises E (record_mem a old new sz)" "raises E (record_csr n old new)"
    "raises E (record_amo i old new)" "raises E (commit i v)" "raises E (record_csr_access i n r old)"
    "raises E (set_reservation b)" "raises E is_verbose" "raises E (upd_tlb f)"
  unfolding commit_def record_csr_access_def record_reg_def record_mem_def record_csr_def record_amo_def
    set_reservation_def is_verbose_def upd_tlb_def
  by (intro r_simple)+

lemma r_operands: "(\<And>a b. raises E (f a b)) \<Longrightarrow> raises E (with_regs i f)"
    "(\<And>a. raises E (g a)) \<Longrightarrow> raises E (with_rs1 i g)"
  unfolding with_regs_def with_rs1_def by (intro r_simple; simp)+

lemmas r_exec = r_simple r_trap r_csr_access r_records r_operands

text \<open>The two \<open>try\<close> blocks catch all that an access throws, except a program exit.\<close>

lemma r_load: "raises (access_errors LOAD) p \<Longrightarrow> raises exits (catching p (load_handlers a))"
  by (erule r_catching)
    (auto simp: load_handlers_def access_errors_def bus_errors_def page_fault_def intro: r_exec split: if_splits)

lemma r_store:
  "raises (access_errors STORE) p \<Longrightarrow> raises exits q \<Longrightarrow> raises exits (catching p (store_handlers q a))"
  by (erule r_catching)
    (auto simp: store_handlers_def access_errors_def bus_errors_def page_fault_def intro: r_exec split: if_splits)

lemmas r_access = r_translate r_widened [OF r_bus_read(1)] r_widened [OF r_bus_read(2)]
  r_widened [OF r_bus_read(3)] r_widened [OF r_bus_write32] r_bus_write8

lemma r_exec_load: "(\<And>pa. raises (access_errors LOAD) (access pa)) \<Longrightarrow> raises exits (exec_load access i)"
  unfolding exec_load_def by (intro r_exec r_load r_access)

lemma r_exec_store:
  assumes "\<And>pa. raises (access_errors STORE) (read pa)" "\<And>pa v. raises (access_errors STORE) (write pa v)"
  shows "raises exits (exec_store read write sz i)"
  unfolding exec_store_def old_value_def by (intro r_operands r_let r_store; intro r_exec r_access assms)

lemma r_branch: "raises E q \<Longrightarrow> raises E (branch_to t q)" "raises E (exec_branch taken i)"
  unfolding exec_branch_def branch_to_def by (intro r_exec; simp)+

lemma r_exec_csr: "raises E (exec_csr_reg f g i)" "raises E (exec_csr_imm f i)" "raises E (execCSRRWI i)"
  unfolding exec_csr_reg_def exec_csr_imm_def execCSRRWI_def csr_read_then_def csr_write_then_def
  by (intro r_exec)+

lemma r_exec_amo: "raises exits (exec_amo f i)"
  unfolding exec_amo_def atomic_rmw_w_def
  by (intro r_operands r_store; intro r_exec r_access)

lemma r_wait: "raises E (release_deferred_uart_input)"
proof -
  have "raises E (inject_uart_input bs)" for bs
    by (induction bs) (simp_all only: inject_uart_input.simps, (intro r_exec | assumption)+)
  then show ?thesis unfolding release_deferred_uart_input_def by (intro r_exec)
qed

lemma r_special: "raises E (execECALL i)" "raises E (execEBREAK i)" "raises E (execMRET i)" "raises E (execSRET i)"
    "raises E (execWFI i)" "raises E (execSFENCE_VMA i)"
  unfolding execECALL_def execEBREAK_def execMRET_def execSRET_def execWFI_def execSFENCE_VMA_def
    handleSBI_def sbi_done_def clear_mip_def sbi_set_mtimecmp_def sbi_base_def sbi_hsm_def sbi_result_def
  by (intro r_exec r_wait)+

lemma r_reservation: "raises exits (execLR_W i)" "raises exits (execSC_W i)"
  unfolding execLR_W_def execSC_W_def
  by (intro r_operands r_load r_store; intro r_exec r_access)+

lemma r_execute: "raises exits (execute i)"
proof -
  have "raises exits (f i)" if "f \<in> set dispatch" for f
    using that unfolding dispatch_def list.set
    by (elim insertE emptyE; hypsubst; (unfold handler_defs csr_read_then_def csr_write_then_def)?;
        intro r_exec r_exec_load r_exec_store r_branch r_exec_csr r_exec_amo r_special r_reservation r_access)
  then show ?thesis unfolding execute_def by (simp add: kind_index_less)
qed

lemma r_fetchInstr: "raises exits fetchInstr"
proof -
  have page: "raises bus_errors (fetch_page pa)" for pa
    unfolding fetch_page_def by (intro r_exec r_bus_read)
  have catch: "raises (access_errors FETCH) p \<Longrightarrow> raises exits (catching p (fetch_handlers pc))" for p pc
    by (erule r_catching)
      (auto simp: fetch_handlers_def access_errors_def bus_errors_def page_fault_def intro: r_exec split: if_splits)
  show ?thesis
    unfolding fetchInstr_def fetch_second_def set_instruction_def
    by (intro r_bnd r_machine catch; intro r_exec r_checked r_translate r_widened [OF page])
qed

lemma r_step: "raises exits step"
  unfolding step_def clearStep_def unless_trapped_def fetch_and_decode_def set_instruction_def
    set_dInstr_def cache_decoded_def retire_def
  by (intro r_exec r_fetchInstr r_execute)

lemma r_run: "raises exits (run clocks)"
proof -
  have iteration: "raises exits (run_iteration n t)" for n t
    unfolding run_iteration_def updateCycle_def by (intro r_exec r_step)
  have "raises exits (run_loop n clocks)" for n
    by (induction clocks arbitrary: n)
      (simp_all only: run_loop_Nil run_loop_Cons isHalted_def, (intro r_exec iteration | assumption)+)
  then show ?thesis unfolding run_def by (intro r_exec)
qed

text \<open>
  C6. No exception escapes: a step throws nothing but the two program exits, whatever the
  machine and the instruction (every bus error and page fault of an access becomes a trap),
  and \<open>emulate\<close> throws nothing at all and returns 0 or 1 when it returns.
\<close>

theorem no_exception_escapes:
  "(case step m of Raise e m' \<Rightarrow> e \<in> {ProgramExit 0, ProgramExit 1} | _ \<Rightarrow> True)
   \<and> (case emulate clocks m of Ok code m' \<Rightarrow> code \<in> {None, Some 0, Some 1} | Raise e m' \<Rightarrow> False
       | _ \<Rightarrow> True)"
proof
  show "case step m of Raise e m' \<Rightarrow> e \<in> {ProgramExit 0, ProgramExit 1} | _ \<Rightarrow> True"
    using raisesD [OF r_step, of m] by (auto simp: exits_def split: result.splits)
  show "case emulate clocks m of Ok code m' \<Rightarrow> code \<in> {None, Some 0, Some 1} | Raise e m' \<Rightarrow> False | _ \<Rightarrow> True"
  proof (cases "run clocks m")
    case (Raise e t)
    then have "e = ProgramExit 0 \<or> e = ProgramExit 1"
      using raisesD [OF r_run, of clocks m] by (auto simp: exits_def)
    then show ?thesis using Raise by (auto simp: emulate_def prog_simps)
  qed (simp_all add: emulate_def prog_simps)
qed

end
