(* ===== verification/Coherence.thy ===== *)
theory Coherence
  imports BusFrame Cpu
begin

section \<open>Memory and the instruction caches\<close>

text \<open>
  Stores and loads of main memory, and the coherence of the two instruction caches with it: a
  store by the processor inside one page keeps them coherent, and with coherent caches and
  translation off a fetch delivers the decoding of what memory holds.
\<close>

unbundle bit_operations_syntax

subsection \<open>The address map\<close>

text \<open>
  The address map is unambiguous: no address belongs to two regions, and \<open>is_mmio\<close> holds
  exactly for the addresses of the devices.
\<close>

theorem address_map_disjoint:
  "length (filter (\<lambda>r. r a) [in_uart, in_clint, in_plic, in_blk, in_net, in_fb, in_input, in_dram]) \<le> 1
   \<and> is_mmio a = (filter (\<lambda>r. r a) [in_uart, in_clint, in_plic, in_blk, in_net, in_fb, in_input] \<noteq> [])"
proof
  show "length (filter (\<lambda>r. r a) [in_uart, in_clint, in_plic, in_blk, in_net, in_fb, in_input, in_dram]) \<le> 1"
    by (auto simp: region_defs word_le_nat_alt word_less_nat_alt)
  show "is_mmio a = (filter (\<lambda>r. r a) [in_uart, in_clint, in_plic, in_blk, in_net, in_fb, in_input] \<noteq> [])"
    by (auto simp: is_mmio_def)
qed

lemma dram_only:
  assumes "in_dram a"
  shows "\<not> in_uart a" "\<not> in_clint a" "\<not> in_plic a" "\<not> in_blk a" "\<not> in_net a" "\<not> in_fb a" "\<not> in_input a"
  using assms by (auto simp: region_defs word_le_nat_alt word_less_nat_alt)

subsection \<open>Stores and loads of main memory\<close>

text \<open>What a store does to the processor.\<close>

definition told :: "u32 \<Rightarrow> CPU \<Rightarrow> CPU" where
  "told a c =
    (let c = (if cpu_reservation_valid c \<and> cpu_reservation_addr c = a
              then c\<lparr>cpu_reservation_valid := False\<rparr> else c);
         p = drop_bit 12 a; i = index_from_page p; e = cpu_icache c i;
         c = (if ic_valid e \<and> ic_phys_page e = p
              then c\<lparr>cpu_icache := (cpu_icache c)(i := e\<lparr>ic_valid := False\<rparr>)\<rparr> else c)
     in clearDecodeCache_cpu c)"

lemma notify_store_run: "notify_store a m = Ok () (m\<lparr>em_cpu := told a (em_cpu m)\<rparr>)"
  by (simp add: notify_store_def invalidateReservation_def invalidate_page_def clearDecodeCache_def
      told_def upd_cpu_def prog_simps Let_def)

lemma told_icache: "cpu_icache (told a c) =
    (\<lambda>i. if i = index_from_page (drop_bit 12 a) \<and> ic_valid (cpu_icache c i)
           \<and> ic_phys_page (cpu_icache c i) = drop_bit 12 a
         then (cpu_icache c i)\<lparr>ic_valid := False\<rparr> else cpu_icache c i)"
  by (auto simp: told_def clearDecodeCache_cpu_def Let_def)

lemma told_core: "cpu_core (told a c) = cpu_core c"
  by (simp add: told_def clearDecodeCache_cpu_def cpu_core_def Let_def)

lemma told_reservation: "\<not> (cpu_reservation_valid (told a c) \<and> cpu_reservation_addr (told a c) = a)"
  by (simp add: told_def clearDecodeCache_cpu_def Let_def)

text \<open>A word of main memory that is not the exit word.\<close>

definition in_memory :: "u32 \<Rightarrow> bool" where
  "in_memory a \<longleftrightarrow> in_dram a \<and> dram_fits a 4 \<and> a \<noteq> TOHOST"

definition memory_word :: "Machine \<Rightarrow> u32 \<Rightarrow> u32" where
  "memory_word m a = dram_word (dram_offset a) m"

lemma bus_depth: "\<exists>d. bus_write32 = bus_write32_at (Suc d)"
  by (rule exI [of _ "BUS_DEPTH - 1"]) (simp add: bus_write32_def BUS_DEPTH_def)

lemma bus_write32_at_dram:
  assumes "in_dram a" "dram_fits a 4" "a \<noteq> TOHOST \<or> v = 0"
  shows "bus_write32_at (Suc d) a v m
    = Ok () (set_dram_word (dram_offset a) v m\<lparr>em_cpu := told a (em_cpu m)\<rparr>)"
proof -
  have cpu: "em_cpu (set_dram_word (dram_offset a) v m) = em_cpu m"
    by (simp add: set_dram_word_def dram_set_def)
  show ?thesis
    using assms dram_only [OF assms(1)]
    by (auto simp: checked_def andthen_def bnd_def updates_def notify_store_run cpu)
qed

lemma bus_write32_dram:
  assumes "in_dram a" "dram_fits a 4" "a \<noteq> TOHOST \<or> v = 0"
  shows "bus_write32 a v m = Ok () (set_dram_word (dram_offset a) v m\<lparr>em_cpu := told a (em_cpu m)\<rparr>)"
proof -
  obtain d where d: "bus_write32 = bus_write32_at (Suc d)" using bus_depth by blast
  show ?thesis unfolding d by (rule bus_write32_at_dram [OF assms])
qed

lemma bus_write16_dram:
  assumes "in_dram a" "dram_fits a 2"
  shows "bus_write16 a v m = Ok () (set_dram_half (dram_offset a) v m\<lparr>em_cpu := told a (em_cpu m)\<rparr>)"
  using assms
  by (simp add: bus_write16_def do_if_def checked_def andthen_def bnd_def updates_def
      notify_store_run set_dram_half_def dram_set_def)

lemma bus_write8_dram:
  assumes "in_dram a"
  shows "bus_write8 a v m = Ok () (dram_set (dram_offset a) v m\<lparr>em_cpu := told a (em_cpu m)\<rparr>)"
  using assms dram_only [OF assms]
  by (simp add: bus_write8_def do_if_def andthen_def bnd_def updates_def notify_store_run dram_set_def)

lemma bus_read32_dram:
  assumes "in_dram a" "dram_fits a 4"
  shows "bus_read32 a m = Ok (dram_word (dram_offset a) m) m"
  using assms dram_only [OF assms(1)] by (simp add: bus_read32_def checked_def reads_def)

lemma dram_word_set: "dram_word i (set_dram_word i v m) = v"
  by (simp add: dram_word_def set_dram_word_def dram_get_def dram_set_def)

lemma dram_word_cpu [simp]: "dram_word i (m\<lparr>em_cpu := c\<rparr>) = dram_word i m"
    "dram_get (m\<lparr>em_cpu := c\<rparr>) i = dram_get m i" "dram_half i (m\<lparr>em_cpu := c\<rparr>) = dram_half i m"
  by (simp_all add: dram_word_def dram_get_def dram_half_def)

lemma dram_get_sets:
  "dram_get (set_dram_word i v m) j = (if j = i + 3 then byte_of 3 v else if j = i + 2 then byte_of 2 v
     else if j = i + 1 then byte_of 1 v else if j = i then byte_of 0 v else dram_get m j)"
  "dram_get (set_dram_half i h m) j = (if j = i + 1 then byte_of 1 h else if j = i then byte_of 0 h
     else dram_get m j)"
  "dram_get (dram_set i b m) j = (if j = i then b else dram_get m j)"
  by (simp_all add: set_dram_word_def set_dram_half_def dram_get_def dram_set_def)

text \<open>
  A word stored to main memory is read back from its address, every other byte of memory
  is unchanged, the registers, control registers, privilege and configuration are unchanged,
  and a reservation of that address is gone. The address \<open>TOHOST\<close> is different: a
  non-zero word stored there ends the program, with code 0 for the value 1 and code 1 otherwise.
\<close>

theorem dram_store_load:
  assumes "in_dram a" and "dram_fits a 4"
  shows "if a = TOHOST \<and> v \<noteq> 0
    then bus_write32 a v m = Raise (ProgramExit (if v = 1 then 0 else 1)) m
    else (\<exists>m'. bus_write32 a v m = Ok () m' \<and> bus_read32 a m' = Ok v m'
      \<and> (\<forall>i. i < dram_offset a \<or> dram_offset a + 4 \<le> i \<longrightarrow> dram_get m' i = dram_get m i)
      \<and> core m' = core m
      \<and> \<not> (cpu_reservation_valid (em_cpu m') \<and> cpu_reservation_addr (em_cpu m') = a))"
proof (cases "a = TOHOST \<and> v \<noteq> 0")
  case True
  obtain d where d: "bus_write32 = bus_write32_at (Suc d)" using bus_depth by blast
  show ?thesis unfolding d using True by (simp add: throw_def)
next
  case False
  let ?m = "set_dram_word (dram_offset a) v m\<lparr>em_cpu := told a (em_cpu m)\<rparr>"
  have "bus_write32 a v m = Ok () ?m" using False assms by (intro bus_write32_dram) auto
  moreover have "bus_read32 a ?m = Ok v ?m"
    using assms by (simp add: bus_read32_dram dram_word_set)
  moreover have "\<forall>i. i < dram_offset a \<or> dram_offset a + 4 \<le> i \<longrightarrow> dram_get ?m i = dram_get m i"
    by (auto simp: dram_get_sets)
  moreover have "core ?m = core m" by (simp add: core_def told_core set_dram_word_def dram_set_def)
  moreover have "\<not> (cpu_reservation_valid (em_cpu ?m) \<and> cpu_reservation_addr (em_cpu ?m) = a)"
    using told_reservation by simp
  ultimately show ?thesis using False by auto
qed

text \<open>A word stored to the start of memory, and the exit word.\<close>

theorem dram_store_load_witness:
  "(\<exists>m'. bus_write32 0x80000000 7 demo = Ok () m' \<and> bus_read32 0x80000000 m' = Ok 7 m')
   \<and> bus_write32 0x80001000 1 demo = Raise (ProgramExit 0) demo"
proof -
  have fits: "in_dram 0x80000000" "dram_fits 0x80000000 4" "in_dram 0x80001000" "dram_fits 0x80001000 4"
    by (simp_all add: region_defs dram_fits_def dram_offset_def)
  have t: "TOHOST = 0x80001000" by (simp add: TOHOST_def)
  have "\<exists>m'. bus_write32 0x80000000 7 demo = Ok () m' \<and> bus_read32 0x80000000 m' = Ok 7 m'"
    using dram_store_load [OF fits(1,2), of 7 demo] unfolding t by simp blast
  moreover have "bus_write32 0x80001000 1 demo = Raise (ProgramExit 0) demo"
    using dram_store_load [OF fits(3,4), of 1 demo] t by simp
  ultimately show ?thesis ..
qed

subsection \<open>The cache of pages\<close>

text \<open>Every valid page of the instruction cache is a copy of memory, and in its place.\<close>

definition icache_ok :: "Machine \<Rightarrow> bool" where
  "icache_ok m \<longleftrightarrow> (\<forall>i. let e = cpu_icache (em_cpu m) i in ic_valid e \<longrightarrow>
     unat (ic_phys_page e) < 2 ^ 20 \<and> in_dram (push_bit 12 (ic_phys_page e))
     \<and> index_from_page (ic_phys_page e) = i
     \<and> (\<exists>d. ic_data e = Some d \<and> (\<forall>j < 4096. d j = dram_page (ic_phys_page e) m j)))"

text \<open>Offsets of pages and of addresses in them.\<close>

lemma unat_u32: "unat (a :: u32) < 2 ^ 32"
  using unsigned_less [of a] by simp

lemma unat_page:
  fixes a :: u32
  shows "unat (push_bit 12 (drop_bit 12 a)) = unat a div 4096 * 4096"
proof -
  have "unat a div 4096 * 4096 < 2 ^ 32"
    using unat_u32 [of a] by (simp add: div_times_less_eq_dividend le_less_trans [OF div_times_less_eq_dividend])
  then show ?thesis
    by (simp add: push_bit_eq_mult drop_bit_eq_div unat_word_ariths unat_div take_bit_nat_def)
qed

lemma in_dram_unat: "in_dram a \<longleftrightarrow> 0x80000000 \<le> unat a \<and> unat a < 0x90000000"
  by (simp add: region_defs word_le_nat_alt word_less_nat_alt)

lemma dram_offset_unat: "in_dram a \<Longrightarrow> dram_offset a = unat a - 0x80000000"
  by (simp add: dram_offset_def DRAM_BASE_def in_dram_unat unat_sub_if_size word_size)

lemma in_dram_page: "in_dram a \<Longrightarrow> in_dram (push_bit 12 (drop_bit 12 a))"
  by (simp add: in_dram_unat unat_page) arith

lemma unat_low12: "unat (a AND 0xFFF :: u32) = unat a mod 4096"
proof -
  have m: "(0xFFF :: u32) = mask 12" by (simp add: mask_numeral)
  show ?thesis
    unfolding m take_bit_eq_mask [symmetric] unsigned_take_bit_eq by (simp add: take_bit_eq_mod)
qed

lemma page_offset:
  assumes "in_dram a"
  shows "dram_offset (push_bit 12 (drop_bit 12 a)) + unat a mod 4096 = dram_offset a"
proof -
  have "unat a div 4096 * 4096 + unat a mod 4096 = unat a" by simp
  moreover have "0x80000000 \<le> unat a div 4096 * 4096"
    using in_dram_page [OF assms] by (simp add: in_dram_unat unat_page)
  ultimately show ?thesis
    using assms by (simp add: dram_offset_unat in_dram_page unat_page)
qed

lemma dram_page_cpu [simp]: "dram_page p (m\<lparr>em_cpu := c\<rparr>) = dram_page p m"
  by (simp add: dram_page_def)

lemma fetch_page_coherent:
  assumes ok: "icache_ok m" and a: "in_dram a"
  shows "\<exists>page ic. fetch_page a m = Ok page (m\<lparr>em_cpu := (em_cpu m)\<lparr>cpu_icache := ic\<rparr>\<rparr>)
    \<and> icache_ok (m\<lparr>em_cpu := (em_cpu m)\<lparr>cpu_icache := ic\<rparr>\<rparr>)
    \<and> (\<forall>j < 4096. page j = dram_page (drop_bit 12 a) m j)"
proof -
  let ?p = "drop_bit 12 a" and ?i = "index_from_page (drop_bit 12 a)"
  let ?e = "cpu_icache (em_cpu m) ?i"
  show ?thesis
  proof (cases "ic_valid ?e \<and> ic_phys_page ?e = ?p")
    case True
    then obtain d where d: "ic_data ?e = Some d" "\<forall>j < 4096. d j = dram_page ?p m j"
      using ok unfolding icache_ok_def Let_def by metis
    have "fetch_page a m = Ok d (m\<lparr>em_cpu := (em_cpu m)\<lparr>cpu_icache := cpu_icache (em_cpu m)\<rparr>\<rparr>)"
      using True d(1) by (simp add: fetch_page_def Let_def get_cpu_def prog_simps)
    moreover have "m\<lparr>em_cpu := (em_cpu m)\<lparr>cpu_icache := cpu_icache (em_cpu m)\<rparr>\<rparr> = m" by simp
    ultimately show ?thesis using ok d(2) by metis
  next
    case False
    let ?new = "\<lparr>ic_phys_page = ?p, ic_data = Some (dram_page ?p m), ic_valid = True\<rparr>"
    let ?ic = "(cpu_icache (em_cpu m))(?i := ?new)"
    have page: "unat ?p < 2 ^ 20"
      using unat_u32 [of a] by (simp add: drop_bit_eq_div unat_div)
    have "fetch_page a m = Ok (dram_page ?p m) (m\<lparr>em_cpu := (em_cpu m)\<lparr>cpu_icache := ?ic\<rparr>\<rparr>)"
      using False in_dram_page [OF a]
      by (auto simp: fetch_page_def Let_def phys_ptr_def get_cpu_def upd_cpu_def prog_simps)
    moreover have "icache_ok (m\<lparr>em_cpu := (em_cpu m)\<lparr>cpu_icache := ?ic\<rparr>\<rparr>)"
      using ok in_dram_page [OF a] page unfolding icache_ok_def Let_def by simp
    ultimately show ?thesis by blast
  qed
qed

lemma pages_apart:
  fixes p x j n :: nat
  assumes "p \<noteq> x div 4096" "j < 4096" "x mod 4096 + n \<le> 4096"
  shows "p * 4096 + j < x \<or> x + n \<le> p * 4096 + j"
proof -
  obtain q r where q: "q = x div 4096" and r: "r = x mod 4096" and x: "x = q * 4096 + r"
    by (metis div_mult_mod_eq)
  have "p < q \<or> q < p" using assms(1) q by linarith
  then show ?thesis using assms(2,3) x unfolding r [symmetric] by linarith
qed

text \<open>A change of the bytes from \<open>dram_offset a\<close> on that stays in the page of \<open>a\<close>.\<close>

lemma store_keeps_icache:
  assumes ok: "icache_ok m" and a: "in_dram a" and len: "unat a mod 4096 + n \<le> 4096"
    and same: "\<And>i. i < dram_offset a \<or> dram_offset a + n \<le> i \<Longrightarrow> dram_get m' i = dram_get m i"
    and cpu: "em_cpu m' = told a (em_cpu m)"
  shows "icache_ok m'"
  unfolding icache_ok_def Let_def
proof (intro allI impI)
  fix i
  let ?e = "cpu_icache (em_cpu m) i"
  assume "ic_valid (cpu_icache (em_cpu m') i)"
  then have e: "cpu_icache (em_cpu m') i = ?e" "ic_valid ?e"
    and other: "i \<noteq> index_from_page (drop_bit 12 a) \<or> ic_phys_page ?e \<noteq> drop_bit 12 a"
    unfolding cpu told_icache by (auto split: if_splits)
  note here = ok [unfolded icache_ok_def Let_def, rule_format, OF e(2)]
  let ?p = "ic_phys_page ?e"
  have "?p \<noteq> drop_bit 12 a" using other here by auto
  then have ne: "unat ?p \<noteq> unat a div 4096"
    by (auto simp: drop_bit_eq_div unat_div word_unat_eq_iff)
  have "unat ?p * 4096 < 2 ^ 32" using here by simp
  then have "unat (push_bit 12 ?p) = unat ?p * 4096"
    by (simp add: push_bit_eq_mult unat_word_ariths)
  then have base: "dram_offset (push_bit 12 ?p) = unat ?p * 4096 - 0x80000000"
    "0x80000000 \<le> unat ?p * 4096"
    using here by (simp_all only: dram_offset_unat) (simp add: in_dram_unat)
  have "dram_page ?p m' j = dram_page ?p m j" if "j < 4096" for j
  proof -
    have "unat ?p * 4096 + j < unat a \<or> unat a + n \<le> unat ?p * 4096 + j"
      by (rule pages_apart [OF ne that len])
    moreover have "dram_offset a = unat a - 0x80000000" "0x80000000 \<le> unat a"
      using a by (simp_all add: dram_offset_unat in_dram_unat)
    ultimately have "dram_offset (push_bit 12 ?p) + j < dram_offset a
        \<or> dram_offset a + n \<le> dram_offset (push_bit 12 ?p) + j"
      using base by linarith
    then show ?thesis by (simp add: dram_page_def same)
  qed
  then show "unat (ic_phys_page (cpu_icache (em_cpu m') i)) < 2 ^ 20 \<and>
      in_dram (push_bit 12 (ic_phys_page (cpu_icache (em_cpu m') i))) \<and>
      index_from_page (ic_phys_page (cpu_icache (em_cpu m') i)) = i \<and>
      (\<exists>d. ic_data (cpu_icache (em_cpu m') i) = Some d \<and>
         (\<forall>j<4096. d j = dram_page (ic_phys_page (cpu_icache (em_cpu m') i)) m' j))"
    using here unfolding e(1) by auto
qed

subsection \<open>Fetching with translation off\<close>

definition bare :: "Machine \<Rightarrow> bool" where
  "bare m \<longleftrightarrow> drop_bit 31 (cpu_csrs (em_cpu m) SATP) = 0"

lemma translate_bare: "bare m \<Longrightarrow> translate va t m = Ok va m"
  by (simp add: bare_def translate_def mach_simps)

text \<open>The instruction that memory holds at an address, with its length.\<close>

definition half_at :: "Machine \<Rightarrow> u32 \<Rightarrow> u16" where
  "half_at m a = dram_half (dram_offset a) m"

definition instr_at :: "Machine \<Rightarrow> u32 \<Rightarrow> u32 \<times> u32" where
  "instr_at m pc =
    (if half_at m pc AND 0x3 \<noteq> 0x3 then (decompress (half_at m pc), 2)
     else (push_bit 16 (ucast (half_at m (pc + 2))) OR ucast (half_at m pc), 4))"

definition decoded_at :: "Machine \<Rightarrow> u32 \<Rightarrow> DecodedInstr" where
  "decoded_at m pc = (decode (fst (instr_at m pc)))\<lparr>di_instr_len := snd (instr_at m pc)\<rparr>"

text \<open>An address from which an instruction can be fetched.\<close>

definition fetchable :: "Machine \<Rightarrow> u32 \<Rightarrow> bool" where
  "fetchable m pc \<longleftrightarrow> pc AND 1 = 0 \<and> pc AND cpu_misalignment_mask (em_cpu m) = 0
     \<and> in_dram pc \<and> in_dram (pc + 2)
     \<and> (half_at m pc AND 0x3 = 0x3 \<or> cpu_csrs (em_cpu m) MISA AND 0x4 \<noteq> 0)"

lemma half_at_cpu [simp]: "half_at (m\<lparr>em_cpu := c\<rparr>) = half_at m" "instr_at (m\<lparr>em_cpu := c\<rparr>) = instr_at m"
    "decoded_at (m\<lparr>em_cpu := c\<rparr>) = decoded_at m"
  by (simp_all add: half_at_def instr_at_def decoded_at_def fun_eq_iff)

lemma page_half_at:
  assumes "\<forall>j < 4096. page j = dram_page (drop_bit 12 a) m j" "in_dram a" "unat a mod 4096 < 4095"
  shows "page_half page (unat a mod 4096) = half_at m a"
proof -
  have "dram_page (drop_bit 12 a) m (unat a mod 4096 + k) = dram_get m (dram_offset a + k)" for k
    using page_offset [OF assms(2)] by (simp add: dram_page_def add.assoc [symmetric])
  from this [of 0] this [of 1] show ?thesis
    using assms by (simp add: page_half_def half_at_def dram_half_def)
qed

lemma even_low: "pc AND 1 = 0 \<Longrightarrow> even (unat (pc :: u32))"
  by (simp add: word_unat_eq_iff and_one_eq unat_mod even_iff_mod_2_eq_zero)

lemma even_in_page:
  fixes x :: nat
  assumes "even x"
  shows "x mod 4096 < 4095"
    and "x mod 4096 < 4094 \<Longrightarrow> (x + 2) mod 4096 = x mod 4096 + 2 \<and> (x + 2) div 4096 = x div 4096"
    and "\<not> x mod 4096 < 4094 \<Longrightarrow> (x + 2) mod 4096 = 0"
proof -
  let ?q = "x div 4096" and ?r = "x mod 4096"
  have lt: "?r < 4096" by simp
  have "even ?r" using assms by (simp add: dvd_mod_iff)
  then obtain k where k: "?r = 2 * k" by (elim evenE)
  have "2 * k < 4096" using lt unfolding k .
  then have "k < 2048" by simp
  then have small: "2 * k < 4095" by simp
  then show "?r < 4095" unfolding k .
  have x: "x = ?q * 4096 + ?r" by simp
  show "(x + 2) mod 4096 = ?r + 2 \<and> (x + 2) div 4096 = ?q" if "?r < 4094"
  proof -
    have "x + 2 = ?q * 4096 + (?r + 2)" using x by linarith
    moreover have "?r + 2 < 4096" using that by linarith
    ultimately show ?thesis by (metis div_mult_self3 mod_mult_self3 div_less mod_less add_0_right zero_neq_numeral)
  qed
  show "(x + 2) mod 4096 = 0" if "\<not> ?r < 4094"
  proof -
    have "\<not> 2 * k < 4094" using that unfolding k .
    then have "2 * k = 4094" using small by simp
    then have "x + 2 = (?q + 1) * 4096" using x unfolding k by simp
    then show ?thesis by (metis mod_mult_self2_is_0)
  qed
qed

text \<open>The half-word after an even address: in the same page, or the first of the next.\<close>

lemma next_half:
  fixes pc :: u32
  assumes "pc AND 1 = 0" "in_dram pc"
  shows "unat pc mod 4096 < 4095"
    and "unat pc mod 4096 < 4094 \<Longrightarrow> unat (pc + 2) mod 4096 = unat pc mod 4096 + 2
      \<and> drop_bit 12 (pc + 2) = drop_bit 12 pc"
    and "\<not> unat pc mod 4096 < 4094 \<Longrightarrow> unat (pc + 2) mod 4096 = 0"
proof -
  note ev = even_in_page [OF even_low [OF assms(1)]]
  have sum: "unat (pc + 2) = unat pc + 2"
    using assms(2) by (simp add: in_dram_unat unat_word_ariths)
  show "unat pc mod 4096 < 4095" by (rule ev(1))
  show "unat (pc + 2) mod 4096 = 0" if "\<not> unat pc mod 4096 < 4094"
    using ev(3) [OF that] by (simp only: sum)
  show "unat (pc + 2) mod 4096 = unat pc mod 4096 + 2 \<and> drop_bit 12 (pc + 2) = drop_bit 12 pc"
    if "unat pc mod 4096 < 4094"
    using ev(2) [OF that] by (simp add: drop_bit_eq_div word_unat_eq_iff unat_div sum)
qed

lemma even_next: "pc AND 1 = 0 \<Longrightarrow> (pc + 2) AND 1 = (0 :: u32)"
  by (simp add: and_one_eq even_iff_mod_2_eq_zero [symmetric])

text \<open>The second half, from the same page or through a second translation.\<close>

lemma fetch_second_memory:
  assumes ok: "icache_ok m" and bare: "bare m" and pc: "pc AND 1 = 0" "in_dram pc" "in_dram (pc + 2)"
    and page: "\<forall>j < 4096. page j = dram_page (drop_bit 12 pc) m j"
  shows "\<exists>ic. fetch_second pc page (unat pc mod 4096) m
      = Ok (half_at m (pc + 2)) (m\<lparr>em_cpu := (em_cpu m)\<lparr>cpu_icache := ic\<rparr>\<rparr>)
    \<and> icache_ok (m\<lparr>em_cpu := (em_cpu m)\<lparr>cpu_icache := ic\<rparr>\<rparr>)"
proof (cases "unat pc mod 4096 < 4094")
  case True
  note n = next_half(2) [OF pc(1,2) True]
  have "page_half page (unat pc mod 4096 + 2) = half_at m (pc + 2)"
    using page_half_at [of page "pc + 2" m] next_half(1) [OF even_next [OF pc(1)] pc(3)] n page pc True
    by simp
  moreover have "m\<lparr>em_cpu := (em_cpu m)\<lparr>cpu_icache := cpu_icache (em_cpu m)\<rparr>\<rparr> = m" by simp
  ultimately show ?thesis using True ok
    by (intro exI [of _ "cpu_icache (em_cpu m)"]) (simp add: fetch_second_def prog_simps)
next
  case False
  obtain page2 ic where p: "fetch_page (pc + 2) m = Ok page2 (m\<lparr>em_cpu := (em_cpu m)\<lparr>cpu_icache := ic\<rparr>\<rparr>)"
    and ok2: "icache_ok (m\<lparr>em_cpu := (em_cpu m)\<lparr>cpu_icache := ic\<rparr>\<rparr>)"
    and page2: "\<forall>j < 4096. page2 j = dram_page (drop_bit 12 (pc + 2)) m j"
    using fetch_page_coherent [OF ok pc(3)] by blast
  have "page_half page2 0 = half_at m (pc + 2)"
    using page_half_at [OF page2 pc(3)] next_half(3) [OF pc(1,2) False] by simp
  then show ?thesis using False p ok2
    by (intro exI [of _ ic]) (simp add: fetch_second_def prog_simps translate_bare [OF bare])
qed

text \<open>What a fetch leaves: the word fetched, and the instruction cache.\<close>

definition fetched :: "(nat \<Rightarrow> ICacheEntry) \<Rightarrow> u32 \<Rightarrow> Machine \<Rightarrow> Machine" where
  "fetched ic w m = m\<lparr>em_cpu := (em_cpu m)\<lparr>cpu_icache := ic,
     cpu_sr := (cpu_sr (em_cpu m))\<lparr>sr_instruction := w\<rparr>\<rparr>\<rparr>"

lemma icache_ok_cong:
  assumes "cpu_icache (em_cpu m') = cpu_icache (em_cpu m)" "em_dram m' = em_dram m"
  shows "icache_ok m' = icache_ok m"
  using assms by (simp add: icache_ok_def dram_page_def dram_get_def)

lemma fetchInstr_memory:
  assumes ok: "icache_ok m" and bare: "bare m" and f: "fetchable m (cpu_pc (em_cpu m))"
  shows "\<exists>ic. fetchInstr m = Ok (snd (instr_at m (cpu_pc (em_cpu m))))
        (fetched ic (fst (instr_at m (cpu_pc (em_cpu m)))) m)
      \<and> icache_ok (fetched ic (fst (instr_at m (cpu_pc (em_cpu m)))) m)"
proof -
  define pc where "pc = cpu_pc (em_cpu m)"
  note f = f [folded pc_def, unfolded fetchable_def]
  have dram: "in_dram pc" "pc AND 1 = 0" "in_dram (pc + 2)" using f by blast+
  obtain page ic where p: "fetch_page pc m = Ok page (m\<lparr>em_cpu := (em_cpu m)\<lparr>cpu_icache := ic\<rparr>\<rparr>)"
    and ok1: "icache_ok (m\<lparr>em_cpu := (em_cpu m)\<lparr>cpu_icache := ic\<rparr>\<rparr>)"
    and page: "\<forall>j < 4096. page j = dram_page (drop_bit 12 pc) m j"
    using fetch_page_coherent [OF ok dram(1)] by blast
  let ?m1 = "m\<lparr>em_cpu := (em_cpu m)\<lparr>cpu_icache := ic\<rparr>\<rparr>"
  have first: "page_half page (unat pc mod 4096) = half_at m pc" "unat pc mod 4096 < 4095"
    using page_half_at [OF page dram(1)] next_half(1) [OF dram(2,1)] by blast+
  have bare1: "bare ?m1" using bare by (simp add: bare_def)
  obtain ic2 where second: "fetch_second pc page (unat pc mod 4096) ?m1
      = Ok (half_at m (pc + 2)) (m\<lparr>em_cpu := (em_cpu m)\<lparr>cpu_icache := ic2\<rparr>\<rparr>)"
    and ok2: "icache_ok (m\<lparr>em_cpu := (em_cpu m)\<lparr>cpu_icache := ic2\<rparr>\<rparr>)"
    using fetch_second_memory [OF ok1 bare1 dram(2,1,3)] page by auto
  note run = fetchInstr_def mach_simps Let_def set_instruction_def checked_def unat_low12
    pc_def [symmetric] translate_bare [OF bare] p first second fetched_def instr_at_def
  show ?thesis unfolding pc_def [symmetric]
  proof (cases "half_at m pc AND 0x3 = 0x3")
    case True
    have "icache_ok (fetched ic2 w m)" for w
      using ok2 by (simp add: fetched_def icache_ok_def dram_page_def dram_get_def)
    then show "\<exists>ic. fetchInstr m = Ok (snd (instr_at m pc)) (fetched ic (fst (instr_at m pc)) m)
      \<and> icache_ok (fetched ic (fst (instr_at m pc)) m)"
      using True f by (intro exI [of _ ic2]) (simp add: run)
  next
    case False
    have "icache_ok (fetched ic w m)" for w
      using ok1 by (simp add: fetched_def icache_ok_def dram_page_def dram_get_def)
    then show "\<exists>ic. fetchInstr m = Ok (snd (instr_at m pc)) (fetched ic (fst (instr_at m pc)) m)
      \<and> icache_ok (fetched ic (fst (instr_at m pc)) m)"
      using False f by (intro exI [of _ ic]) (simp add: run)
  qed
qed


subsection \<open>The cache of decoded instructions\<close>

text \<open>
  No entry is of a later epoch, and the entries of the current epoch at even addresses hold what
  memory holds. (A fresh processor is in epoch 0 with entries for the odd address
  \<open>0xFFFFFFFF\<close>.)
\<close>

definition decode_ok :: "Machine \<Rightarrow> bool" where
  "decode_ok m \<longleftrightarrow> (\<forall>i. let e = cpu_decoded_cache (em_cpu m) i; now = cpu_current_epoch (em_cpu m) in
     ce_epoch e \<le> now \<and> (ce_epoch e = now \<and> ce_pc e AND 1 = 0 \<longrightarrow>
       ce_raw e = fst (instr_at m (ce_pc e)) \<and> ce_decoded e = decoded_at m (ce_pc e)))"

definition coherent :: "Machine \<Rightarrow> bool" where
  "coherent m \<longleftrightarrow> icache_ok m \<and> decode_ok m"

lemma told_decode_ok:
  assumes ok: "decode_ok m" and cpu: "em_cpu m' = told a (em_cpu m)"
  shows "decode_ok m'"
proof -
  let ?c = "em_cpu m" and ?d = "em_cpu m'"
  have "ce_epoch (cpu_decoded_cache ?d i) < cpu_current_epoch ?d" for i
  proof (cases "cpu_current_epoch ?c + 1 = 0")
    case True
    then show ?thesis by (simp add: cpu told_def clearDecodeCache_cpu_def Let_def)
  next
    case False
    have "ce_epoch (cpu_decoded_cache ?c i) \<le> cpu_current_epoch ?c"
      using ok by (simp add: decode_ok_def Let_def)
    moreover have "cpu_current_epoch ?c < cpu_current_epoch ?c + 1"
      using unatSuc [of "cpu_current_epoch ?c"] False by (simp add: word_less_nat_alt add.commute)
    ultimately have "ce_epoch (cpu_decoded_cache ?c i) < cpu_current_epoch ?c + 1" by (rule le_less_trans)
    then show ?thesis
      using False by (simp add: cpu told_def clearDecodeCache_cpu_def Let_def)
  qed
  then show ?thesis by (auto simp: decode_ok_def Let_def order.strict_iff_order)
qed

text \<open>
  C9. Stores by the processor keep the caches coherent: when every valid page of the
  instruction cache and every current entry of the decode cache agrees with memory, they still
  do after a store of a byte, a half-word or a word that does not cross a page.
\<close>

theorem store_keeps_coherent:
  assumes "coherent m" "in_dram a" "dram_fits a 4" "unat a mod 4096 + 4 \<le> 4096" "a \<noteq> TOHOST \<or> v = 0"
  shows "(\<exists>m'. bus_write32 a v m = Ok () m' \<and> coherent m')
    \<and> (\<exists>m'. bus_write16 a h m = Ok () m' \<and> coherent m')
    \<and> (\<exists>m'. bus_write8 a b m = Ok () m' \<and> coherent m')"
proof -
  note keep = store_keeps_icache [OF _ assms(2)] told_decode_ok
  have ok: "icache_ok m" "decode_ok m" using assms(1) by (simp_all add: coherent_def)
  have 2: "dram_fits a 2" using assms(3) by (simp add: dram_fits_def)
  have "coherent (set_dram_word (dram_offset a) v m\<lparr>em_cpu := told a (em_cpu m)\<rparr>)"
    unfolding coherent_def using assms(4)
    by (intro conjI keep(1) [OF ok(1), of 4] keep(2) [OF ok(2), of _ a]) (auto simp: dram_get_sets)
  moreover have "coherent (set_dram_half (dram_offset a) h m\<lparr>em_cpu := told a (em_cpu m)\<rparr>)"
    unfolding coherent_def using assms(4)
    by (intro conjI keep(1) [OF ok(1), of 2] keep(2) [OF ok(2), of _ a]) (auto simp: dram_get_sets)
  moreover have "coherent (dram_set (dram_offset a) b m\<lparr>em_cpu := told a (em_cpu m)\<rparr>)"
    unfolding coherent_def using assms(4)
    by (intro conjI keep(1) [OF ok(1), of 1] keep(2) [OF ok(2), of _ a]) (auto simp: dram_get_sets)
  ultimately show ?thesis
    using bus_write32_dram [OF assms(2,3,5)] bus_write16_dram [OF assms(2) 2] bus_write8_dram [OF assms(2)]
    by blast
qed


text \<open>A store into the page that the processor has just fetched.\<close>

theorem store_keeps_coherent_witness:
  "coherent demo \<and> (\<exists>m'. bus_write32 0x80000004 0x13 demo = Ok () m' \<and> coherent m')"
proof -
  have d: "coherent demo"
    by (simp add: coherent_def icache_ok_def decode_ok_def demo_defs ICacheEntry0_def CacheEntry0_def)
  have "\<exists>m'. bus_write32 0x80000004 0x13 demo = Ok () m' \<and> coherent m'"
    using store_keeps_coherent [OF d, of "0x80000004" "0x13"]
    by (simp add: region_defs dram_fits_def dram_offset_def TOHOST_def)
  with d show ?thesis ..
qed

subsection \<open>A step from memory\<close>

definition with_caches :: "(nat \<Rightarrow> ICacheEntry) \<Rightarrow> (nat \<Rightarrow> CacheEntry) \<Rightarrow> Machine \<Rightarrow> Machine" where
  "with_caches ic dc m = m\<lparr>em_cpu := (em_cpu m)\<lparr>cpu_icache := ic, cpu_decoded_cache := dc\<rparr>\<rparr>"

definition decoded_state :: "u32 \<Rightarrow> DecodedInstr \<Rightarrow> Machine \<Rightarrow> Machine" where
  "decoded_state raw d m = m\<lparr>em_cpu := (em_cpu m)\<lparr>cpu_sr :=
     (cpu_sr (em_cpu m))\<lparr>sr_instruction := raw, sr_dInstr := d\<rparr>\<rparr>\<rparr>"

lemma fetch_and_decode_memory:
  assumes ok: "coherent m" and bare: "bare m" and f: "fetchable m pc" and pc: "cpu_pc (em_cpu m) = pc"
    and nt: "\<not> cpu_trap_occurred (em_cpu m)"
  shows "\<exists>ic dc. fetch_and_decode pc m = Ok (decoded_at m pc)
        (with_caches ic dc (decoded_state (fst (instr_at m pc)) (decoded_at m pc) m))
      \<and> coherent (with_caches ic dc (decoded_state (fst (instr_at m pc)) (decoded_at m pc) m))"
proof -
  let ?e = "cpu_decoded_cache (em_cpu m) (decode_index pc)" and ?now = "cpu_current_epoch (em_cpu m)"
  let ?raw = "fst (instr_at m pc)" and ?d = "decoded_at m pc"
  note same = with_caches_def decoded_state_def icache_ok_def decode_ok_def dram_page_def dram_get_def
  have iok: "icache_ok m" and dok: "decode_ok m" using ok by (simp_all add: coherent_def)
  have even: "pc AND 1 = 0" using f by (simp add: fetchable_def)
  show ?thesis
  proof (cases "ce_epoch ?e = ?now \<and> ce_pc ?e = pc")
    case True
    then have "ce_raw ?e = ?raw" "ce_decoded ?e = ?d"
      using dok even unfolding decode_ok_def Let_def by metis+
    then have "fetch_and_decode pc m = Ok ?d (decoded_state ?raw ?d m)"
      using True by (simp add: fetch_and_decode_def mach_simps set_instruction_def set_dInstr_def decoded_state_def)
    moreover have "decoded_state ?raw ?d m = with_caches (cpu_icache (em_cpu m)) (cpu_decoded_cache (em_cpu m)) (decoded_state ?raw ?d m)"
      by (simp add: with_caches_def decoded_state_def)
    moreover have "coherent (decoded_state ?raw ?d m)"
      using ok by (simp add: coherent_def same)
    ultimately show ?thesis by metis
  next
    case False
    obtain ic where fi: "fetchInstr m = Ok (snd (instr_at m pc)) (fetched ic ?raw m)"
      and ok1: "icache_ok (fetched ic ?raw m)"
      using fetchInstr_memory [OF iok bare] f unfolding pc by blast
    let ?dc = "(cpu_decoded_cache (em_cpu m))(decode_index pc :=
      \<lparr>ce_epoch = ?now, ce_pc = pc, ce_decoded = ?d, ce_raw = ?raw\<rparr>)"
    have "fetch_and_decode pc m = Ok ?d (with_caches ic ?dc (decoded_state ?raw ?d m))"
      using False nt by (auto simp: fetch_and_decode_def mach_simps fi fetched_def set_dInstr_def
          cache_decoded_def Let_def with_caches_def decoded_state_def decoded_at_def)
    moreover have "icache_ok (with_caches ic ?dc (decoded_state ?raw ?d m))"
      using ok1 by (simp add: same fetched_def)
    moreover have "decode_ok (with_caches ic ?dc (decoded_state ?raw ?d m))"
      using dok by (simp add: same Let_def)
    ultimately show ?thesis unfolding coherent_def by blast
  qed
qed


text \<open>The processor when it starts executing the instruction fetched from \<open>pc\<close>.\<close>

definition cleared :: "Machine \<Rightarrow> Machine" where
  "cleared m = (case clearStep m of Ok _ t \<Rightarrow> t | _ \<Rightarrow> m)"

definition about_to_execute :: "(nat \<Rightarrow> ICacheEntry) \<Rightarrow> (nat \<Rightarrow> CacheEntry) \<Rightarrow> Machine \<Rightarrow> Machine" where
  "about_to_execute ic dc m =
    (let pc = cpu_pc (em_cpu m); t = cleared m;
         t = t\<lparr>em_cpu := (em_cpu t)\<lparr>cpu_sr := (cpu_sr (em_cpu t))\<lparr>sr_pc_before := pc\<rparr>\<rparr>\<rparr>
     in with_caches ic dc (decoded_state (fst (instr_at m pc)) (decoded_at m pc) t))"

lemma about_to_execute_state:
  "em_dram (about_to_execute ic dc m) = em_dram m"
  "cpu_regs (em_cpu (about_to_execute ic dc m)) = cpu_regs (em_cpu m)"
  "cpu_csrs (em_cpu (about_to_execute ic dc m)) = cpu_csrs (em_cpu m)"
  "cpu_pc (em_cpu (about_to_execute ic dc m)) = cpu_pc (em_cpu m)"
  "cpu_privilege_level (em_cpu (about_to_execute ic dc m)) = cpu_privilege_level (em_cpu m)"
  "\<not> cpu_trap_occurred (em_cpu (about_to_execute ic dc m))"
  "\<not> cpu_set_next_pc (em_cpu (about_to_execute ic dc m))"
  by (simp_all add: about_to_execute_def cleared_def clearStep_def mach_simps with_caches_def
      decoded_state_def Let_def)

lemma step_run:
  assumes "coherent m" "bare m" "fetchable m (cpu_pc (em_cpu m))"
    and "cpu_csrs (em_cpu m) MIP AND cpu_csrs (em_cpu m) MIE = 0"
  shows "\<exists>ic dc. step m = andthen (execute (decoded_at m (cpu_pc (em_cpu m))))
        (unless_trapped (retire (decoded_at m (cpu_pc (em_cpu m))))) (about_to_execute ic dc m)
      \<and> coherent (about_to_execute ic dc m)"
proof -
  let ?pc = "cpu_pc (em_cpu m)"
  let ?t = "(cleared m)\<lparr>em_cpu := (em_cpu (cleared m))\<lparr>cpu_sr :=
     (cpu_sr (em_cpu (cleared m)))\<lparr>sr_pc_before := ?pc\<rparr>\<rparr>\<rparr>"
  have clear: "clearStep m = Ok () (cleared m)"
    by (simp add: cleared_def clearStep_def mach_simps)
  have t: "coherent ?t" "bare ?t" "fetchable ?t ?pc" "cpu_pc (em_cpu ?t) = ?pc"
    "\<not> cpu_trap_occurred (em_cpu ?t)" "cpu_csrs (em_cpu ?t) = cpu_csrs (em_cpu m)"
    "instr_at ?t = instr_at m" "decoded_at ?t = decoded_at m"
    using assms(1-3)
    by (simp_all add: cleared_def clearStep_def mach_simps coherent_def icache_ok_def decode_ok_def
        dram_page_def dram_get_def bare_def fetchable_def)
  obtain ic dc where fd: "fetch_and_decode ?pc ?t = Ok (decoded_at m ?pc)
        (with_caches ic dc (decoded_state (fst (instr_at m ?pc)) (decoded_at m ?pc) ?t))"
    and ok: "coherent (with_caches ic dc (decoded_state (fst (instr_at m ?pc)) (decoded_at m ?pc) ?t))"
    using fetch_and_decode_memory [OF t(1-5)] unfolding t(7,8) by blast
  have at: "about_to_execute ic dc m =
      with_caches ic dc (decoded_state (fst (instr_at m ?pc)) (decoded_at m ?pc) ?t)"
    by (simp add: about_to_execute_def Let_def)
  have irq: "checkInterrupts ?t = Ok () ?t"
    using assms(4) t(6) by (simp add: checkInterrupts_def checkInterrupts_cpu_def mach_simps)
  have "step m = bnd (fetch_and_decode ?pc)
      (\<lambda>di. unless_trapped (andthen (execute di) (unless_trapped (retire di)))) ?t"
    using t(4,5) irq
    by (simp add: step_def andthen_def bnd_def clear get_cpu_def reads_def upd_sr_def upd_cpu_def updates_def
        unless_trapped_def cleared_def clearStep_def)
  also have "\<dots> = andthen (execute (decoded_at m ?pc)) (unless_trapped (retire (decoded_at m ?pc)))
      (about_to_execute ic dc m)"
    unfolding at using fd about_to_execute_state(6) [of ic dc m, unfolded at]
    by (simp add: bnd_def unless_trapped_def get_cpu_def reads_def)
  finally show ?thesis
    using ok unfolding at [symmetric] by blast
qed

text \<open>
  C3. The fetch-decode-execute cycle: with coherent caches, translation off, an aligned
  program counter in main memory and no enabled interrupt pending, a step executes exactly the
  decoding of the bytes memory holds at the program counter (expanded first when they are a
  compressed instruction) and then retires it, starting from a state with the same memory,
  registers, control registers and privilege; and the caches remain coherent up to there.
\<close>

theorem step_executes_memory:
  assumes "coherent m" "bare m" "fetchable m (cpu_pc (em_cpu m))"
    and "cpu_csrs (em_cpu m) MIP AND cpu_csrs (em_cpu m) MIE = 0"
  shows "\<exists>ic dc. let t = about_to_execute ic dc m; d = decoded_at m (cpu_pc (em_cpu m)) in
      step m = andthen (execute d) (unless_trapped (retire d)) t \<and> coherent t
      \<and> em_dram t = em_dram m \<and> cpu_regs (em_cpu t) = cpu_regs (em_cpu m)
      \<and> cpu_csrs (em_cpu t) = cpu_csrs (em_cpu m) \<and> cpu_pc (em_cpu t) = cpu_pc (em_cpu m)
      \<and> cpu_privilege_level (em_cpu t) = cpu_privilege_level (em_cpu m)"
  using step_run [OF assms] unfolding Let_def by (metis about_to_execute_state(1-5))


text \<open>\<open>addi x5, x0, 7\<close> at the start of memory, executed by the fresh machine.\<close>

definition addi_demo :: Machine where
  "addi_demo = demo\<lparr>em_dram := (\<lambda>_. 0)(0 := 0x93, 1 := 0x02, 2 := 0x70, 3 := 0x00)\<rparr>"

theorem step_executes_memory_witness:
  "coherent addi_demo \<and> (\<exists>t. step addi_demo = Ok () t
     \<and> cpu_regs (em_cpu t) 5 = 7 \<and> cpu_pc (em_cpu t) = 0x80000004)"
proof -
  let ?d = "decoded_at addi_demo 0x80000000"
  have ok: "coherent addi_demo" "bare addi_demo" "cpu_pc (em_cpu addi_demo) = 0x80000000"
    "cpu_csrs (em_cpu addi_demo) MIP AND cpu_csrs (em_cpu addi_demo) MIE = 0"
    "cpu_regs (em_cpu addi_demo) 0 = 0" "cpu_csrs (em_cpu addi_demo) MINSTRET = 0"
    by (simp_all add: addi_demo_def coherent_def icache_ok_def decode_ok_def demo_defs ICacheEntry0_def
        CacheEntry0_def bare_def csr_numbers)
  have bytes: "half_at addi_demo 0x80000000 = 0x293" "half_at addi_demo 0x80000002 = 0x70"
    by (simp_all add: half_at_def dram_half_def dram_get_def dram_offset_def DRAM_BASE_def addi_demo_def le16_def)
  have cfg: "cpu_misalignment_mask (em_cpu addi_demo) = 3" by (simp add: addi_demo_def demo_defs)
  have f: "fetchable addi_demo (cpu_pc (em_cpu addi_demo))"
    by (simp add: fetchable_def bytes region_defs cfg ok(3))
  have d: "?d = (decode 0x700293)\<lparr>di_instr_len := 4\<rparr>"
    by (simp add: decoded_at_def instr_at_def bytes)
  have "di_kind (decode 0x700293) = I_ADDI \<and> di_rd (decode 0x700293) = 5
      \<and> di_rs1 (decode 0x700293) = 0 \<and> di_imm (decode 0x700293) = 7"
    by (simp add: decode_def decode_alu_imm_def get_bits_def sign_extend_def DecodedInstr0_def Let_def)
  then have k: "di_kind ?d = I_ADDI" "di_rd ?d = 5" "di_rs1 ?d = 0" "di_imm ?d = 7" "di_instr_len ?d = 4"
    by (simp_all add: d)
  then have run: "execute ?d = execADDI ?d" by (simp add: execute_def dispatch_def)
  obtain t where "step addi_demo = andthen (execute ?d) (unless_trapped (retire ?d)) t"
    and "cpu_regs (em_cpu t) = cpu_regs (em_cpu addi_demo)" "cpu_pc (em_cpu t) = 0x80000000"
    "\<not> cpu_trap_occurred (em_cpu t)" "\<not> cpu_set_next_pc (em_cpu t)"
    "cpu_csrs (em_cpu t) MINSTRET = 0"
    using step_executes_memory [OF ok(1,2) f ok(4)] unfolding ok(3) Let_def
    by (metis about_to_execute_state(6,7) ok(6))
  then show ?thesis
    using ok(1,5) unfolding run
    by (simp add: execADDI_def with_rs1_def mach_simps k sadd32_def sfits32_def commit_def
        record_reg_def unless_trapped_def retire_def csr_numbers)
qed

end
