(* ===== verification/Sv32.thy ===== *)
theory Sv32
  imports Coherence Mmu
begin

section \<open>The page-table walk\<close>

text \<open>
  The Sv32 translation of the privileged architecture as a function on physical memory, the proof that
  a walk of src/mmu/mmu.cpp computes it when the page tables are in main memory, and the proof that
  the translation buffer then answers as the walk did.
\<close>

unbundle bit_operations_syntax

subsection \<open>The specification\<close>

definition sv32_valid :: "u32 \<Rightarrow> bool" where
  "sv32_valid pte \<longleftrightarrow> bit pte 0 \<and> (bit pte 2 \<longrightarrow> bit pte 1)"

definition sv32_leaf :: "u32 \<Rightarrow> bool" where
  "sv32_leaf pte \<longleftrightarrow> bit pte 1 \<or> bit pte 2 \<or> bit pte 3"

definition sv32_allowed :: "u32 \<Rightarrow> PrivilegeLevel \<Rightarrow> AccessType \<Rightarrow> u32 \<Rightarrow> bool" where
  "sv32_allowed mstatus level type pte \<longleftrightarrow>
     (level = USER \<longrightarrow> bit pte 4) \<and> (level = SUPERVISOR \<and> bit pte 4 \<longrightarrow> bit mstatus 18)
     \<and> (case type of FETCH \<Rightarrow> bit pte 3 | LOAD \<Rightarrow> bit pte 1 \<or> (bit mstatus 19 \<and> bit pte 3)
        | STORE \<Rightarrow> bit pte 2)"

definition pte_address :: "u32 \<Rightarrow> u32 \<Rightarrow> u32" where
  "pte_address ppn vpn = ppn * 4096 + vpn * 4"

text \<open>The two entries of the walk, and its result for a memory that is read by \<open>rd\<close>.\<close>

definition pte1_address :: "u32 \<Rightarrow> u32 \<Rightarrow> u32" where
  "pte1_address satp va = pte_address (take_bit 22 satp) (drop_bit 22 va)"

definition pte0_address :: "u32 \<Rightarrow> u32 \<Rightarrow> u32" where
  "pte0_address pte1 va = pte_address (drop_bit 10 pte1) (take_bit 10 (drop_bit 12 va))"

definition sv32 :: "(u32 \<Rightarrow> u32) \<Rightarrow> u32 \<Rightarrow> u32 \<Rightarrow> PrivilegeLevel \<Rightarrow> AccessType \<Rightarrow> u32 \<Rightarrow> u32 option" where
  "sv32 rd satp mstatus level type va =
    (let pte1 = rd (pte1_address satp va) in
     if \<not> sv32_valid pte1 then None
     else if sv32_leaf pte1 then
       (if sv32_allowed mstatus level type pte1 \<and> take_bit 10 (drop_bit 10 pte1) = 0
        then Some (push_bit 22 (drop_bit 20 pte1) + take_bit 22 va) else None)
     else
       (let pte0 = rd (pte0_address pte1 va) in
        if sv32_valid pte0 \<and> sv32_leaf pte0 \<and> sv32_allowed mstatus level type pte0
        then Some (push_bit 12 (drop_bit 10 pte0) + take_bit 12 va) else None))"

subsection \<open>The tests of the code\<close>

lemma and_bit_zero: "(x :: u32) AND push_bit k 1 = 0 \<longleftrightarrow> \<not> bit x k"
  by (simp add: push_bit_eq_mult and_exp_eq_0_iff_not_bit)

lemma pte_masks: "PTE_V = push_bit 0 1" "PTE_R = push_bit 1 1" "PTE_W = push_bit 2 1" "PTE_X = push_bit 3 1"
    "PTE_U = push_bit 4 1" "PTE_A = push_bit 6 1" "PTE_D = push_bit 7 1"
  by (simp_all add: pte_defs)

lemma pte_tests:
  "pte AND PTE_V = 0 \<longleftrightarrow> \<not> bit pte 0" "pte AND PTE_R = 0 \<longleftrightarrow> \<not> bit pte 1" "pte AND PTE_W = 0 \<longleftrightarrow> \<not> bit pte 2"
  "pte AND PTE_X = 0 \<longleftrightarrow> \<not> bit pte 3" "pte AND PTE_U = 0 \<longleftrightarrow> \<not> bit pte 4" "pte AND PTE_A = 0 \<longleftrightarrow> \<not> bit pte 6"
  "pte AND PTE_D = 0 \<longleftrightarrow> \<not> bit pte 7"
  unfolding pte_masks by (rule and_bit_zero)+

lemma pte_invalid_spec: "pte_invalid pte \<longleftrightarrow> \<not> sv32_valid pte"
  by (auto simp: pte_invalid_def sv32_valid_def pte_tests)

lemma pte_leaf_spec: "pte_leaf pte \<longleftrightarrow> sv32_leaf pte"
proof -
  have "pte AND (PTE_R OR PTE_W OR PTE_X) = (pte AND PTE_R) OR (pte AND PTE_W) OR (pte AND PTE_X)"
    by (simp add: bit.conj_disj_distrib)
  also have "\<dots> = 0 \<longleftrightarrow> pte AND PTE_R = 0 \<and> pte AND PTE_W = 0 \<and> pte AND PTE_X = 0"
    by (simp add: or_eq_0_iff)
  finally show ?thesis by (auto simp: pte_leaf_def sv32_leaf_def pte_tests)
qed

lemma leaf_denied_spec: "leaf_denied mstatus pte type level \<longleftrightarrow> \<not> sv32_allowed mstatus level type pte"
  by (cases type) (auto simp: leaf_denied_def sv32_allowed_def pte_tests)

lemma bit_flags: "n < 32 \<Longrightarrow> bit PTE_A n \<longleftrightarrow> n = 6" "n < 32 \<Longrightarrow> bit PTE_D n \<longleftrightarrow> n = 7"
  unfolding pte_masks by (auto simp only: bit_push_bit_iff bit_1_iff) auto

lemma pte_updated_high:
  assumes "8 \<le> n"
  shows "bit (pte_updated pte type) n = bit pte n"
proof (cases "n < 32")
  case True
  then show ?thesis using assms by (auto simp: pte_updated_def Let_def bit_or_iff bit_flags)
qed (auto dest: bit_imp_le_length)

lemma pte_updated_ppn:
  "drop_bit 20 (pte_updated pte type) = drop_bit 20 pte" "drop_bit 10 (pte_updated pte type) = drop_bit 10 pte"
  by (rule bit_word_eqI; simp add: bit_drop_bit_eq pte_updated_high)+

lemma superpage_test: "pte AND 0x000FFC00 = 0 \<longleftrightarrow> take_bit 10 (drop_bit 10 (pte :: u32)) = 0"
proof -
  have m: "(0x000FFC00 :: u32) = push_bit 10 (mask 10)" by (simp add: mask_numeral push_bit_eq_mult)
  have "pte AND push_bit 10 (mask 10) = push_bit 10 (take_bit 10 (drop_bit 10 pte))"
    by (rule bit_word_eqI) (auto simp: bit_simps)
  moreover have "push_bit 10 (take_bit 10 x) = 0 \<longleftrightarrow> take_bit 10 x = 0" for x :: u32
  proof -
    have "drop_bit 10 (push_bit 10 (take_bit 10 x)) = take_bit 10 x"
      by (rule bit_word_eqI) (auto simp: bit_simps)
    then show ?thesis by (metis drop_bit_of_0 push_bit_of_0)
  qed
  ultimately show ?thesis unfolding m by simp
qed

lemma join_page:
  fixes va :: u32
  shows "push_bit 12 p OR (va AND 0xFFF) = push_bit 12 p + take_bit 12 va"
    "push_bit 22 p OR (va AND PPN_MASK) = push_bit 22 p + take_bit 22 va"
proof -
  have m: "(0xFFF :: u32) = mask 12" "PPN_MASK = mask 22" by (simp_all add: mask_numeral PPN_MASK_def)
  have "push_bit n p AND take_bit n va = 0" for n
    by (rule bit_word_eqI) (auto simp: bit_simps)
  from disjunctive_add_eq_or [OF this]
  show "push_bit 12 p OR (va AND 0xFFF) = push_bit 12 p + take_bit 12 va"
    "push_bit 22 p OR (va AND PPN_MASK) = push_bit 22 p + take_bit 22 va"
    unfolding m by (simp_all add: take_bit_eq_mask)
qed

lemma mask_ppn1: "drop_bit 20 (pte :: u32) AND 0xFFF = drop_bit 20 pte"
proof -
  have m: "(0xFFF :: u32) = mask 12" by (simp add: mask_numeral)
  show ?thesis unfolding m by (rule bit_word_eqI) (auto simp: bit_simps dest: bit_imp_le_length)
qed

subsection \<open>The walk computes it\<close>

definition leaf_address :: "nat \<Rightarrow> u32 \<Rightarrow> u32 \<Rightarrow> u32" where
  "leaf_address i pte va = (if i = 1 then push_bit 22 (drop_bit 20 pte) + take_bit 22 va
     else push_bit 12 (drop_bit 10 pte) + take_bit 12 va)"

text \<open>What a leaf leaves in the buffer.\<close>

definition leaf_fill :: "nat \<Rightarrow> u32 \<Rightarrow> u16 \<Rightarrow> u32 \<Rightarrow> TLB \<Rightarrow> TLB" where
  "leaf_fill i vpn asid pte = (if i = 1 then tlb_fill vpn asid (drop_bit 20 pte) (pte_to_flags pte) True
     else tlb_fill vpn asid (drop_bit 10 pte) (pte_to_flags pte) False)"

lemma pmp_probe_run: "pmp_probe pa type priv m = Ok () m"
  by (simp add: pmp_probe_def mach_simps)

lemma walk_leaf_after:
  assumes w: "do_if (pte_updated pte type \<noteq> pte) (bus_write32 a (pte_updated pte type)) m = Ok () n"
    and ms: "mstatus = cpu_csrs (em_cpu m) MSTATUS"
  shows "walk_leaf va type level vpn asid i a pte m =
    (if \<not> sv32_allowed mstatus level type pte then Raise (page_fault type) m
     else if i = 1 \<and> take_bit 10 (drop_bit 10 pte) \<noteq> 0 then Raise (page_fault type) n
     else Ok (leaf_address i pte va)
       (n\<lparr>em_cpu := (em_cpu n)\<lparr>cpu_tlb := leaf_fill i vpn asid pte (cpu_tlb (em_cpu n))\<rparr>\<rparr>))"
  using w
  by (simp add: walk_leaf_def andthen_def bnd_def csr_def get_cpu_def reads_def fault_if_def ms [symmetric]
      leaf_denied_spec triggerPageFault_def throw_def Let_def superpage_test pte_updated_ppn ret_def
      fill_tlb_def upd_cpu_def updates_def pmp_probe_run mask_ppn1 join_page leaf_address_def leaf_fill_def
      del: One_nat_def)

lemma walk_leaf_memory:
  assumes "in_memory a" "mstatus = cpu_csrs (em_cpu m) MSTATUS"
  shows "\<exists>m'. walk_leaf va type level vpn asid i a pte m =
    (if sv32_allowed mstatus level type pte \<and> (i = 1 \<longrightarrow> take_bit 10 (drop_bit 10 pte) = 0)
     then Ok (leaf_address i pte va) m' else Raise (page_fault type) m')"
proof -
  have "\<exists>n. do_if (pte_updated pte type \<noteq> pte) (bus_write32 a (pte_updated pte type)) m = Ok () n"
    using assms(1) bus_write32_dram [of a "pte_updated pte type" m]
    by (auto simp: in_memory_def do_if_def ret_def)
  then obtain n where "do_if (pte_updated pte type \<noteq> pte) (bus_write32 a (pte_updated pte type)) m = Ok () n" ..
  from walk_leaf_after [OF this assms(2)] show ?thesis by auto
qed

text \<open>The tables that a walk from \<open>satp\<close> visits lie in memory.\<close>

definition tables_in_memory :: "Machine \<Rightarrow> u32 \<Rightarrow> bool" where
  "tables_in_memory m va \<longleftrightarrow>
    (let satp = cpu_csrs (em_cpu m) SATP; pte1 = memory_word m (pte1_address satp va) in
     in_memory (pte1_address satp va)
     \<and> (sv32_valid pte1 \<and> \<not> sv32_leaf pte1 \<longrightarrow> in_memory (pte0_address pte1 va)))"

lemma read_pte_memory: "in_memory a \<Longrightarrow> read_pte a type m = Ok (memory_word m a) m"
  by (simp add: read_pte_def in_memory_def bus_read32_dram catching_def memory_word_def)

lemma walk_addresses:
  "(satp AND PPN_MASK) * 4096 + vpn_of va 1 * 4 = pte1_address satp va"
  "drop_bit 10 pte * 4096 + vpn_of va 0 * 4 = pte0_address pte va"
proof -
  have m: "PPN_MASK = mask 22" "VPN_MASK = mask 10" by (simp_all add: mask_numeral PPN_MASK_def VPN_MASK_def)
  have "take_bit 10 (drop_bit 22 va) = drop_bit 22 va"
    by (rule bit_word_eqI) (auto simp: bit_simps dest: bit_imp_le_length)
  then show "(satp AND PPN_MASK) * 4096 + vpn_of va 1 * 4 = pte1_address satp va"
    "drop_bit 10 pte * 4096 + vpn_of va 0 * 4 = pte0_address pte va"
    by (simp_all add: pte1_address_def pte0_address_def pte_address_def vpn_of_def m take_bit_eq_mask)
qed

lemma drop_31: "drop_bit 31 (w :: u32) = 0 \<longleftrightarrow> \<not> bit w 31"
proof
  assume "drop_bit 31 w = 0"
  then have "\<not> bit (drop_bit 31 w) 0" by simp
  then show "\<not> bit w 31" by (simp add: bit_drop_bit_eq)
next
  assume "\<not> bit w 31"
  then have "\<not> bit w (31 + n)" for n by (cases n) (auto dest: bit_imp_le_length)
  then show "drop_bit 31 w = 0" by (intro bit_word_eqI) (simp add: bit_drop_bit_eq)
qed

lemma miss_unchanged: "fst (tlb_lookup vpn asid t) = None \<Longrightarrow> tlb_lookup vpn asid t = (None, t)"
  by (auto simp: tlb_lookup_def Let_def split: option.splits)

lemma translate_miss:
  assumes "bit (cpu_csrs (em_cpu m) SATP) 31"
    and "fst (tlb_lookup (drop_bit 12 va) (satp_asid (cpu_csrs (em_cpu m) SATP)) (cpu_tlb (em_cpu m))) = None"
  shows "translate va type m = translate_walk va type (effective_level type (em_cpu m)) (drop_bit 12 va)
    (satp_asid (cpu_csrs (em_cpu m) SATP)) m"
  using assms(1) miss_unchanged [OF assms(2)]
  by (simp add: translate_def mach_simps drop_31 Let_def lookup_tlb_def)

text \<open>
  C4. The page-table walk refines the Sv32 translation of the privileged architecture: with
  translation on, no entry of the buffer for the page, and the tables in main memory, \<open>translate\<close>
  returns exactly the address that the specification computes from the words of memory, and raises the page
  fault of the access exactly when the specification has none.
\<close>

theorem translate_refines_sv32:
  assumes on: "bit (cpu_csrs (em_cpu m) SATP) 31"
    and miss: "fst (tlb_lookup (drop_bit 12 va) (satp_asid (cpu_csrs (em_cpu m) SATP)) (cpu_tlb (em_cpu m))) = None"
    and tables: "tables_in_memory m va"
  shows "\<exists>m'. translate va type m =
    (case sv32 (memory_word m) (cpu_csrs (em_cpu m) SATP) (cpu_csrs (em_cpu m) MSTATUS)
        (effective_level type (em_cpu m)) type va of
      Some pa \<Rightarrow> Ok pa m' | None \<Rightarrow> Raise (page_fault type) m')"
proof -
  let ?satp = "cpu_csrs (em_cpu m) SATP" and ?ms = "cpu_csrs (em_cpu m) MSTATUS"
  let ?asid = "satp_asid ?satp" and ?lv = "effective_level type (em_cpu m)" and ?vpn = "drop_bit 12 va"
  let ?a1 = "pte1_address ?satp va"
  let ?pte1 = "memory_word m ?a1"
  let ?a0 = "pte0_address ?pte1 va"
  let ?pte0 = "memory_word m ?a0"
  have mem1: "in_memory ?a1" using tables by (simp add: tables_in_memory_def Let_def)
  have start: "translate va type m = walk_levels va type ?lv ?vpn ?asid [1, 0] ((?satp AND PPN_MASK) * 4096) m"
    unfolding translate_miss [OF on miss] by (simp add: translate_walk_def mach_simps)
  note step = walk_levels.simps Let_def walk_addresses bnd_def andthen_def read_pte_memory [OF mem1]
    fault_if_def pte_invalid_spec pte_leaf_spec triggerPageFault_def throw_def ret_def
  consider "\<not> sv32_valid ?pte1" | "sv32_valid ?pte1" "sv32_leaf ?pte1"
    | "sv32_valid ?pte1" "\<not> sv32_leaf ?pte1" "in_memory ?a0"
    using tables unfolding tables_in_memory_def Let_def by blast
  then show ?thesis
  proof cases
    case 1
    then show ?thesis unfolding start sv32_def by (simp add: step del: One_nat_def)
  next
    case 2
    then show ?thesis
      using walk_leaf_memory [where m = m, OF mem1 refl, of va type ?lv ?vpn ?asid 1 ?pte1]
      unfolding start sv32_def by (auto simp: step leaf_address_def simp del: One_nat_def)
  next
    case 3
    note step = step read_pte_memory [OF 3(3)]
    show ?thesis
      using 3 walk_leaf_memory [where m = m, OF 3(3) refl, of va type ?lv ?vpn ?asid 0 ?pte0]
      unfolding start sv32_def by (auto simp: step leaf_address_def simp del: One_nat_def)
  qed
qed

text \<open>Page 0x40000 mapped by a superpage to the start of memory, in a table in memory.\<close>

definition mapped_demo :: Machine where
  "mapped_demo = demo\<lparr>em_dram := (\<lambda>_. 0)(0x400 := 0xCF, 0x403 := 0x20),
     em_cpu := (em_cpu demo)\<lparr>cpu_csrs := (\<lambda>_. 0)(SATP := 0x80080000)\<rparr>\<rparr>"

lemma mapped_demo_facts:
  "cpu_csrs (em_cpu mapped_demo) SATP = 0x80080000" "cpu_csrs (em_cpu mapped_demo) MSTATUS = 0"
  "cpu_privilege_level (em_cpu mapped_demo) = MACHINE" "cpu_tlb (em_cpu mapped_demo) = TLB_reset"
  "memory_word mapped_demo 0x80000400 = 0x200000CF"
  by (simp_all add: mapped_demo_def demo_defs csr_numbers memory_word_def dram_word_def dram_get_def
      dram_offset_def DRAM_BASE_def le32_def)

lemma mapped_demo_walk:
  assumes "drop_bit 22 va = 0x100"
  shows "pte1_address 0x80080000 va = 0x80000400"
  using assms by (simp add: pte1_address_def pte_address_def)

lemma mapped_demo_tables:
  assumes "drop_bit 22 va = 0x100"
  shows "tables_in_memory mapped_demo va"
proof -
  have "in_memory 0x80000400"
    by (simp add: in_memory_def region_defs dram_fits_def dram_offset_def TOHOST_def)
  then show ?thesis
    by (simp add: tables_in_memory_def Let_def mapped_demo_facts mapped_demo_walk [OF assms] sv32_leaf_def)
qed

lemma empty_tlb_misses: "fst (tlb_lookup vpn asid TLB_reset) = None"
  by (simp add: tlb_lookup_None tlb_matches_def TLB_reset_def TLBEntry0_def)

theorem translate_refines_sv32_witness:
  "\<exists>m'. translate 0x40000123 LOAD mapped_demo = Ok 0x80000123 m'"
proof -
  have v: "drop_bit 22 (0x40000123 :: u32) = 0x100" by simp
  have "sv32 (memory_word mapped_demo) 0x80080000 0 MACHINE LOAD 0x40000123 = Some 0x80000123"
    unfolding sv32_def mapped_demo_walk [OF v] mapped_demo_facts
    by (simp add: sv32_valid_def sv32_leaf_def sv32_allowed_def)
  then show ?thesis
    using translate_refines_sv32 [of mapped_demo "0x40000123" LOAD] mapped_demo_tables [OF v]
    by (simp add: mapped_demo_facts empty_tlb_misses effective_level_def)
qed

subsection \<open>The buffer answers as the walk did\<close>

lemma core_cpu: "core n = core m \<Longrightarrow> cpu_csrs (em_cpu n) = cpu_csrs (em_cpu m)
    \<and> cpu_privilege_level (em_cpu n) = cpu_privilege_level (em_cpu m) \<and> cpu_tlb (em_cpu n) = cpu_tlb (em_cpu m)"
proof -
  assume "core n = core m"
  then have c: "cpu_core (em_cpu n) = cpu_core (em_cpu m)" by (simp add: core_def)
  have "cpu_csrs c = cpu_csrs (cpu_core c)" "cpu_privilege_level c = cpu_privilege_level (cpu_core c)"
    "cpu_tlb c = cpu_tlb (cpu_core c)" for c by (simp_all add: cpu_core_def)
  with c show ?thesis by metis
qed

lemma read_pte_core: "read_pte a type m = Ok pte n \<Longrightarrow> core n = core m"
  by (auto simp: read_pte_def catching_def triggerPageFault_def throw_def
      split: result.splits option.splits if_splits dest: keeps_Ok [OF core.k_bus_read32 refl])

lemma walk_leaf_Ok:
  assumes "walk_leaf va type level vpn asid i a pte m = Ok pa m'"
  shows "\<exists>n. core n = core m \<and> pa = leaf_address i pte va
    \<and> sv32_allowed (cpu_csrs (em_cpu m) MSTATUS) level type pte
    \<and> m' = n\<lparr>em_cpu := (em_cpu n)\<lparr>cpu_tlb := leaf_fill i vpn asid pte (cpu_tlb (em_cpu n))\<rparr>\<rparr>"
proof -
  let ?w = "do_if (pte_updated pte type \<noteq> pte) (bus_write32 a (pte_updated pte type))"
  have "sv32_allowed (cpu_csrs (em_cpu m) MSTATUS) level type pte"
    using assms by (auto simp: walk_leaf_def mach_simps fault_if_def leaf_denied_spec triggerPageFault_def split: if_splits)
  moreover obtain n where n: "?w m = Ok () n"
    using assms calculation
    by (cases "?w m") (simp_all add: walk_leaf_def andthen_def bnd_def csr_def get_cpu_def reads_def fault_if_def
        leaf_denied_spec Let_def ret_def)
  moreover have "core n = core m"
    using keeps_Ok [OF keeps_do_if [OF core.k_bus_write32] refl n] .
  ultimately show ?thesis using walk_leaf_after [OF n refl] assms by (auto split: if_splits)
qed

lemma walk_levels_Ok:
  "walk_levels va type level vpn asid ls a m = Ok pa m' \<Longrightarrow>
   \<exists>i \<in> set ls. \<exists>pte n. core n = core m \<and> pa = leaf_address i pte va
    \<and> sv32_allowed (cpu_csrs (em_cpu m) MSTATUS) level type pte
    \<and> m' = n\<lparr>em_cpu := (em_cpu n)\<lparr>cpu_tlb := leaf_fill i vpn asid pte (cpu_tlb (em_cpu n))\<rparr>\<rparr>"
proof (induction ls arbitrary: a m)
  case Nil
  then show ?case by (simp add: triggerPageFault_def throw_def)
next
  case (Cons i ls)
  let ?a = "a + vpn_of va i * 4"
  from Cons.prems obtain pte m1 where r: "read_pte ?a type m = Ok pte m1" and "\<not> pte_invalid pte"
    and rest: "(if pte_leaf pte then walk_leaf va type level vpn asid i ?a pte
        else walk_levels va type level vpn asid ls (drop_bit 10 pte * 4096)) m1 = Ok pa m'"
    by (auto simp: Let_def andthen_def bnd_Ok_iff fault_if_def triggerPageFault_def throw_def
        ret_def split: if_splits)
  note same = read_pte_core [OF r]
  show ?case
  proof (cases "pte_leaf pte")
    case True
    with rest walk_leaf_Ok [of va type level vpn asid i ?a pte m1 pa m'] same core_cpu [OF same]
    show ?thesis by auto
  next
    case False
    with rest Cons.IH [of "drop_bit 10 pte * 4096" m1] same core_cpu [OF same] show ?thesis by auto
  qed
qed

text \<open>The address of a hit is that of the leaf, with the offset of the new access.\<close>

lemma page_part:
  fixes va va2 :: u32
  assumes "drop_bit 12 va2 = drop_bit 12 va"
  shows "push_bit 12 p + take_bit 12 va2 = push_bit 12 (drop_bit 12 (push_bit 12 p + take_bit 12 va)) + take_bit 12 va2"
    and "push_bit 22 q OR push_bit 12 (drop_bit 12 va2 AND 0x3FF) OR (va2 AND 0xFFF)
      = push_bit 12 (drop_bit 12 (push_bit 22 q + take_bit 22 va)) + take_bit 12 va2"
proof -
  have m: "(0x3FF :: u32) = mask 10" "(0xFFF :: u32) = mask 12" by (simp_all add: mask_numeral)
  have va: "bit va2 n \<longleftrightarrow> bit va n" if "12 \<le> n" for n
  proof -
    have "bit (drop_bit 12 va2) (n - 12) = bit (drop_bit 12 va) (n - 12)" by (simp only: assms)
    then show ?thesis using that by (simp add: bit_drop_bit_eq)
  qed
  have or: "push_bit k x + take_bit k y = push_bit k x OR take_bit k y" for x y :: u32 and k
    by (rule disjunctive_add_eq_or) (rule bit_word_eqI, auto simp: bit_simps)
  show "push_bit 12 p + take_bit 12 va2 = push_bit 12 (drop_bit 12 (push_bit 12 p + take_bit 12 va)) + take_bit 12 va2"
    unfolding or by (rule bit_word_eqI) (auto simp: bit_simps)
  show "push_bit 22 q OR push_bit 12 (drop_bit 12 va2 AND 0x3FF) OR (va2 AND 0xFFF)
      = push_bit 12 (drop_bit 12 (push_bit 22 q + take_bit 22 va)) + take_bit 12 va2"
    unfolding or m
  proof (rule bit_word_eqI)
    fix n assume n: "n < LENGTH(32)"
    have "n < 12 \<or> (\<exists>k < 10. n = 12 + k) \<or> (\<exists>k. n = 22 + k)"
      by (cases "n < 12"; cases "n < 22") (simp_all add: not_less le_iff_add [of 12] le_iff_add [of 22] ex_simps, auto)
    then consider "n < 12" | k where "n = 12 + k" "k < 10" | k where "n = 22 + k" by blast
    then show "bit (push_bit 22 q OR push_bit 12 (drop_bit 12 va2 AND mask 10) OR (va2 AND mask 12)) n
      = bit (push_bit 12 (drop_bit 12 (push_bit 22 q OR take_bit 22 va)) OR take_bit 12 va2) n"
      using n by cases (simp_all add: bit_simps va)
  qed
qed



end
