(* ===== verification/Ring.thy ===== *)
theory Ring
  imports Coherence
begin

section \<open>Processing the block device's queue ends\<close>

text \<open>
  A calculus for programs that always end and keep some part of the state: reads, requests and
  transfers keep the registers of the block device, so each round of \<open>process_queue\<close> moves the
  device's ring index by one, and the loop ends when it meets the driver's.
\<close>

unbundle bit_operations_syntax

subsection \<open>Programs that end and keep a part of the state\<close>

definition steady :: "('s \<Rightarrow> 'r) \<Rightarrow> ('s, 'a) prog \<Rightarrow> bool" where
  "steady f p \<longleftrightarrow> (\<forall>m. p m \<noteq> NoFuel \<and> (\<forall>a t. p m = Ok a t \<longrightarrow> f t = f m))"

lemma steadyI: "(\<And>m. p m \<noteq> NoFuel) \<Longrightarrow> (\<And>m a t. p m = Ok a t \<Longrightarrow> f t = f m) \<Longrightarrow> steady f p"
  by (simp add: steady_def)

lemma steady_ends: "steady f p \<Longrightarrow> p m \<noteq> NoFuel"
  by (simp add: steady_def)

lemma steady_Ok: "steady f p \<Longrightarrow> p m = Ok a t \<Longrightarrow> f t = f m"
  by (simp add: steady_def)

lemma s_basic: "steady f (ret a)" "steady f (throw e)" "steady f undef" "steady f (reads g)" "steady f (defined x)"
  by (simp_all add: steady_def prog_simps split: option.splits)

lemma s_updates: "(\<And>m. f (g m) = f m) \<Longrightarrow> steady f (updates g)"
  by (simp add: steady_def prog_simps)

lemma s_bnd: "steady f p \<Longrightarrow> (\<And>a. steady f (k a)) \<Longrightarrow> steady f (bnd p k)"
  by (rule steadyI) (force simp: bnd_def steady_def split: result.splits)+

lemma s_andthen: "steady f p \<Longrightarrow> steady f q \<Longrightarrow> steady f (andthen p q)"
  by (simp add: andthen_def s_bnd)

lemma s_if: "(b \<Longrightarrow> steady f p) \<Longrightarrow> (\<not> b \<Longrightarrow> steady f q) \<Longrightarrow> steady f (if b then p else q)"
  by simp

lemma s_do_if: "(b \<Longrightarrow> steady f p) \<Longrightarrow> steady f (do_if b p)"
  by (simp add: do_if_def s_basic)

lemma s_checked: "steady f p \<Longrightarrow> steady f (checked b p)"
  by (simp add: checked_def s_basic)

lemma s_let: "(\<And>a. steady f (q a)) \<Longrightarrow> steady f (let a = x in q a)"
  by (simp add: Let_def)

lemma s_prod: "(\<And>a b. steady f (q a b)) \<Longrightarrow> steady f (case x of (a, b) \<Rightarrow> q a b)"
  by (cases x) simp

lemmas s_rules = s_basic s_bnd s_andthen s_if s_do_if s_checked s_let s_prod

subsection \<open>The registers of the block device\<close>

definition blk_ring :: "Machine \<Rightarrow> u32 \<times> u32 \<times> u16" where
  "blk_ring m = (vb_used_addr (em_blk m), vb_avail_addr (em_blk m), vb_last_avail_idx (em_blk m))"

lemma s_cpu: "steady blk_ring (upd_cpu g)" "steady blk_ring (notify_store a)" "steady blk_ring (raise_irq irq)"
  unfolding notify_store_def invalidateReservation_def invalidate_page_def clearDecodeCache_def upd_cpu_def
    raise_irq_def
  by (intro s_rules s_updates; simp add: blk_ring_def Let_def)+

lemma s_states: "steady blk_ring (state_uart f1)" "steady blk_ring (state_plic f2)" "steady blk_ring (state_input f3)"
  by (rule steadyI; auto simp: state_uart_def state_plic_def state_input_def blk_ring_def split: prod.splits)+

lemma s_irq_uart: "steady blk_ring (irq_uart f)"
  unfolding irq_uart_def by (intro s_rules s_states s_cpu)

lemma s_blk_read: "steady blk_ring (state_blk (blk_read32 offset))"
  by (rule steadyI; auto simp: state_blk_def blk_read32_def blk_config_def disk_size_def blk_ring_def Let_def
      split: prod.splits if_splits)

lemma s_net_read: "steady blk_ring (net_read32 offset)" "steady blk_ring (net_read8 offset)"
proof -
  show r: "steady blk_ring (net_read32 offset)" for offset
    by (rule steadyI; auto simp: net_read32_def net_locked_def get_net_def reads_def net_unlock_def blk_ring_def
        split: if_splits)
  show "steady blk_ring (net_read8 offset)"
    unfolding net_read8_def by (intro s_rules r)
qed

lemma s_bus_reads: "steady blk_ring (bus_read8 a)" "steady blk_ring (bus_read16 a)" "steady blk_ring (bus_read32 a)"
  unfolding bus_read8_def bus_read16_def bus_read32_def
  by (intro s_rules s_states s_blk_read s_net_read)+

lemma s_bus_read_bytes: "steady blk_ring (bus_read_bytes a n)"
  by (induction n arbitrary: a) (auto intro!: s_rules s_bus_reads)

lemma s_dram: "steady blk_ring (updates (dram_set i b))" "steady blk_ring (updates (set_dram_half i h))"
  by (intro s_updates; simp add: blk_ring_def dram_set_def set_dram_half_def)+

lemma s_bus_writes: "steady blk_ring (bus_write8 a v)" "steady blk_ring (bus_write16 a h)"
  unfolding bus_write8_def bus_write16_def
  by (intro s_rules s_irq_uart s_dram s_cpu s_updates; simp add: blk_ring_def)+

lemma s_disk: "steady blk_ring (upd_disk g)" "steady blk_ring disk_failed" "steady blk_ring (get_blk k)"
    "steady blk_ring (dma_to_dram a bs)"
  unfolding upd_disk_def upd_blk_def disk_failed_def get_blk_def dma_to_dram_def
  by (intro s_rules s_updates; simp add: blk_ring_def)+

lemma s_disk_read_into: "steady blk_ring (disk_read_into pos a len)"
proof -
  have "steady blk_ring (state_blk (\<lambda>b. case disk_read pos (unat len) (vb_disk b) of
      (bytes, d) \<Rightarrow> (bytes, b\<lparr>vb_disk := d\<rparr>)))"
    by (rule steadyI; auto simp: state_blk_def blk_ring_def split: prod.splits)
  then show ?thesis unfolding disk_read_into_def by (intro s_rules s_disk)
qed

lemma s_handle_request: "steady blk_ring (handle_request head)"
  unfolding handle_request_def blk_read_desc_def blk_transfer_in_def blk_transfer_out_def
  by (intro s_rules s_bus_reads s_bus_read_bytes s_bus_writes s_disk s_disk_read_into)

subsection \<open>A round\<close>

text \<open>The used ring at \<open>u\<close> lies in main memory, clear of the exit word.\<close>

definition ring_in_memory :: "u32 \<Rightarrow> bool" where
  "ring_in_memory u \<longleftrightarrow> list_all (\<lambda>i. in_memory (u + 4 + of_nat i * 8) \<and> in_memory (u + 4 + of_nat i * 8 + 4)) [0..<8]"

lemma ring_entry:
  assumes "ring_in_memory u"
  shows "in_memory (u + 4 + ucast (i mod BLK_QUEUE_SIZE) * 8) \<and> in_memory (u + 4 + ucast (i mod BLK_QUEUE_SIZE) * 8 + 4)"
proof -
  let ?j = "unat (i mod BLK_QUEUE_SIZE)"
  have "?j < 8" by (simp add: BLK_QUEUE_SIZE_def unat_mod)
  then have "?j \<in> set [0..<8]" by simp
  moreover have "(ucast (i mod BLK_QUEUE_SIZE) :: u32) = of_nat ?j" by (simp add: unsigned_ucast_eq word_unat_eq_iff)
  ultimately show ?thesis using assms unfolding ring_in_memory_def list_all_iff by metis
qed

lemma word_write:
  assumes "in_memory a"
  shows "\<exists>t. bus_write32_at (Suc d) a v m = Ok () t \<and> em_blk t = em_blk m"
proof -
  have "bus_write32_at (Suc d) a v m = Ok () (set_dram_word (dram_offset a) v m\<lparr>em_cpu := told a (em_cpu m)\<rparr>)"
    using assms by (intro bus_write32_at_dram) (simp_all add: in_memory_def)
  then show ?thesis by (simp add: set_dram_word_def dram_set_def)
qed

lemma read16_pure: "bus_read16 a m = Ok h t \<Longrightarrow> t = m" "bus_read16 a m \<noteq> NoFuel"
  by (auto simp: bus_read16_def checked_def reads_def undef_def throw_def split: if_splits)

lemma complete_ring:
  assumes ring: "ring_in_memory (vb_used_addr (em_blk m))"
  shows "blk_complete (bus_write32_at (Suc d)) head m \<noteq> NoFuel
    \<and> (\<forall>t. blk_complete (bus_write32_at (Suc d)) head m = Ok () t \<longrightarrow> blk_ring t = blk_ring m)"
proof (cases "bus_read16 (vb_used_addr (em_blk m) + 2) m")
  case (Ok i m0)
  then have i: "bus_read16 (vb_used_addr (em_blk m) + 2) m = Ok i m" using read16_pure by metis
  let ?e = "vb_used_addr (em_blk m) + 4 + ucast (i mod BLK_QUEUE_SIZE) * 8"
  note mem = ring_entry [OF ring, of i]
  obtain t1 where t1: "bus_write32_at (Suc d) ?e (ucast head) m = Ok () t1" "em_blk t1 = em_blk m"
    using word_write mem by blast
  obtain t2 where t2: "bus_write32_at (Suc d) (?e + 4) 0 t1 = Ok () t2" "em_blk t2 = em_blk t1"
    using word_write mem by blast
  let ?last = "bus_write16 (vb_used_addr (em_blk m) + 2) (i + 1)"
  have run: "blk_complete (bus_write32_at (Suc d)) head m = ?last t2"
    unfolding blk_complete_def Let_def
    by (simp only: bnd_def andthen_def get_blk_def reads_def result.case i t1 t2)
  show ?thesis
    using steady_ends [OF s_bus_writes(2)] steady_Ok [OF s_bus_writes(2), where m = t2] t1(2) t2(2)
    unfolding run by (auto simp: blk_ring_def)
qed (use read16_pure in \<open>auto simp: blk_complete_def bnd_def get_blk_def reads_def\<close>)

text \<open>A round moves the ring index of the device by one.\<close>

lemma round_ring:
  assumes ring: "ring_in_memory (vb_used_addr (em_blk m))"
  shows "blk_round (bus_write32_at (Suc d)) m \<noteq> NoFuel
    \<and> (\<forall>t. blk_round (bus_write32_at (Suc d)) m = Ok () t \<longrightarrow>
         vb_used_addr (em_blk t) = vb_used_addr (em_blk m)
         \<and> vb_last_avail_idx (em_blk t) = vb_last_avail_idx (em_blk m) + 1)"
proof -
  let ?read = "bus_read16 (vb_avail_addr (em_blk m) + 4 + ucast (vb_last_avail_idx (em_blk m) mod BLK_QUEUE_SIZE) * 2)"
  have run: "blk_round (bus_write32_at (Suc d)) m = bnd ?read (\<lambda>head. andthen (handle_request head)
      (andthen (blk_complete (bus_write32_at (Suc d)) head)
        (upd_blk (\<lambda>b. b\<lparr>vb_last_avail_idx := vb_last_avail_idx b + 1\<rparr>)))) m"
    by (simp add: blk_round_def bnd_def get_blk_def reads_def)
  show ?thesis
  proof (cases "?read m")
    case (Ok head m0)
    then have r: "?read m = Ok head m" using read16_pure by metis
    show ?thesis
    proof (cases "handle_request head m")
      case (Ok u m1)
      have same: "blk_ring m1 = blk_ring m" using steady_Ok [OF s_handle_request Ok] .
      then have "ring_in_memory (vb_used_addr (em_blk m1))" using ring by (simp add: blk_ring_def)
      note c = complete_ring [OF this, of d head]
      show ?thesis
        using c same unfolding run
        by (cases "blk_complete (bus_write32_at (Suc d)) head m1")
          (auto simp: bnd_def andthen_def r Ok upd_blk_def updates_def blk_ring_def)
    qed (use steady_ends [OF s_handle_request] in \<open>auto simp: run bnd_def andthen_def r\<close>)
  qed (use read16_pure in \<open>auto simp: run bnd_def\<close>)
qed

lemma loop_ring:
  assumes "ring_in_memory (vb_used_addr (em_blk m))" "unat (i - vb_last_avail_idx (em_blk m)) < n"
  shows "blk_loop n (bus_write32_at (Suc d)) i m \<noteq> NoFuel
    \<and> (\<forall>t. blk_loop n (bus_write32_at (Suc d)) i m = Ok () t \<longrightarrow> vb_last_avail_idx (em_blk t) = i)"
  using assms
proof (induction n arbitrary: m)
  case (Suc n)
  let ?l = "vb_last_avail_idx (em_blk m)"
  show ?case
  proof (cases "?l = i")
    case True
    then show ?thesis by (simp add: bnd_def get_blk_def reads_def ret_def)
  next
    case False
    then have "i - ?l \<noteq> 0" by simp
    then have "unat (i - ?l) = Suc (unat (i - ?l - 1))"
      using unatSuc [of "i - ?l - 1"] by simp
    then have less: "unat (i - (?l + 1)) < n" using Suc.prems(2) by (simp add: algebra_simps)
    note r = round_ring [OF Suc.prems(1), of d]
    show ?thesis
    proof (cases "blk_round (bus_write32_at (Suc d)) m")
      case (Ok u t)
      then have t: "vb_used_addr (em_blk t) = vb_used_addr (em_blk m)" "vb_last_avail_idx (em_blk t) = ?l + 1"
        using r by auto
      show ?thesis
        using Suc.IH [of t] Suc.prems(1) less False
        by (simp add: bnd_def get_blk_def reads_def andthen_def Ok t del: bus_write32_at.simps)
    qed (use r False in \<open>auto simp: bnd_def get_blk_def reads_def andthen_def simp del: bus_write32_at.simps\<close>)
  qed
qed simp

subsection \<open>The notification\<close>

definition blk_idle :: "VirtioBlk \<Rightarrow> bool" where
  "blk_idle b \<longleftrightarrow> vb_queue_ready b = 0 \<or> vb_desc_addr b = 0 \<or> vb_avail_addr b = 0 \<or> vb_used_addr b = 0"

lemma ring_fuel: "unat (i :: u16) < RING_FUEL"
  using unsigned_less [of i, where 'a = nat] by (simp add: RING_FUEL_def)

lemma notify_write:
  "bus_write32_at (Suc d) (BLK_BASE + VIRTIO_QUEUE_NOTIFY) v m = blk_process_queue (bus_write32_at d) m"
  by (simp add: region_defs TOHOST_def blk_write32_def virtio_offsets VIRTIO_QUEUE_DESC_LO_def
      VIRTIO_QUEUE_AVAIL_LO_def VIRTIO_QUEUE_USED_LO_def)


text \<open>A queue with nothing in it, in the middle of memory.\<close>

definition ring_demo :: Machine where
  "ring_demo = demo\<lparr>em_blk := (em_blk demo)\<lparr>vb_queue_ready := 1, vb_desc_addr := 0x80010000,
     vb_avail_addr := 0x80011000, vb_used_addr := 0x80012000\<rparr>\<rparr>"


end
