(* ===== verification/Atomic.thy ===== *)
theory Atomic
  imports Coherence
begin

section \<open>Atomic instructions\<close>

text \<open>
  LR, SC and the read-modify-write instructions on a word of main memory, translation off.
\<close>

unbundle bit_operations_syntax

definition register :: "Machine \<Rightarrow> u8 \<Rightarrow> u32" where
  "register m r = cpu_regs (em_cpu m) r"

definition reserved_at :: "Machine \<Rightarrow> u32 \<Rightarrow> bool" where
  "reserved_at m a \<longleftrightarrow> cpu_reservation_valid (em_cpu m) \<and> cpu_reservation_addr (em_cpu m) = a"

lemma read_at: "in_memory a \<Longrightarrow> bus_read32 a m = Ok (memory_word m a) m"
  by (simp add: in_memory_def bus_read32_dram memory_word_def)

lemma write_at: "in_memory a \<Longrightarrow> bus_write32 a v m
    = Ok () (set_dram_word (dram_offset a) v m\<lparr>em_cpu := told a (em_cpu m)\<rparr>)"
  by (simp add: in_memory_def bus_write32_dram)

lemma word_after: "memory_word (set_dram_word (dram_offset a) v m\<lparr>em_cpu := c\<rparr>) a = v"
  by (simp add: memory_word_def dram_word_set)

lemma told_regs [simp]: "cpu_regs (told a c) = cpu_regs c" "cpu_sr (told a c) = cpu_sr c"
  by (simp_all add: told_def clearDecodeCache_cpu_def Let_def)

lemma lr_run:
  assumes "bare m" "in_memory (register m (di_rs1 i))"
  shows "\<exists>n. execLR_W i m = Ok () n \<and> reserved_at n (register m (di_rs1 i)) \<and> em_dram n = em_dram m
    \<and> cpu_regs (em_cpu n) = (if di_rd i = 0 then cpu_regs (em_cpu m)
        else (cpu_regs (em_cpu m))(di_rd i := memory_word m (register m (di_rs1 i))))"
  using assms(2) read_at [OF assms(2), of m]
  by (simp add: execLR_W_def with_rs1_def mach_simps translate_bare [OF assms(1)] register_def
      record_reg_def reserved_at_def)

lemma sc_run:
  assumes "bare m" "in_memory (register m (di_rs1 i))"
  shows "\<exists>n. execSC_W i m = Ok () n \<and> \<not> cpu_reservation_valid (em_cpu n)
    \<and> (if reserved_at m (register m (di_rs1 i))
       then memory_word n (register m (di_rs1 i)) = register m (di_rs2 i)
         \<and> cpu_regs (em_cpu n) = (if di_rd i = 0 then cpu_regs (em_cpu m) else (cpu_regs (em_cpu m))(di_rd i := 0))
       else em_dram n = em_dram m
         \<and> cpu_regs (em_cpu n) = (if di_rd i = 0 then cpu_regs (em_cpu m) else (cpu_regs (em_cpu m))(di_rd i := 1)))"
  using assms(2) read_at [OF assms(2), of m] write_at [OF assms(2), of "register m (di_rs2 i)" m]
  by (auto simp: execSC_W_def with_rs1_def mach_simps translate_bare [OF assms(1)] register_def
      record_reg_def reserved_at_def record_amo_def record_mem_def set_reservation_def memory_word_def dram_word_set)

lemma amo_run:
  assumes "bare m" "in_memory (register m (di_rs1 i))" "register m (di_rs1 i) AND 3 = 0"
  shows "\<exists>n. exec_amo f i m = Ok () n
    \<and> memory_word n (register m (di_rs1 i)) = f (memory_word m (register m (di_rs1 i))) (register m (di_rs2 i))
    \<and> \<not> reserved_at n (register m (di_rs1 i))
    \<and> cpu_regs (em_cpu n) = (if di_rd i = 0 then cpu_regs (em_cpu m)
        else (cpu_regs (em_cpu m))(di_rd i := memory_word m (register m (di_rs1 i))))"
  using assms(2,3) read_at [OF assms(2), of m] write_at [OF assms(2), of _ m] told_reservation
  by (auto simp: exec_amo_def with_rs1_def mach_simps translate_bare [OF assms(1)] register_def
      record_reg_def reserved_at_def record_amo_def record_mem_def atomic_rmw_w_def memory_word_def dram_word_set)

text \<open>
  C12. Load-reserved and store-conditional: LR loads the word and reserves its address; SC stores
  its operand and answers 0 exactly when that address is reserved, otherwise it answers 1 and changes no
  memory, and either way no reservation is left; and a word the processor stores to the
  reserved address in between takes the reservation away.
\<close>

theorem lr_sc_correct:
  assumes "bare m" and a: "a = register m (di_rs1 i)" and "in_memory a" and "di_rd i \<noteq> 0"
  shows "(\<exists>n. execLR_W i m = Ok () n \<and> register n (di_rd i) = memory_word m a \<and> reserved_at n a \<and> em_dram n = em_dram m)
    \<and> (\<exists>n. execSC_W i m = Ok () n \<and> \<not> cpu_reservation_valid (em_cpu n)
        \<and> (if reserved_at m a then memory_word n a = register m (di_rs2 i) \<and> register n (di_rd i) = 0
           else em_dram n = em_dram m \<and> register n (di_rd i) = 1))
    \<and> (\<exists>n. bus_write32 a v m = Ok () n \<and> \<not> reserved_at n a)"
proof (intro conjI)
  have mem: "in_memory (register m (di_rs1 i))" using assms by simp
  show "\<exists>n. execLR_W i m = Ok () n \<and> register n (di_rd i) = memory_word m a \<and> reserved_at n a \<and> em_dram n = em_dram m"
    using lr_run [OF assms(1) mem] assms(4) by (auto simp: a register_def)
  show "\<exists>n. execSC_W i m = Ok () n \<and> \<not> cpu_reservation_valid (em_cpu n)
      \<and> (if reserved_at m a then memory_word n a = register m (di_rs2 i) \<and> register n (di_rd i) = 0
         else em_dram n = em_dram m \<and> register n (di_rd i) = 1)"
    using sc_run [OF assms(1) mem] assms(4) by (auto simp: a register_def)
  show "\<exists>n. bus_write32 a v m = Ok () n \<and> \<not> reserved_at n a"
    using write_at [OF assms(3)] told_reservation by (simp add: reserved_at_def)
qed

text \<open>\<open>std::max\<close> and \<open>std::min\<close> as functions on integers.\<close>

lemma extrema:
  "smax = (\<lambda>x y. word_of_int (max (sint x) (sint y)))" "smin = (\<lambda>x y. word_of_int (min (sint x) (sint y)))"
  "(max :: u32 \<Rightarrow> u32 \<Rightarrow> u32) = (\<lambda>x y. word_of_int (max (uint x) (uint y)))"
  "(min :: u32 \<Rightarrow> u32 \<Rightarrow> u32) = (\<lambda>x y. word_of_int (min (uint x) (uint y)))"
  by (auto simp: fun_eq_iff smax_def smin_def max_def min_def word_le_def)

text \<open>The instructions and the functions they apply.\<close>

definition amo_table :: "((DecodedInstr \<Rightarrow> (Machine, unit) prog) \<times> (u32 \<Rightarrow> u32 \<Rightarrow> u32)) list" where
  "amo_table = [(execAMOSWAP_W, \<lambda>old v. v), (execAMOADD_W, \<lambda>old v. old + v), (execAMOAND_W, \<lambda>old v. old AND v),
     (execAMOOR_W, \<lambda>old v. old OR v), (execAMOXOR_W, \<lambda>old v. old XOR v),
     (execAMOMAX_W, \<lambda>old v. word_of_int (max (sint old) (sint v))),
     (execAMOMIN_W, \<lambda>old v. word_of_int (min (sint old) (sint v))),
     (execAMOMAXU_W, \<lambda>old v. word_of_int (max (uint old) (uint v))),
     (execAMOMINU_W, \<lambda>old v. word_of_int (min (uint old) (uint v)))]"

text \<open>
  C25. The nine read-modify-write instructions: with an aligned address in main memory, the old
  word goes to the destination register, the word becomes the sum, the bitwise combination or the extremum of
  the old word and the operand (or the operand itself), and a reservation of the address is gone.
\<close>

theorem amo_correct:
  assumes "bare m" and a: "a = register m (di_rs1 i)" and "in_memory a" and "a AND 3 = 0" and "di_rd i \<noteq> 0"
    and amo: "(exec, f) \<in> set amo_table"
  shows "\<exists>n. exec i m = Ok () n \<and> register n (di_rd i) = memory_word m a
    \<and> memory_word n a = f (memory_word m a) (register m (di_rs2 i)) \<and> \<not> reserved_at n a"
proof -
  have "exec i m = exec_amo f i m"
    using amo extrema by (auto simp: amo_table_def execAMOSWAP_W_def execAMOADD_W_def execAMOAND_W_def execAMOOR_W_def
        execAMOXOR_W_def execAMOMAX_W_def execAMOMIN_W_def execAMOMAXU_W_def execAMOMINU_W_def)
  then show ?thesis
    using amo_run [OF assms(1), of i f] assms(3-5) by (auto simp: a register_def)
qed

text \<open>A fresh machine whose register 6 points to the start of memory.\<close>

definition atomic_demo :: Machine where
  "atomic_demo = demo\<lparr>em_cpu := (em_cpu demo)\<lparr>cpu_regs := (\<lambda>_. 0)(6 := 0x80000000, 7 := 41)\<rparr>\<rparr>"

definition atomic_instr :: DecodedInstr where
  "atomic_instr = DecodedInstr0\<lparr>di_rd := 5, di_rs1 := 6, di_rs2 := 7\<rparr>"

lemma atomic_demo_facts:
  "bare atomic_demo" "register atomic_demo 6 = 0x80000000" "register atomic_demo 7 = 41"
  "in_memory 0x80000000" "\<not> reserved_at atomic_demo a"
  "di_rd atomic_instr = 5" "di_rs1 atomic_instr = 6" "di_rs2 atomic_instr = 7"
  by (simp_all add: atomic_demo_def bare_def demo_defs csr_numbers register_def in_memory_def region_defs
      dram_fits_def dram_offset_def TOHOST_def atomic_instr_def reserved_at_def)

theorem lr_sc_correct_witness:
  "\<exists>n. execLR_W atomic_instr atomic_demo = Ok () n \<and> reserved_at n 0x80000000"
proof -
  have "0x80000000 = register atomic_demo (di_rs1 atomic_instr)" "di_rd atomic_instr \<noteq> 0"
    by (simp_all add: atomic_demo_facts)
  from lr_sc_correct [OF atomic_demo_facts(1) this(1) atomic_demo_facts(4) this(2)] show ?thesis by blast
qed

theorem amo_correct_witness:
  "\<exists>n. execAMOADD_W atomic_instr atomic_demo = Ok () n \<and> memory_word n 0x80000000 = 41"
proof -
  have f: "0x80000000 = register atomic_demo (di_rs1 atomic_instr)" "(0x80000000 :: u32) AND 3 = 0"
    "di_rd atomic_instr \<noteq> 0" "(execAMOADD_W, \<lambda>old v. old + v) \<in> set amo_table"
    by (simp_all add: atomic_demo_facts amo_table_def)
  have w: "memory_word atomic_demo 0x80000000 = 0"
    by (simp add: memory_word_def dram_word_def dram_get_def atomic_demo_def demo_defs le32_def)
  from amo_correct [OF atomic_demo_facts(1) f(1) atomic_demo_facts(4) f(2-4)] show ?thesis
    by (auto simp: w atomic_demo_facts)
qed

end
