(* ===== verification/Arith.thy ===== *)
theory Arith
  imports Execute
begin

section \<open>Integer multiplication and division\<close>

text \<open>
  The instructions of the M extension compute what the instruction set defines over the
  integers. The multiplications of the code are 64-bit products, its divisions C++ ones with the
  exceptional cases tested first.
\<close>

unbundle bit_operations_syntax

subsection \<open>Products\<close>

lemma sint_u32: "- (2 ^ 31) \<le> sint (a :: u32)" "sint a < 2 ^ 31"
  using sint_greater_eq [of a] sint_less [of a] by simp_all

lemma uint_u32: "0 \<le> uint (a :: u32)" "uint a < 2 ^ 32"
  using unsigned_less [of a, where 'a = int] by simp_all

lemma product_bounds:
  fixes a b :: u32
  shows "\<bar>sint a * sint b\<bar> \<le> 2 ^ 62" "\<bar>sint a * uint b\<bar> < 2 ^ 63" "uint a * uint b < 2 ^ 64"
proof -
  have sa: "\<bar>sint a\<bar> \<le> 2 ^ 31" for a :: u32 using sint_u32 [of a] by simp
  have "\<bar>sint a\<bar> * \<bar>sint b\<bar> \<le> 2 ^ 31 * 2 ^ 31" by (intro mult_mono sa) auto
  then show "\<bar>sint a * sint b\<bar> \<le> 2 ^ 62" by (simp add: abs_mult)
  have "\<bar>sint a\<bar> * uint b \<le> 2 ^ 31 * (2 ^ 32 - 1)" using uint_u32 [of b] by (intro mult_mono sa) auto
  then show "\<bar>sint a * uint b\<bar> < 2 ^ 63" by (simp add: abs_mult)
  have "uint a * uint b \<le> (2 ^ 32 - 1) * (2 ^ 32 - 1)"
    using uint_u32 [of a] uint_u32 [of b] by (intro mult_mono) auto
  then show "uint a * uint b < 2 ^ 64" by simp
qed

lemma high_range:
  fixes x :: int
  shows "- (2 ^ 63) \<le> x \<Longrightarrow> x < 2 ^ 63 \<Longrightarrow> - (2 ^ 31) \<le> x div 2 ^ 32 \<and> x div 2 ^ 32 < 2 ^ 31"
    and "0 \<le> x \<Longrightarrow> x < 2 ^ 64 \<Longrightarrow> 0 \<le> x div 2 ^ 32 \<and> x div 2 ^ 32 < 2 ^ 32"
  by (auto simp: div_int_pos_iff)

lemma sint_fits: "- (2 ^ 31) \<le> x \<Longrightarrow> x < 2 ^ 31 \<Longrightarrow> sint (word_of_int x :: u32) = x"
  by (simp add: sint_sbintrunc' signed_take_bit_int_eq_self)

text \<open>The upper half of a 64-bit word.\<close>

lemma bit_high:
  assumes "n < 32"
  shows "bit (ucast (drop_bit 32 (x :: u64)) :: u32) n = bit x (32 + n)"
    and "bit (ucast (signed_drop_bit 32 x) :: u32) n = bit x (32 + n)"
  using assms by (simp_all add: bit_simps)

lemma high_word: "(ucast (drop_bit 32 (word_of_int x :: u64)) :: u32) = word_of_int (x div 2 ^ 32)"
proof (rule bit_word_eqI)
  fix n assume n: "n < LENGTH(32)"
  have "bit (x div 2 ^ 32) n = bit x (32 + n)"
    using bit_drop_bit_eq [of 32 x] by (simp add: drop_bit_eq_div fun_eq_iff)
  then show "bit (ucast (drop_bit 32 (word_of_int x :: u64)) :: u32) n = bit (word_of_int (x div 2 ^ 32) :: u32) n"
    using n by (simp add: bit_simps)
qed

lemma low_word: "(ucast (word_of_int x :: u64) :: u32) = word_of_int x"
  by (rule bit_word_eqI) (simp add: bit_simps)

lemma high_word_signed: "ucast (signed_drop_bit 32 (x :: u64)) = (ucast (drop_bit 32 x) :: u32)"
  by (rule bit_word_eqI) (simp add: bit_simps)

lemma wide_products:
  fixes a b :: u32
  shows "(scast a * scast b :: u64) = word_of_int (sint a * sint b)"
    "(scast a * ucast b :: u64) = word_of_int (sint a * uint b)"
    "(ucast a * ucast b :: u64) = word_of_int (uint a * uint b)"
  by simp_all

lemma product_values:
  "wmul a b = word_of_int (sint a * sint b)" "wmulh a b = word_of_int ((sint a * sint b) div 2 ^ 32)"
  "wmulhsu a b = word_of_int ((sint a * uint b) div 2 ^ 32)" "wmulhu a b = word_of_int ((uint a * uint b) div 2 ^ 32)"
proof -
  have low: "ucast (x AND 0xFFFFFFFF :: u64) = (ucast x :: u32)" for x
  proof -
    have m: "(0xFFFFFFFF :: u64) = mask 32" by (simp add: mask_numeral)
    show ?thesis unfolding m by (rule bit_word_eqI) (simp add: bit_simps)
  qed
  show "wmul a b = word_of_int (sint a * sint b)"
    unfolding wmul_def Let_def low wide_products low_word ..
  show "wmulh a b = word_of_int ((sint a * sint b) div 2 ^ 32)"
    by (simp only: wmulh_def Let_def high_word_signed wide_products high_word)
  show "wmulhsu a b = word_of_int ((sint a * uint b) div 2 ^ 32)" "wmulhu a b = word_of_int ((uint a * uint b) div 2 ^ 32)"
    by (simp_all only: wmulhsu_def wmulhu_def Let_def wide_products high_word)
qed

text \<open>
  C24. The four multiplications are the low word, and the high words of the signed, mixed
  and unsigned product of the operands as integers.
\<close>

theorem mul_correct:
  "wmul a b = word_of_int (sint a * sint b)
   \<and> sint (wmulh a b) = (sint a * sint b) div 2 ^ 32
   \<and> sint (wmulhsu a b) = (sint a * uint b) div 2 ^ 32
   \<and> uint (wmulhu a b) = (uint a * uint b) div 2 ^ 32"
proof (intro conjI)
  show "wmul a b = word_of_int (sint a * sint b)" by (rule product_values)
  note b = product_bounds [of a b]
  have "- (2 ^ 63) \<le> sint a * sint b" "sint a * sint b < 2 ^ 63" using b(1) by (simp_all add: abs_le_iff)
  from high_range(1) [OF this] show "sint (wmulh a b) = (sint a * sint b) div 2 ^ 32"
    by (simp add: product_values sint_fits)
  have "- (2 ^ 63) \<le> sint a * uint b" "sint a * uint b < 2 ^ 63" using b(2) by (simp_all add: abs_less_iff)
  from high_range(1) [OF this] show "sint (wmulhsu a b) = (sint a * uint b) div 2 ^ 32"
    by (simp add: product_values sint_fits)
  have "0 \<le> uint a * uint b" using uint_u32 by (intro mult_nonneg_nonneg) auto
  from high_range(2) [OF this b(3)] show "uint (wmulhu a b) = (uint a * uint b) div 2 ^ 32"
    by (simp add: product_values uint_word_of_int_eq take_bit_int_eq_self)
qed

subsection \<open>Quotients\<close>

lemma trem_mod: "trem x y = sgn x * (\<bar>x\<bar> mod \<bar>y\<bar>)"
proof -
  have "y * tdiv x y = sgn x * (\<bar>y\<bar> * (\<bar>x\<bar> div \<bar>y\<bar>))"
    by (simp add: tdiv_def abs_sgn [of y] mult_ac)
  moreover have "x = sgn x * \<bar>x\<bar>" by (simp add: sgn_mult_abs)
  ultimately have "trem x y = sgn x * (\<bar>x\<bar> - \<bar>y\<bar> * (\<bar>x\<bar> div \<bar>y\<bar>))"
    unfolding trem_def by (simp only: right_diff_distrib)
  then show ?thesis by (simp add: minus_mult_div_eq_mod)
qed

lemma trem_props:
  assumes "y \<noteq> 0"
  shows "\<bar>trem x y\<bar> < \<bar>y\<bar>" "\<bar>trem x y\<bar> \<le> \<bar>x\<bar>" "trem x y = 0 \<or> sgn (trem x y) = sgn x"
proof -
  have 1: "\<bar>x\<bar> mod \<bar>y\<bar> < \<bar>y\<bar>" "0 \<le> \<bar>x\<bar> mod \<bar>y\<bar>" using assms by simp_all
  show "\<bar>trem x y\<bar> < \<bar>y\<bar>" unfolding trem_mod using 1 assms by (simp add: abs_mult sgn_if)
  show "\<bar>trem x y\<bar> \<le> \<bar>x\<bar>" unfolding trem_mod
    using 1(2) zmod_le_nonneg_dividend [of "\<bar>x\<bar>" "\<bar>y\<bar>"] by (cases "x = 0") (simp_all add: abs_mult)
  show "trem x y = 0 \<or> sgn (trem x y) = sgn x"
    unfolding trem_mod
  proof (cases "\<bar>x\<bar> mod \<bar>y\<bar> = 0")
    case False
    with 1 have "sgn (\<bar>x\<bar> mod \<bar>y\<bar>) = 1" by simp
    then show "sgn x * (\<bar>x\<bar> mod \<bar>y\<bar>) = 0 \<or> sgn (sgn x * (\<bar>x\<bar> mod \<bar>y\<bar>)) = sgn x"
      by (simp add: sgn_mult)
  qed simp
qed

lemma tdiv_bounds:
  assumes x: "- (2 ^ 31) \<le> x" "x < 2 ^ 31" and y: "y \<noteq> 0" "\<not> (x = - (2 ^ 31) \<and> y = - 1)"
  shows "- (2 ^ 31) \<le> tdiv x y" "tdiv x y < 2 ^ 31"
proof -
  have "- (2 ^ 31) \<le> tdiv x y \<and> tdiv x y < 2 ^ 31"
  proof (cases "\<bar>y\<bar> = 1")
    case True
    then have "y = 1 \<or> y = - 1" by linarith
    then show ?thesis using x y(2) by (auto simp: tdiv_def sgn_mult_abs)
  next
    case False
    then have "2 \<le> \<bar>y\<bar>" using y(1) by linarith
    then have "\<bar>x\<bar> div \<bar>y\<bar> \<le> \<bar>x\<bar> div 2" by (intro zdiv_mono2) auto
    moreover have "\<bar>x\<bar> div 2 \<le> 2 ^ 31 div 2" using x by (intro zdiv_mono1) auto
    ultimately have "\<bar>x\<bar> div \<bar>y\<bar> \<le> 2 ^ 30" by simp
    moreover have "0 \<le> \<bar>x\<bar> div \<bar>y\<bar>" by (simp add: pos_imp_zdiv_nonneg_iff y(1))
    ultimately show ?thesis by (auto simp: tdiv_def sgn_if)
  qed
  then show "- (2 ^ 31) \<le> tdiv x y" "tdiv x y < 2 ^ 31" by blast+
qed

text \<open>The one overflow wraps around to the dividend.\<close>

lemma quotient_values:
  "wdiv a b = (if b = 0 then - 1 else word_of_int (tdiv (sint a) (sint b)))"
  "wrem a b = (if b = 0 then a else word_of_int (trem (sint a) (sint b)))"
  "wdivu a b = (if b = 0 then - 1 else word_of_int (uint a div uint b))"
  "wremu a b = (if b = 0 then a else word_of_int (uint a mod uint b))"
proof -
  have over: "word_of_int (tdiv (- (2 ^ 31)) (- 1)) = a \<and> trem (- (2 ^ 31)) (- 1) = 0" if "sint a = - (2 ^ 31)"
  proof -
    have "word_of_int (sint a) = a" by simp
    then have "word_of_int (- (2 ^ 31)) = a" unfolding that .
    then show ?thesis by (simp add: tdiv_def trem_def)
  qed
  show "wdiv a b = (if b = 0 then - 1 else word_of_int (tdiv (sint a) (sint b)))"
    "wrem a b = (if b = 0 then a else word_of_int (trem (sint a) (sint b)))"
    using over by (auto simp: wdiv_def wrem_def)
  show "wdivu a b = (if b = 0 then - 1 else word_of_int (uint a div uint b))"
    "wremu a b = (if b = 0 then a else word_of_int (uint a mod uint b))"
    by (simp_all add: wdivu_def wremu_def word_div_def word_mod_def)
qed

text \<open>
  C23. Signed division truncates towards zero: quotient and remainder satisfy the division
  equation over the integers, the remainder is smaller than the divisor and has the sign of the dividend;
  unsigned division is that of the naturals. Dividing by zero gives all ones and leaves
  the dividend as remainder, and the one overflow gives the dividend and 0.
\<close>

theorem div_correct:
  "(if b = 0 then wdiv a b = - 1 \<and> wrem a b = a \<and> wdivu a b = - 1 \<and> wremu a b = a
    else uint a = uint b * uint (wdivu a b) + uint (wremu a b) \<and> uint (wremu a b) < uint b
      \<and> (if sint a = - (2 ^ 31) \<and> sint b = - 1 then wdiv a b = a \<and> wrem a b = 0
         else sint a = sint b * sint (wdiv a b) + sint (wrem a b) \<and> \<bar>sint (wrem a b)\<bar> < \<bar>sint b\<bar>
           \<and> sgn (sint (wrem a b)) \<in> {0, sgn (sint a)}))"
proof (cases "b = 0")
  case True
  then show ?thesis by (simp add: wdiv_def wrem_def wdivu_def wremu_def)
next
  case False
  have unsigned: "uint a = uint b * uint (wdivu a b) + uint (wremu a b)" "uint (wremu a b) < uint b"
    using False pos_mod_bound [of "uint b" "uint a"]
    by (simp_all add: wdivu_def wremu_def uint_div uint_mod unsigned_eq_0_iff less_le)
  show ?thesis
  proof (cases "sint a = - (2 ^ 31) \<and> sint b = - 1")
    case True
    then show ?thesis using False unsigned by (simp add: wdiv_def wrem_def)
  next
    case ok: False
    have nz: "sint b \<noteq> 0" using False by (simp add: signed_eq_0_iff)
    have "sint (wdiv a b) = tdiv (sint a) (sint b)"
      using False ok tdiv_bounds [OF sint_u32 nz ok]
      by (auto simp: wdiv_def sint_fits)
    moreover have "sint (wrem a b) = trem (sint a) (sint b)"
    proof -
      have "\<bar>trem (sint a) (sint b)\<bar> < 2 ^ 31"
        using trem_props(1) [OF nz, of "sint a"] sint_u32 [of b] by linarith
      then show ?thesis using False ok by (auto simp: wrem_def sint_fits)
    qed
    ultimately show ?thesis
      using False ok unsigned trem_props [OF nz, of "sint a"] by (auto simp: trem_def)
  qed
qed

end
