(* ===== verification/TrapReturn.thy ===== *)
theory TrapReturn
  imports Execute
begin

section \<open>Returning from a trap\<close>

text \<open>
  A trap followed by the return instruction of the level that took it brings the processor back
  to where it was.
\<close>

unbundle bit_operations_syntax

lemma bit_or_push:
  fixes x :: u32
  shows "n < 32 \<Longrightarrow> bit (x OR push_bit k 1) n \<longleftrightarrow> n = k \<or> bit x n"
  by (auto simp: bit_simps bit_1_iff)

lemma bit_clear2:
  fixes x :: u32
  shows "n < 32 \<Longrightarrow> bit (x AND NOT (push_bit k 3)) n \<longleftrightarrow> n \<noteq> k \<and> n \<noteq> k + 1 \<and> bit x n"
proof -
  have 3: "(3 :: u32) = mask 2" by (simp add: mask_numeral)
  show "n < 32 \<Longrightarrow> ?thesis" unfolding 3 by (auto simp: bit_simps)
qed

lemma bit_mret_status:
  assumes "n < 32"
  shows "bit (mret_status v) n \<longleftrightarrow>
    (if n = 3 then bit v 7 else if n = 7 then True else if n = 11 \<or> n = 12 then False
     else if n = 17 \<and> priv_of (drop_bit 11 v AND 3) \<noteq> MACHINE then False else bit v n)"
  unfolding mret_status_def Let_def if_distrib [of "\<lambda>x. bit x n"]
  by (simp only: bit_clear1 [OF assms] bit_clear2 [OF assms] bit_or_push [OF assms] bit_set1 [OF assms]
      drop_bit_and_one bit_drop_bit_eq comp_apply) auto

lemma bit_sret_status:
  assumes "n < 32"
  shows "bit (sret_status v) n \<longleftrightarrow>
    (if n = 1 then bit v 5 else if n = 5 then True else if n = 8 \<or> n = 17 then False else bit v n)"
  unfolding sret_status_def Let_def
  by (simp only: bit_clear1 [OF assms] bit_or_push [OF assms] bit_set1 [OF assms]
      drop_bit_and_one bit_drop_bit_eq comp_apply) auto

text \<open>Interrupt enables of a status word that a trap and a return do not touch.\<close>

definition same_status_except :: "nat set \<Rightarrow> u32 \<Rightarrow> u32 \<Rightarrow> bool" where
  "same_status_except B v w \<longleftrightarrow> (\<forall>n \<in> {..<32} - B. bit v n = bit w n)"

text \<open>
  C11. A trap and the return from it cancel: after any trap, the return instruction of the
  level that took it (MRET in machine mode, SRET in supervisor mode unless it is trapped)
  resumes at the interrupted instruction with the privilege, the interrupt enables and the registers of before;
  in the status word only the saved enable, the saved privilege and MPRV may differ.
\<close>

theorem trap_return:
  assumes legal: "cpu_privilege_level (em_cpu m) \<noteq> RESERVED2"
    and t: "t = m\<lparr>em_cpu := trap_cpu cause tval i (em_cpu m)\<rparr>"
    and tsr: "\<not> bit (cpu_csrs (em_cpu m) MSTATUS) 22"
  shows "\<exists>n. (if cpu_privilege_level (em_cpu t) = MACHINE then execMRET j t else execSRET j t) = Ok () n
    \<and> cpu_privilege_level (em_cpu n) = cpu_privilege_level (em_cpu m)
    \<and> cpu_set_next_pc (em_cpu n) \<and> cpu_next_pc (em_cpu n) = cpu_pc (em_cpu m)
    \<and> cpu_regs (em_cpu n) = cpu_regs (em_cpu m)
    \<and> same_status_except (if cpu_privilege_level (em_cpu t) = MACHINE then {7, 11, 12, 17} else {5, 8, 17})
        (cpu_csrs (em_cpu n) MSTATUS) (cpu_csrs (em_cpu m) MSTATUS)"
proof (cases "getTrapTargetLevel cause i (em_cpu m) = MACHINE")
  case True
  let ?d = "trap_to_machine cause tval i (if i then cause OR push_bit 31 1 else cause)
    ((em_cpu m)\<lparr>cpu_trap_occurred := True\<rparr>)"
  have d: "em_cpu t = ?d" using True by (simp add: t trap_cpu_def Let_def)
  have lv: "cpu_privilege_level ?d = MACHINE" "cpu_csrs ?d MEPC = cpu_pc (em_cpu m)"
    "cpu_regs ?d = cpu_regs (em_cpu m)"
    by (simp_all add: trap_to_machine_def Let_def csr_numbers)
  have mpp: "priv_of (drop_bit 11 (cpu_csrs ?d MSTATUS) AND 3) = cpu_privilege_level (em_cpu m)"
    unfolding trap_to_machine_MPP by simp
  have status: "same_status_except {7, 11, 12, 17} (mret_status (cpu_csrs ?d MSTATUS)) (cpu_csrs (em_cpu m) MSTATUS)"
    by (auto simp: same_status_except_def bit_mret_status trap_to_machine_mstatus)
  show ?thesis
    using lv mpp status unfolding d
    by (simp add: execMRET_def mach_simps record_csr_def d csr_numbers)
next
  case False
  let ?d = "trap_to_supervisor cause tval i (if i then cause OR push_bit 31 1 else cause)
    ((em_cpu m)\<lparr>cpu_trap_occurred := True\<rparr>)"
  have d: "em_cpu t = ?d" using False by (simp add: t trap_cpu_def Let_def)
  have lv: "cpu_privilege_level ?d = SUPERVISOR" "cpu_csrs ?d SEPC = cpu_pc (em_cpu m)"
    "cpu_regs ?d = cpu_regs (em_cpu m)"
    by (simp_all add: trap_to_supervisor_def Let_def csr_numbers)
  have below: "cpu_privilege_level (em_cpu m) = USER \<or> cpu_privilege_level (em_cpu m) = SUPERVISOR"
    using False legal by (cases "cpu_privilege_level (em_cpu m)") (auto simp: getTrapTargetLevel_def)
  have bits: "\<not> bit (cpu_csrs ?d MSTATUS) 22"
    "bit (cpu_csrs ?d MSTATUS) 8 \<longleftrightarrow> cpu_privilege_level (em_cpu m) = SUPERVISOR"
    using tsr by (simp_all add: trap_to_supervisor_mstatus)
  have status: "same_status_except {5, 8, 17} (sret_status (cpu_csrs ?d MSTATUS)) (cpu_csrs (em_cpu m) MSTATUS)"
    by (auto simp: same_status_except_def bit_sret_status trap_to_supervisor_mstatus)
  show ?thesis
    using lv bits below status unfolding d
    by (auto simp: execSRET_def mach_simps record_csr_def d csr_numbers)
qed

text \<open>A system call of a user program, delegated, and the return from it.\<close>

definition user_demo :: Machine where
  "user_demo = demo\<lparr>em_cpu := (em_cpu demo)\<lparr>cpu_privilege_level := USER,
     cpu_csrs := (\<lambda>_. 0)(MEDELEG := 0x100)\<rparr>\<rparr>"

theorem trap_return_witness:
  "\<exists>n. execSRET DecodedInstr0 (user_demo\<lparr>em_cpu := trap_cpu 8 0 False (em_cpu user_demo)\<rparr>) = Ok () n
     \<and> cpu_privilege_level (em_cpu n) = USER \<and> cpu_next_pc (em_cpu n) = 0x80000000"
proof -
  have c: "cpu_privilege_level (em_cpu user_demo) = USER" "cpu_pc (em_cpu user_demo) = 0x80000000"
    "cpu_csrs (em_cpu user_demo) MSTATUS = 0" "cpu_csrs (em_cpu user_demo) MEDELEG = 0x100"
    by (simp_all add: user_demo_def demo_defs csr_numbers)
  then have "getTrapTargetLevel 8 False (em_cpu user_demo) = SUPERVISOR"
    by (simp add: getTrapTargetLevel_def)
  then show ?thesis
    using trap_return [of user_demo _ 8 0 False DecodedInstr0, OF _ refl] c
    by (auto simp: trap_cpu_level)
qed

end
