(* ===== verification/Live.thy ===== *)
theory Live
  imports Cpu
begin

section \<open>Waiting for an interrupt\<close>

text \<open>
  A processor that executed WFI sleeps until \<open>updateCycle\<close>, every 1024 iterations of the loop of
  \<open>run\<close>, finds an enabled interrupt; then it is in the handler.
\<close>

unbundle bit_operations_syntax

subsection \<open>The timer interrupt\<close>

lemma set_mip_bit: "n < 32 \<Longrightarrow> k < 32 \<Longrightarrow> bit (set_mip k b mip) n \<longleftrightarrow> (if n = k then b else bit mip n)"
  by (auto simp: set_mip_def bit_simps bit_1_iff)

lemma timer_lines_expired: "\<not> bit mideleg 5 \<Longrightarrow> bit (timer_lines True mideleg mip) 7"
  by (simp add: timer_lines_def bit_or_iff)

text \<open>A machine-mode timer interrupt is enabled, and none of higher priority.\<close>

definition timer_enabled :: "CPU \<Rightarrow> bool" where
  "timer_enabled c \<longleftrightarrow> bit (cpu_csrs c MIE) 7 \<and> \<not> bit (cpu_csrs c MIE) 11 \<and> \<not> bit (cpu_csrs c MIE) 3
     \<and> \<not> bit (cpu_csrs c MIDELEG) 7 \<and> \<not> bit (cpu_csrs c MIDELEG) 5
     \<and> (cpu_privilege_level c \<noteq> MACHINE \<or> bit (cpu_csrs c MSTATUS) 3)
     \<and> cpu_privilege_level c \<noteq> RESERVED2"

definition timer_expires :: "u64 \<Rightarrow> Machine \<Rightarrow> bool" where
  "timer_expires elapsed m \<longleftrightarrow>
    cl_mtimecmp (em_clint m) \<le> cl_mtime (clint_updateMtime elapsed (em_clint m))"

text \<open>The processor at the start of the handler of the timer interrupt of \<open>c\<close>.\<close>

definition in_timer_handler :: "CPU \<Rightarrow> CPU \<Rightarrow> bool" where
  "in_timer_handler c d \<longleftrightarrow> cpu_state d = ACTIVE \<and> cpu_privilege_level d = MACHINE
     \<and> cpu_pc d = handler_pc (cpu_csrs c MTVEC) 7 True \<and> cpu_csrs d MEPC = cpu_pc c
     \<and> cpu_csrs d MCAUSE = 0x80000007 \<and> cpu_regs d = cpu_regs c"

lemma timer_selected:
  assumes "timer_enabled c" "bit (cpu_csrs c MIP) 7"
  shows "select_interrupt c interrupt_order = Some 7" "cpu_csrs c MIP AND cpu_csrs c MIE \<noteq> 0"
proof -
  have below: "cpu_privilege_level c \<noteq> MACHINE \<Longrightarrow> cpu_privilege_level c < MACHINE"
    using assms(1) by (cases "cpu_privilege_level c") (simp_all add: timer_enabled_def)
  show "select_interrupt c interrupt_order = Some 7"
    using assms below by (auto simp: timer_enabled_def interrupt_order_def bit_and_iff)
  have "bit (cpu_csrs c MIP AND cpu_csrs c MIE) 7" using assms by (simp add: timer_enabled_def bit_and_iff)
  then show "cpu_csrs c MIP AND cpu_csrs c MIE \<noteq> 0" by auto
qed

lemma timer_taken:
  assumes en: "timer_enabled c" and mip: "bit (cpu_csrs c MIP) 7" and st: "cpu_state c = ACTIVE"
  shows "in_timer_handler c (checkInterrupts_cpu c)" "cpu_trap_occurred (checkInterrupts_cpu c)"
proof -
  have run: "checkInterrupts_cpu c = trap_cpu 7 0 True c"
    using timer_selected [OF en mip] by (simp add: checkInterrupts_cpu_def)
  have "getTrapTargetLevel 7 True c = MACHINE"
    using en by (simp add: getTrapTargetLevel_def timer_enabled_def)
  then show "in_timer_handler c (checkInterrupts_cpu c)" "cpu_trap_occurred (checkInterrupts_cpu c)"
    using st unfolding run
    by (simp_all add: trap_cpu_def trap_to_machine_def in_timer_handler_def Let_def csr_numbers)
qed

text \<open>The processor when a step looks for interrupts, and a step that takes one.\<close>

definition begin_step :: "CPU \<Rightarrow> CPU" where
  "begin_step c = (case clearStep (demo\<lparr>em_cpu := c\<rparr>) of
     Ok _ m \<Rightarrow> (em_cpu m)\<lparr>cpu_sr := (cpu_sr (em_cpu m))\<lparr>sr_pc_before := cpu_pc c\<rparr>\<rparr> | _ \<Rightarrow> c)"

lemma begin_step_state:
  "cpu_csrs (begin_step c) = cpu_csrs c" "cpu_privilege_level (begin_step c) = cpu_privilege_level c"
  "cpu_state (begin_step c) = cpu_state c" "cpu_pc (begin_step c) = cpu_pc c" "cpu_regs (begin_step c) = cpu_regs c"
  by (simp_all add: begin_step_def clearStep_def mach_simps)

lemma step_interrupted:
  assumes "cpu_trap_occurred (checkInterrupts_cpu (begin_step (em_cpu m)))"
  shows "step m = Ok () (m\<lparr>em_cpu := checkInterrupts_cpu (begin_step (em_cpu m))\<rparr>)"
proof -
  let ?p = "bnd (get_cpu cpu_pc) (\<lambda>pc. bnd (fetch_and_decode pc) (\<lambda>di.
      unless_trapped (andthen (execute di) (unless_trapped (retire di)))))"
  have "step m = andthen checkInterrupts (unless_trapped ?p) (m\<lparr>em_cpu := begin_step (em_cpu m)\<rparr>)"
    by (simp add: step_def clearStep_def andthen_def bnd_def upd_cpu_def updates_def get_cpu_def reads_def
        upd_sr_def begin_step_def)
  then show ?thesis
    using assms by (simp add: andthen_def bnd_def checkInterrupts_def upd_cpu_def updates_def unless_trapped_def
        get_cpu_def reads_def ret_def)
qed

lemma step_takes_timer:
  assumes "timer_enabled (em_cpu m)" "bit (cpu_csrs (em_cpu m) MIP) 7" "cpu_state (em_cpu m) = ACTIVE"
  shows "\<exists>m'. step m = Ok () m' \<and> in_timer_handler (em_cpu m) (em_cpu m')"
proof -
  let ?d = "begin_step (em_cpu m)"
  have "timer_enabled ?d" "bit (cpu_csrs ?d MIP) 7" "cpu_state ?d = ACTIVE"
    using assms by (simp_all add: timer_enabled_def begin_step_state)
  note taken = timer_taken [OF this]
  have "in_timer_handler (em_cpu m) (checkInterrupts_cpu ?d)"
    using taken(1) by (simp add: in_timer_handler_def begin_step_state)
  then show ?thesis using step_interrupted [OF taken(2)] by simp
qed

lemma wake_iteration:
  assumes w: "cpu_state (em_cpu m) = WAITING_FOR_INTERRUPT" and en: "timer_enabled (em_cpu m)"
    and due: "counter AND 1023 = 0" and ex: "timer_expires elapsed m"
  shows "\<exists>m'. run_iteration counter elapsed m = Ok () m' \<and> in_timer_handler (em_cpu m) (em_cpu m')"
proof -
  let ?cl = "clint_updateMtime elapsed (em_clint m)"
  let ?c = "updateCycle_cpu ?cl (em_plic m) (em_cpu m)"
  have cmp: "cl_mtimecmp ?cl = cl_mtimecmp (em_clint m)" by (simp add: clint_updateMtime_def Let_def)
  have same: "cpu_csrs ?c a = cpu_csrs (em_cpu m) a" if "a \<notin> {MCYCLE, MCYCLEH, CYCLE, CYCLEH, MIP, TIME, TIMEH}" for a
    using that by (simp add: updateCycle_cpu_def Let_def)
  have regs: "cpu_regs ?c = cpu_regs (em_cpu m)" "cpu_pc ?c = cpu_pc (em_cpu m)" "cpu_state ?c = cpu_state (em_cpu m)"
    "cpu_privilege_level ?c = cpu_privilege_level (em_cpu m)"
    by (simp_all add: updateCycle_cpu_def Let_def)
  have en': "timer_enabled ?c"
    using en by (simp add: timer_enabled_def same regs csr_numbers)
  have mip: "bit (cpu_csrs ?c MIP) 7"
    using en ex by (simp add: updateCycle_cpu_def Let_def csr_numbers set_mip_bit timer_lines_expired
        timer_enabled_def timer_expires_def cmp)
  let ?n = "m\<lparr>em_clint := ?cl, em_cpu := ?c\<lparr>cpu_state := ACTIVE\<rparr>\<rparr>"
  have "run_iteration counter elapsed m = step ?n"
    using due w timer_selected(2) [OF en' mip]
    by (simp add: run_iteration_def mach_simps updateCycle_def regs)
  moreover obtain m' where "step ?n = Ok () m'" "in_timer_handler (em_cpu ?n) (em_cpu m')"
    using step_takes_timer [of ?n] en' mip by (auto simp: timer_enabled_def)
  moreover have "in_timer_handler (em_cpu m) (em_cpu m')"
    using calculation(3) by (simp add: in_timer_handler_def same regs csr_numbers)
  ultimately show ?thesis by simp
qed

text \<open>An iteration that finds nothing pending, between two updates of the lines.\<close>

lemma idle_iteration:
  assumes "cpu_state (em_cpu m) = WAITING_FOR_INTERRUPT" "cpu_csrs (em_cpu m) MIP AND cpu_csrs (em_cpu m) MIE = 0"
    "counter AND 1023 \<noteq> 0"
  shows "run_iteration counter elapsed m = Ok () m"
  using assms by (simp add: run_iteration_def mach_simps)

lemma idle_loop:
  assumes w: "cpu_state (em_cpu m) = WAITING_FOR_INTERRUPT"
    and none: "cpu_csrs (em_cpu m) MIP AND cpu_csrs (em_cpu m) MIE = 0"
  shows "(\<forall>i < k. (n + 1 + of_nat i) AND 1023 \<noteq> 0) \<Longrightarrow> k \<le> length clocks
    \<Longrightarrow> run_loop n clocks m = run_loop (n + of_nat k) (drop k clocks) m"
proof (induction k arbitrary: n clocks)
  case (Suc k)
  obtain t rest where c: "clocks = t # rest" using Suc.prems(2) by (cases clocks) auto
  have "(n + 1) AND 1023 \<noteq> 0" using Suc.prems(1) by auto
  then have "run_loop n clocks m = run_loop (n + 1) rest m"
    using w idle_iteration [OF w none] by (simp add: c run_loop_Cons isHalted_def mach_simps)
  also have "\<dots> = run_loop (n + 1 + of_nat k) (drop k rest) m"
    using Suc.prems by (intro Suc.IH) (auto simp: c add_ac)
  finally show ?case by (simp add: c add_ac)
qed simp

lemma next_update:
  fixes n :: u64
  shows "\<exists>k < 1024. (n + 1 + of_nat k) AND 1023 = 0 \<and> (\<forall>i < k. (n + 1 + of_nat i) AND 1023 \<noteq> 0)"
proof -
  let ?due = "\<lambda>k. (n + 1 + of_nat k) AND 1023 = 0"
  have m: "(1023 :: u64) = mask 10" by (simp add: mask_numeral)
  have due: "?due k \<longleftrightarrow> (unat (n + 1) + k) mod 1024 = 0" for k
  proof -
    have "unat (n + 1 + of_nat k) mod 1024 = (unat (n + 1) + k) mod 2 ^ 64 mod 1024"
      by (simp only: unat_word_ariths unat_of_nat len_num0 len_bit0 mod_add_right_eq) simp
    also have "\<dots> = (unat (n + 1) + k) mod 1024" by (rule mod_mod_cancel) simp
    finally have "unat (take_bit 10 (n + 1 + of_nat k)) = (unat (n + 1) + k) mod 1024"
      by (simp add: unsigned_take_bit_eq take_bit_eq_mod unat_mod)
    then show ?thesis unfolding m take_bit_eq_mask [symmetric] by (metis unsigned_0 word_unat_eq_iff)
  qed
  let ?r = "unat (n + 1) mod 1024"
  have "(unat (n + 1) + (1024 - ?r) mod 1024) mod 1024 = (?r + (1024 - ?r)) mod 1024"
    by (simp only: mod_add_right_eq mod_add_left_eq)
  then have "?due ((1024 - ?r) mod 1024)" unfolding due by simp
  moreover have "(1024 - ?r) mod 1024 < 1024" by simp
  ultimately have ex: "\<exists>k. k < 1024 \<and> ?due k" by blast
  define k where "k = (LEAST k. ?due k)"
  have "?due k" using ex unfolding k_def by (metis (mono_tags, lifting) LeastI)
  moreover have "\<not> ?due i" if "i < k" for i using that unfolding k_def by (rule not_less_Least)
  moreover have "k < 1024" using ex unfolding k_def by (metis (mono_tags, lifting) Least_le le_less_trans)
  ultimately show ?thesis by blast
qed


text \<open>A machine that waits with the timer at its reset value, which has expired from the start.\<close>

definition waiting_demo :: Machine where
  "waiting_demo = demo\<lparr>em_clint := (em_clint demo)\<lparr>cl_mtimecmp := 0\<rparr>,
     em_cpu := (em_cpu demo)\<lparr>cpu_state := WAITING_FOR_INTERRUPT,
       cpu_csrs := (\<lambda>_. 0)(MIE := 0x80, MSTATUS := 8, MTVEC := 0x80000100)\<rparr>\<rparr>"


end
