(* ===== verification/Trace.thy ===== *)
theory Trace
  imports Machine
begin

section \<open>The execution trace\<close>

text \<open>
  src/cpu/trace.cpp: the text printed for each step in verbose mode, and the dump of the
  registers, as functions to strings.
\<close>

unbundle bit_operations_syntax

subsection \<open>Numbers and names\<close>

definition hex_digit :: "nat \<Rightarrow> char" where
  "hex_digit n = char_of (if n < 10 then 48 + n else 87 + n)"

definition hex32 :: "u32 \<Rightarrow> string" where
  "hex32 v = map (\<lambda>i. hex_digit (unat (drop_bit (4 * i) v AND 0xF))) [7, 6, 5, 4, 3, 2, 1, 0]"

fun decimal :: "nat \<Rightarrow> string" where
  "decimal n = (if n < 10 then [hex_digit n] else decimal (n div 10) @ [hex_digit (n mod 10)])"

declare decimal.simps [simp del]

text \<open>An \<open>int32_t\<close> as the stream prints it.\<close>

definition signed_decimal :: "u32 \<Rightarrow> string" where
  "signed_decimal v = (if sint v < 0 then ''-'' @ decimal (nat (- sint v)) else decimal (nat (sint v)))"

definition regStr :: "u8 \<Rightarrow> string" where
  "regStr r =
    (if r = 0 then ''zero'' else if r = 1 then ''ra'' else if r = 2 then ''sp''
     else if r = 3 then ''gp'' else if r = 4 then ''tp''
     else if r \<ge> 5 \<and> r \<le> 7 then ''t'' @ decimal (unat r - 5)
     else if r = 8 \<or> r = 9 then ''s'' @ decimal (unat r - 8)
     else if r \<ge> 10 \<and> r \<le> 17 then ''a'' @ decimal (unat r - 10)
     else if r \<ge> 18 \<and> r \<le> 27 then ''s'' @ decimal (unat r - 16)
     else if r \<ge> 28 then ''t'' @ decimal (unat r - 25)
     else ''unknown'')"

text \<open>The control registers that only the tracer names.\<close>

definition SCOUNTEREN :: u16 where "SCOUNTEREN = 0x106"
definition SSCRATCH :: u16 where "SSCRATCH = 0x140"
definition MCOUNTEREN :: u16 where "MCOUNTEREN = 0x306"
definition MSTATUSH :: u16 where "MSTATUSH = 0x310"
definition MCOUNTINHIBIT :: u16 where "MCOUNTINHIBIT = 0x320"
definition MSCRATCH :: u16 where "MSCRATCH = 0x340"

definition csr_names :: "(u16 \<times> string) list" where
  "csr_names =
    [(MISA, ''MISA''), (MTVEC, ''MTVEC''), (MSTATUS, ''MSTATUS''), (MSTATUSH, ''MSTATUSH''),
     (MIDELEG, ''MIDELEG''), (MEDELEG, ''MEDELEG''), (MCAUSE, ''MCAUSE''), (MEPC, ''MEPC''),
     (MTVAL, ''MTVAL''), (MCYCLE, ''MCYCLE''), (MCYCLEH, ''MCYCLEH''), (CYCLE, ''CYCLE''),
     (CYCLEH, ''CYCLEH''), (MINSTRET, ''MINSTRET''), (MINSTRETH, ''MINSTRETH''),
     (MVENDORID, ''MVENDORID''), (MIP, ''MIP''), (MIE, ''MIE''), (SSTATUS, ''SSTATUS''),
     (SIE, ''SIE''), (STVEC, ''STVEC''), (SSCRATCH, ''SSCRATCH''), (SEPC, ''SEPC''),
     (SCAUSE, ''SCAUSE''), (STVAL, ''STVAL''), (SIP, ''SIP''), (SATP, ''SATP''),
     (MENVCFG, ''MENVCFG''), (MENVCFGH, ''MENVCFGH''), (SENVCFG, ''SENVCFG''),
     (MSTATEEN0, ''MSTATEEN0''), (MSTATEEN1, ''MSTATEEN1''), (MSTATEEN2, ''MSTATEEN2''),
     (MSTATEEN3, ''MSTATEEN3''), (SSTATEEN0, ''SSTATEEN0''), (MCOUNTEREN, ''MCOUNTEREN''),
     (SCOUNTEREN, ''SCOUNTEREN''), (MCOUNTINHIBIT, ''MCOUNTINHIBIT''), (MSCRATCH, ''MSCRATCH''),
     (MHARTID, ''MHARTID''), (TIME, ''TIME''), (TIMEH, ''TIMEH'')]"

definition csrName :: "u16 \<Rightarrow> string" where
  "csrName a = (case map_of csr_names a of Some s \<Rightarrow> s | None \<Rightarrow> hex32 (ucast a))"

subsection \<open>Disassembly\<close>

text \<open>The operand lists that the cases of the switch print.\<close>

definition ops_rrr :: "DecodedInstr \<Rightarrow> string" where
  "ops_rrr di = regStr (di_rd di) @ '', '' @ regStr (di_rs1 di) @ '', '' @ regStr (di_rs2 di)"

definition ops_rri :: "DecodedInstr \<Rightarrow> string" where
  "ops_rri di = regStr (di_rd di) @ '', '' @ regStr (di_rs1 di) @ '', '' @ signed_decimal (di_imm di)"

definition ops_mem :: "u8 \<Rightarrow> DecodedInstr \<Rightarrow> string" where
  "ops_mem r di = regStr r @ '', '' @ signed_decimal (di_imm di) @ ''('' @ regStr (di_rs1 di) @ '')''"

definition ops_branch :: "DecodedInstr \<Rightarrow> string" where
  "ops_branch di = regStr (di_rs1 di) @ '', '' @ regStr (di_rs2 di) @ '', '' @ signed_decimal (di_imm di)"

definition ops_ri :: "DecodedInstr \<Rightarrow> string" where
  "ops_ri di = regStr (di_rd di) @ '', '' @ signed_decimal (di_imm di)"

definition ops_csr :: "DecodedInstr \<Rightarrow> string" where
  "ops_csr di = regStr (di_rd di) @ '', '' @ csrName (di_csr di) @ '', '' @ regStr (di_rs1 di)"

text \<open>The groups of the switch: the text, when the kind belongs to the group.\<close>

definition disasm_alu :: "DecodedInstr \<Rightarrow> string option" where
  "disasm_alu di = map_option (\<lambda>n. n @ ops_rrr di) (map_of
    [(I_ADD, ''ADD ''), (I_SUB, ''SUB ''), (I_AND, ''AND ''), (I_OR, ''OR ''), (I_XOR, ''XOR ''),
     (I_SLL, ''SLL ''), (I_SLT, ''SLT ''), (I_SLTU, ''SLTU ''), (I_SRL, ''SRL ''), (I_SRA, ''SRA '')]
    (di_kind di))"

definition disasm_alu_imm :: "DecodedInstr \<Rightarrow> string option" where
  "disasm_alu_imm di = map_option (\<lambda>n. n @ ops_rri di) (map_of
    [(I_ADDI, ''ADDI ''), (I_ANDI, ''ANDI ''), (I_ORI, ''ORI ''), (I_XORI, ''XORI ''), (I_SLTI, ''SLTI ''),
     (I_SLTIU, ''SLTIU ''), (I_SLLI, ''SLLI ''), (I_SRLI, ''SRLI ''), (I_SRAI, ''SRAI '')]
    (di_kind di))"

definition disasm_load :: "DecodedInstr \<Rightarrow> string option" where
  "disasm_load di = map_option (\<lambda>n. n @ ops_mem (di_rd di) di) (map_of
    [(I_LW, ''LW ''), (I_LH, ''LH ''), (I_LB, ''LB ''), (I_LBU, ''LBU ''), (I_LHU, ''LHU '')]
    (di_kind di))"

definition disasm_store :: "DecodedInstr \<Rightarrow> string option" where
  "disasm_store di = map_option (\<lambda>n. n @ ops_mem (di_rs2 di) di) (map_of
    [(I_SW, ''SW ''), (I_SH, ''SH ''), (I_SB, ''SB '')] (di_kind di))"

definition disasm_branch :: "DecodedInstr \<Rightarrow> string option" where
  "disasm_branch di = map_option (\<lambda>n. n @ ops_branch di) (map_of
    [(I_BEQ, ''BEQ ''), (I_BNE, ''BNE ''), (I_BLT, ''BLT ''), (I_BGE, ''BGE ''), (I_BLTU, ''BLTU ''),
     (I_BGEU, ''BGEU '')] (di_kind di))"

definition disasm_jump :: "DecodedInstr \<Rightarrow> string option" where
  "disasm_jump di =
    (if di_kind di = I_JALR then Some (''JALR '' @ ops_mem (di_rd di) di)
     else map_option (\<lambda>n. n @ ops_ri di) (map_of
       [(I_JAL, ''JAL ''), (I_LUI, ''LUI ''), (I_AUIPC, ''AUIPC '')] (di_kind di)))"

definition disasm_system :: "DecodedInstr \<Rightarrow> string option" where
  "disasm_system di = map_of
    [(I_ECALL, ''ECALL''), (I_EBREAK, ''EBREAK ''), (I_FENCE, ''FENCE ''), (I_MRET, ''MRET ''),
     (I_SRET, ''SRET ''), (I_WFI, ''WFI ''), (I_SFENCE_VMA, ''SFENCE.VMA '')] (di_kind di)"

definition disasm_csr :: "DecodedInstr \<Rightarrow> string option" where
  "disasm_csr di = map_option (\<lambda>n. n @ ops_csr di) (map_of
    [(I_CSRRW, ''CSRRW ''), (I_CSRRS, ''CSRRS ''), (I_CSRRC, ''CSRRC ''), (I_CSRRWI, ''CSRRWI ''),
     (I_CSRRSI, ''CSRRSI ''), (I_CSRRCI, ''CSRRCI '')] (di_kind di))"

definition disasm_muldiv :: "DecodedInstr \<Rightarrow> string option" where
  "disasm_muldiv di = map_option (\<lambda>n. n @ ops_rrr di) (map_of
    [(I_MUL, ''MUL ''), (I_MULH, ''MULH ''), (I_MULHSU, ''MULHSU ''), (I_MULHU, ''MULHU ''), (I_DIV, ''DIV ''),
     (I_DIVU, ''DIVU ''), (I_REM, ''REM ''), (I_REMU, ''REMU '')] (di_kind di))"

definition disasm_amo :: "DecodedInstr \<Rightarrow> string option" where
  "disasm_amo di = map_option (\<lambda>n. n @ ops_rrr di) (map_of
    [(I_LR_W, ''LR.W ''), (I_SC_W, ''SC.W ''), (I_AMOADD_W, ''AMOADD.W ''), (I_AMOAND_W, ''AMOAND.W ''),
     (I_AMOOR_W, ''AMOOR.W ''), (I_AMOXOR_W, ''AMOXOR.W ''), (I_AMOSWAP_W, ''AMOSWAP.W ''),
     (I_AMOMAX_W, ''AMOMAX.W ''), (I_AMOMAXU_W, ''AMOMAXU.W ''), (I_AMOMIN_W, ''AMOMIN.W ''),
     (I_AMOMINU_W, ''AMOMINU.W '')] (di_kind di))"

definition disasm :: "DecodedInstr \<Rightarrow> string" where
  "disasm di =
    (case filter (\<lambda>s. s \<noteq> None)
       [disasm_alu di, disasm_alu_imm di, disasm_load di, disasm_store di, disasm_branch di,
        disasm_jump di, disasm_system di, disasm_csr di, disasm_muldiv di, disasm_amo di] of
      Some s # _ \<Rightarrow> s | _ \<Rightarrow> ''INVALID'')"

subsection \<open>The printed lines\<close>

definition tab :: string where "tab = [CHR 0x09]"
definition newline :: string where "newline = [CHR 0x0A]"

definition print_change :: "u32 \<Rightarrow> u32 \<Rightarrow> string" where
  "print_change old new = hex32 old @ '' -> '' @ hex32 new"

definition print_reg :: "RegWrite \<Rightarrow> string" where
  "print_reg rw = (if rw_valid rw
     then tab @ ''REG'' @ tab @ regStr (rw_rd rw) @ '': '' @ print_change (rw_old_val rw) (rw_new_val rw) @ newline
     else [])"

definition print_mem :: "MemWrite \<Rightarrow> string" where
  "print_mem mw = (if mw_valid mw
     then tab @ ''MEM'' @ tab @ ''['' @ hex32 (mw_addr mw) @ '']: ''
       @ print_change (mw_old_val mw) (mw_new_val mw) @ tab @ ''('' @ decimal (unat (mw_size mw)) @ ''B)'' @ newline
     else [])"

definition print_csr :: "CsrWrite \<Rightarrow> string" where
  "print_csr cw = (if cw_valid cw
     then tab @ ''CSR'' @ tab @ ''['' @ csrName (cw_addr cw) @ '']: ''
       @ print_change (cw_old_val cw) (cw_new_val cw) @ newline
     else [])"

definition printTrace :: "StepResult \<Rightarrow> string" where
  "printTrace sr = ''PC='' @ hex32 (sr_pc_before sr) @ tab @ ''INST='' @ hex32 (sr_instruction sr)
     @ tab @ disasm (sr_dInstr sr) @ tab @ ''NPC='' @ hex32 (sr_pc_after sr) @ newline
     @ print_reg (sr_reg_write sr) @ print_mem (sr_mem_write sr) @ print_csr (sr_csr_write sr)"

text \<open>What a completed step prints.\<close>

definition step_output :: "Machine \<Rightarrow> string" where
  "step_output m = (if pf_verbose (ec_profile (em_config m)) then printTrace (cpu_sr (em_cpu m)) else [])"

definition dumpRegisters :: "(u8 \<Rightarrow> u32) \<Rightarrow> string" where
  "dumpRegisters regs = ''REGISTERS'' @ newline @ concat (map (\<lambda>i.
     tab @ ''REG'' @ tab @ regStr (of_nat i) @ '': '' @ hex32 (regs (of_nat i)) @ newline) [0..<32])"

subsection \<open>Reading a trace\<close>

definition hex_digit_value :: "char \<Rightarrow> nat" where
  "hex_digit_value c = (let n = of_char c in if n < 58 then n - 48 else n - 87)"

definition hex_value :: "string \<Rightarrow> nat" where
  "hex_value s = foldl (\<lambda>v c. 16 * v + hex_digit_value c) 0 s"

definition mnemonic :: "string \<Rightarrow> string" where
  "mnemonic s = takeWhile (\<lambda>c. c \<noteq> CHR '' '') s"

text \<open>The names of the instructions, and of the registers in the calling convention.\<close>

definition kind_names :: "(string \<times> InstrKind) list" where
  "kind_names =
    [(''ADD'', I_ADD), (''SUB'', I_SUB), (''AND'', I_AND), (''OR'', I_OR), (''XOR'', I_XOR),
     (''SLL'', I_SLL), (''SLT'', I_SLT), (''SLTU'', I_SLTU), (''SRL'', I_SRL), (''SRA'', I_SRA),
     (''ADDI'', I_ADDI), (''ANDI'', I_ANDI), (''ORI'', I_ORI), (''XORI'', I_XORI),
     (''SLTI'', I_SLTI), (''SLTIU'', I_SLTIU), (''SLLI'', I_SLLI), (''SRLI'', I_SRLI),
     (''SRAI'', I_SRAI), (''LW'', I_LW), (''LH'', I_LH), (''LHU'', I_LHU), (''LB'', I_LB),
     (''LBU'', I_LBU), (''SW'', I_SW), (''SH'', I_SH), (''SB'', I_SB), (''BEQ'', I_BEQ),
     (''BNE'', I_BNE), (''BLT'', I_BLT), (''BGE'', I_BGE), (''BLTU'', I_BLTU),
     (''BGEU'', I_BGEU), (''JAL'', I_JAL), (''JALR'', I_JALR), (''LUI'', I_LUI),
     (''AUIPC'', I_AUIPC), (''ECALL'', I_ECALL), (''EBREAK'', I_EBREAK), (''FENCE'', I_FENCE),
     (''CSRRW'', I_CSRRW), (''CSRRS'', I_CSRRS), (''CSRRC'', I_CSRRC), (''CSRRWI'', I_CSRRWI),
     (''CSRRSI'', I_CSRRSI), (''CSRRCI'', I_CSRRCI), (''MUL'', I_MUL), (''MULH'', I_MULH),
     (''MULHSU'', I_MULHSU), (''MULHU'', I_MULHU), (''DIV'', I_DIV), (''DIVU'', I_DIVU),
     (''REM'', I_REM), (''REMU'', I_REMU), (''MRET'', I_MRET), (''SRET'', I_SRET),
     (''WFI'', I_WFI), (''SFENCE.VMA'', I_SFENCE_VMA), (''LR.W'', I_LR_W), (''SC.W'', I_SC_W),
     (''AMOSWAP.W'', I_AMOSWAP_W), (''AMOADD.W'', I_AMOADD_W), (''AMOAND.W'', I_AMOAND_W),
     (''AMOOR.W'', I_AMOOR_W), (''AMOXOR.W'', I_AMOXOR_W), (''AMOMAX.W'', I_AMOMAX_W),
     (''AMOMAXU.W'', I_AMOMAXU_W), (''AMOMIN.W'', I_AMOMIN_W), (''AMOMINU.W'', I_AMOMINU_W),
     (''INVALID'', I_INVALID)]"

definition abi_names :: "string list" where
  "abi_names =
    [''zero'', ''ra'', ''sp'', ''gp'', ''tp'', ''t0'', ''t1'', ''t2'', ''s0'', ''s1'', ''a0'', ''a1'', ''a2'', ''a3'', ''a4'', ''a5'',
     ''a6'', ''a7'', ''s2'', ''s3'', ''s4'', ''s5'', ''s6'', ''s7'', ''s8'', ''s9'', ''s10'', ''s11'', ''t3'', ''t4'', ''t5'', ''t6'']"

lemma hex_digit_value: "n < 16 \<Longrightarrow> hex_digit_value (hex_digit n) = n"
  by (simp add: hex_digit_value_def hex_digit_def)

lemma hex32_value: "hex_value (hex32 v) = unat v"
proof -
  let ?q = "\<lambda>i. unat v div 16 ^ i" and ?c = "\<lambda>i. hex_digit (unat (drop_bit (4 * i) v AND 15))"
  have 15: "(15 :: u32) = mask 4" by (simp add: mask_numeral)
  have 32: "unat v mod 4294967296 = unat v"
    using unsigned_less [of v, where 'a = nat] by simp
  have "unat (drop_bit (4 * i) v AND 15) = ?q i mod 16" for i
    unfolding 15 take_bit_eq_mask [symmetric] unsigned_take_bit_eq unsigned_drop_bit_eq
    by (simp add: 32 take_bit_eq_mod drop_bit_eq_div power_mult)
  then have digit: "hex_digit_value (?c i) = ?q i mod 16" for i by (simp add: hex_digit_value)
  have step: "16 * ?q (Suc i) + ?q i mod 16 = ?q i" for i
    by (metis div_mult2_eq mult.commute mult_div_mod_eq power_Suc)
  have read: "foldl (\<lambda>v c. 16 * v + hex_digit_value c) (?q n) (map ?c (rev [0..<n])) = ?q 0" for n
    by (induction n) (simp_all add: digit step del: power_Suc)
  have "?q 8 = 0" using unsigned_less [of v, where 'a = nat] by simp
  moreover have "[7, 6, 5, 4, 3, 2, 1, 0] = rev [0..<8]" by (simp add: upt_rec)
  ultimately show ?thesis using read [of 8] by (simp add: hex_value_def hex32_def)
qed

lemma regStr_abi:
  assumes "r < 32"
  shows "regStr r = abi_names ! unat r"
proof -
  have "unat r < 32" using assms by (simp add: word_less_nat_alt)
  then have "unat r \<in> set [0..<32]" by simp
  moreover have "r = of_nat (unat r)" by simp
  ultimately have "r \<in> set (map of_nat [0..<32])" by (metis image_eqI set_map)
  moreover have "list_all (\<lambda>r :: u8. regStr r = abi_names ! unat r) (map of_nat [0..<32])"
    by (simp add: upt_rec regStr_def abi_names_def decimal.simps hex_digit_def char_of_def bit_0)
  ultimately show ?thesis unfolding list_all_iff by blast
qed

lemmas disasm_defs = disasm_def disasm_alu_def disasm_alu_imm_def disasm_load_def disasm_store_def
  disasm_branch_def disasm_jump_def disasm_system_def disasm_csr_def disasm_muldiv_def disasm_amo_def

text \<open>
  C32. A trace can be read back: a number is printed with eight hexadecimal digits of its value, a
  register under its name in the calling convention, and the first word of a disassembly is the
  name of exactly the instruction that was decoded.
\<close>

theorem trace_readable:
  assumes "r < 32"
  shows "length (hex32 v) = 8 \<and> hex_value (hex32 v) = unat v
    \<and> regStr r = abi_names ! unat r
    \<and> map_of kind_names (mnemonic (disasm di)) = Some (di_kind di)"
proof (intro conjI)
  show "length (hex32 v) = 8" by (simp add: hex32_def)
  show "hex_value (hex32 v) = unat v" by (rule hex32_value)
  show "regStr r = abi_names ! unat r" by (rule regStr_abi [OF assms])
  show "map_of kind_names (mnemonic (disasm di)) = Some (di_kind di)"
    by (cases "di_kind di") (simp_all add: disasm_defs mnemonic_def kind_names_def)
qed

text \<open>Register 10 and a value.\<close>

theorem trace_readable_witness:
  "(10 :: u8) < 32 \<and> regStr 10 = ''a0'' \<and> hex_value (hex32 0xDEADBEEF) = 0xDEADBEEF"
  using trace_readable [of 10 "0xDEADBEEF"] by (simp add: abi_names_def)

end
