(* ===== verification/ProfileLoader.thy ===== *)
theory ProfileLoader
  imports Loader Trace
begin

section \<open>Profiles and the main program\<close>

text \<open>
  src/profile/profile.cpp and src/main.cpp. The JSON parser is a library: its result, a document
  or a parse error, is the argument \<open>doc\<close>. The accessors of the library that the loader calls are
  modelled as documented: \<open>contains\<close> is false for what is not an object, \<open>operator[]\<close> yields
  null for a missing key and a type error for what is neither object nor null, and a conversion of a
  value of another type is a type error.
\<close>

unbundle bit_operations_syntax

datatype json =
    JNull
  | JBool bool
  | JNumber int
  | JString string
  | JArray "json list"
  | JObject "(string \<times> json) list"

text \<open>
  The exceptions: \<open>std::runtime_error\<close> with its message, those of the JSON library, and the two of
  \<open>std::stoul\<close>. Only the first is caught by \<open>main\<close>.
\<close>

datatype profile_error =
    Rejected string
  | JsonError
  | InvalidArgument
  | NumberOutOfRange

definition and_then :: "'e + 'a \<Rightarrow> ('a \<Rightarrow> 'e + 'b) \<Rightarrow> 'e + 'b" where
  "and_then r k = (case r of Inl e \<Rightarrow> Inl e | Inr a \<Rightarrow> k a)"

subsection \<open>The accessors of the library\<close>

definition contains :: "string \<Rightarrow> json \<Rightarrow> bool" where
  "contains k j = (case j of JObject kvs \<Rightarrow> map_of kvs k \<noteq> None | _ \<Rightarrow> False)"

definition member :: "string \<Rightarrow> json \<Rightarrow> profile_error + json" where
  "member k j = (case j of
       JObject kvs \<Rightarrow> Inr (case map_of kvs k of Some v \<Rightarrow> v | None \<Rightarrow> JNull)
     | JNull \<Rightarrow> Inr JNull
     | _ \<Rightarrow> Inl JsonError)"

definition as_string :: "json \<Rightarrow> profile_error + string" where
  "as_string j = (case j of JString s \<Rightarrow> Inr s | _ \<Rightarrow> Inl JsonError)"

definition as_bool :: "json \<Rightarrow> profile_error + bool" where
  "as_bool j = (case j of JBool b \<Rightarrow> Inr b | _ \<Rightarrow> Inl JsonError)"

definition string_at :: "string \<Rightarrow> json \<Rightarrow> profile_error + string" where
  "string_at k j = and_then (member k j) as_string"

definition bool_at :: "string \<Rightarrow> json \<Rightarrow> profile_error + bool" where
  "bool_at k j = and_then (member k j) as_bool"

text \<open>\<open>config.value(k, d)\<close>.\<close>

definition bool_or :: "string \<Rightarrow> bool \<Rightarrow> json \<Rightarrow> profile_error + bool" where
  "bool_or k d j = (case j of
       JObject kvs \<Rightarrow> (case map_of kvs k of Some v \<Rightarrow> as_bool v | None \<Rightarrow> Inr d)
     | _ \<Rightarrow> Inl JsonError)"

subsection \<open>Hexadecimal numbers\<close>

definition is_space :: "char \<Rightarrow> bool" where
  "is_space c \<longleftrightarrow> (let n = of_char c :: nat in n = 32 \<or> (9 \<le> n \<and> n \<le> 13))"

definition hex_char :: "char \<Rightarrow> nat option" where
  "hex_char c = (let n = of_char c in
     if 48 \<le> n \<and> n \<le> 57 then Some (n - 48)
     else if 97 \<le> n \<and> n \<le> 102 then Some (n - 87)
     else if 65 \<le> n \<and> n \<le> 70 then Some (n - 55)
     else None)"

definition hex_digits :: "string \<Rightarrow> string" where
  "hex_digits s = takeWhile (\<lambda>c. hex_char c \<noteq> None) s"

definition hex_number :: "string \<Rightarrow> nat" where
  "hex_number s = foldl (\<lambda>n c. 16 * n + (case hex_char c of Some d \<Rightarrow> d | None \<Rightarrow> 0)) 0 s"

text \<open>The prefix is skipped only when a digit follows it.\<close>

definition skip_0x :: "string \<Rightarrow> string" where
  "skip_0x s = (case s of
       z # x # d # _ \<Rightarrow> if z = CHR ''0'' \<and> (x = CHR ''x'' \<or> x = CHR ''X'') \<and> hex_char d \<noteq> None
         then drop 2 s else s
     | _ \<Rightarrow> s)"

text \<open>\<open>std::stoul(s, nullptr, 16)\<close>, where \<open>unsigned long\<close> has 64 bits.\<close>

definition stoul16 :: "string \<Rightarrow> profile_error + u64" where
  "stoul16 s =
    (let s = dropWhile is_space s;
         neg = (s \<noteq> [] \<and> hd s = CHR ''-'');
         s = (if s \<noteq> [] \<and> (hd s = CHR ''-'' \<or> hd s = CHR ''+'') then tl s else s);
         digits = hex_digits (skip_0x s)
     in if digits = [] then Inl InvalidArgument
        else if hex_number digits \<ge> 2 ^ 64 then Inl NumberOutOfRange
        else Inr (let n = of_nat (hex_number digits) in if neg then - n else n))"

definition address_at :: "string \<Rightarrow> json \<Rightarrow> profile_error + u32" where
  "address_at k j = and_then (string_at k j) (\<lambda>s. and_then (stoul16 s) (\<lambda>n. Inr (ucast n)))"

subsection \<open>Reading a profile\<close>

definition Profile0 :: "bool \<Rightarrow> Profile" where
  "Profile0 sdl = \<lparr>pf_platform = BARE_METAL, pf_starting_pc = 0x80000000, pf_dram_start = 0x80000000,
     pf_dtb_address = 0, pf_kernel_address = 0,
     pf_extensions = \<lparr>ext_m = False, ext_c = False, ext_a = False\<rparr>,
     pf_elf_path = [], pf_bin_path = [], pf_disk_path = [], pf_dtb_path = [], pf_opensbi_path = [],
     pf_tap_name = [], pf_verbose = False, pf_open_sdl = sdl\<rparr>"

definition platform_at :: "json \<Rightarrow> profile_error + Platform" where
  "platform_at j = and_then (member ''platform'' j) (\<lambda>v.
     if v = JString ''bare-metal'' then Inr BARE_METAL
     else if v = JString ''xv6'' then Inr XV6
     else if v = JString ''linux'' then Inr LINUX
     else Inl (Rejected ''[ERROR] Invalid platform selected''))"

text \<open>An entry of the array of extensions; names that are not known are skipped.\<close>

definition set_extension :: "json \<Rightarrow> Extensions \<Rightarrow> profile_error + Extensions" where
  "set_extension arg x = and_then (as_string arg) (\<lambda>e. Inr (
     if e = ''m'' then x\<lparr>ext_m := True\<rparr>
     else if e = ''c'' then x\<lparr>ext_c := True\<rparr>
     else if e = ''a'' then x\<lparr>ext_a := True\<rparr>
     else x))"

fun set_extensions :: "json list \<Rightarrow> Extensions \<Rightarrow> profile_error + Extensions" where
  "set_extensions [] x = Inr x"
| "set_extensions (arg # args) x = and_then (set_extension arg x) (set_extensions args)"

definition extensions_at :: "json \<Rightarrow> Extensions \<Rightarrow> profile_error + Extensions" where
  "extensions_at j x = (if contains ''extensions'' j
     then and_then (member ''extensions'' j) (\<lambda>v. case v of JArray args \<Rightarrow> set_extensions args x | _ \<Rightarrow> Inr x)
     else Inr x)"

text \<open>A key that may be absent, and one whose absence rejects the profile.\<close>

definition optionally :: "string \<Rightarrow> (string \<Rightarrow> json \<Rightarrow> profile_error + 'a) \<Rightarrow> 'a \<Rightarrow> json \<Rightarrow> profile_error + 'a" where
  "optionally k get d j = (if contains k j then get k j else Inr d)"

definition required :: "string \<Rightarrow> (string \<Rightarrow> json \<Rightarrow> profile_error + 'a) \<Rightarrow> string \<Rightarrow> json \<Rightarrow> profile_error + 'a" where
  "required k get msg j = (if contains k j then get k j else Inl (Rejected msg))"

definition load_image_paths :: "json \<Rightarrow> Profile \<Rightarrow> profile_error + Profile" where
  "load_image_paths j p =
    (if contains ''elf-path'' j
     then and_then (string_at ''elf-path'' j) (\<lambda>s. Inr (p\<lparr>pf_elf_path := s\<rparr>))
     else if contains ''binary-path'' j
     then and_then (string_at ''binary-path'' j) (\<lambda>s. Inr (p\<lparr>pf_bin_path := s\<rparr>))
     else Inl (Rejected ''[ERROR] Missing Path to ELF or Binary''))"

definition load_disk_path :: "json \<Rightarrow> Profile \<Rightarrow> profile_error + Profile" where
  "load_disk_path j p =
    (if pf_platform p = XV6 \<or> pf_platform p = LINUX
     then and_then (required ''disk-path'' string_at ''[ERROR] Cannot Run Selected Platform Without Disk'' j)
       (\<lambda>s. Inr (p\<lparr>pf_disk_path := s\<rparr>))
     else Inr p)"

definition load_linux :: "json \<Rightarrow> Profile \<Rightarrow> profile_error + Profile" where
  "load_linux j p =
    (if pf_platform p = LINUX then
       and_then (required ''dtb-path'' string_at ''[ERROR] Missing DTB Path'' j) (\<lambda>dtb.
       and_then (required ''dtb-address'' address_at ''[ERROR] Missing DTB Address'' j) (\<lambda>da.
       and_then (required ''opensbi-path'' string_at ''[ERROR] Missing OpenSBI'' j) (\<lambda>sbi.
       and_then (required ''kernel-address'' address_at ''[ERROR] Missing Kernel Address'' j) (\<lambda>ka.
       and_then (optionally ''tap-name'' string_at (pf_tap_name p) j) (\<lambda>tap.
       and_then (optionally ''open-sdl'' bool_at (pf_open_sdl p) j) (\<lambda>sdl.
       Inr (p\<lparr>pf_dtb_path := dtb, pf_dtb_address := da, pf_opensbi_path := sbi,
         pf_kernel_address := ka, pf_tap_name := tap, pf_open_sdl := sdl\<rparr>)))))))
     else Inr p)"

text \<open>
  \<open>loadProfile\<close>. \<open>sdl\<close> is the value the uninitialised member \<open>open_sdl\<close> happens to have. The name of the
  profile must be a string, and is used for nothing.
\<close>

definition loadProfile :: "bool \<Rightarrow> json option \<Rightarrow> profile_error + Profile" where
  "loadProfile sdl doc = (case doc of None \<Rightarrow> Inl JsonError | Some j \<Rightarrow>
     and_then (optionally ''name'' string_at ''Bare Metal'' j) (\<lambda>name.
     and_then (platform_at j) (\<lambda>platform.
     and_then (optionally ''starting-pc'' address_at (pf_starting_pc (Profile0 sdl)) j) (\<lambda>pc.
     and_then (extensions_at j (pf_extensions (Profile0 sdl))) (\<lambda>ext.
     and_then (bool_or ''verbose'' False j) (\<lambda>verbose.
     and_then (load_image_paths j ((Profile0 sdl)\<lparr>pf_platform := platform, pf_starting_pc := pc,
         pf_extensions := ext, pf_verbose := verbose\<rparr>)) (\<lambda>p.
     and_then (load_disk_path j p) (load_linux j))))))))"

subsection \<open>The main program\<close>

text \<open>
  What the process does: exit with a code, be terminated because an exception that nothing catches
  left \<open>main\<close>, or run.
\<close>

datatype outcome =
    ExitCode int
  | Terminated
  | Running "(int option, Machine) result"

definition main_program ::
  "filesystem \<Rightarrow> (u8 list \<Rightarrow> json option) \<Rightarrow> bool \<Rightarrow> bool \<Rightarrow> u8 list \<Rightarrow> CPU \<Rightarrow> u64 list \<Rightarrow> string list \<Rightarrow> outcome"
where
  "main_program fs parse sdl net_ok env junk clocks args =
    (if length args < 2 then ExitCode 1
     else case loadProfile sdl (Option.bind (fs (args ! 1)) parse) of
       Inl (Rejected _) \<Rightarrow> ExitCode 1
     | Inl _ \<Rightarrow> Terminated
     | Inr p \<Rightarrow> Running (main_run fs net_ok env junk clocks p))"

subsection \<open>Facts\<close>

lemma and_then_simps [simp]:
  "and_then (Inl e) k = Inl e"
  "and_then (Inr a) k = k a"
  by (simp_all add: and_then_def)

lemma and_then_Inr: "and_then r k = Inr b \<longleftrightarrow> (\<exists>a. r = Inr a \<and> k a = Inr b)"
  by (cases r) simp_all

text \<open>A number printed with \<open>hex32\<close> is read back.\<close>

lemma hex_char_digit: "n < 16 \<Longrightarrow> hex_char (hex_digit n) = Some (hex_digit_value (hex_digit n))"
  by (auto simp: hex_char_def hex_digit_def hex_digit_value_def Let_def)

lemma hex32_chars:
  assumes "c \<in> set (hex32 v)"
  shows "hex_char c = Some (hex_digit_value c)"
proof -
  have "unat (w AND 15 :: u32) < 16" for w
    using unsigned_take_bit_eq [of 4 w, where 'a = nat] take_bit_nat_less_exp [of 4 "unat w"]
    by (simp add: take_bit_eq_mask mask_numeral)
  then show ?thesis using assms by (auto simp: hex32_def hex_char_digit)
qed

lemma hex_char_not:
  "is_space c \<Longrightarrow> hex_char c = None"
  "hex_char (CHR ''-'') = None" "hex_char (CHR ''+'') = None"
  "hex_char (CHR ''x'') = None" "hex_char (CHR ''X'') = None"
  by (auto simp: hex_char_def is_space_def Let_def)

lemma stoul16_digits:
  assumes "s \<noteq> []" "\<And>c. c \<in> set s \<Longrightarrow> hex_char c \<noteq> None" "hex_number s < 2 ^ 64"
  shows "stoul16 s = Inr (of_nat (hex_number s))"
proof -
  obtain c t where s: "s = c # t" using assms(1) by (cases s) auto
  have c: "hex_char c \<noteq> None" using assms(2) s by simp
  have "dropWhile is_space s = s" using s c hex_char_not(1) by auto
  moreover have "hd s \<noteq> CHR ''-'' \<and> hd s \<noteq> CHR ''+''" using s c hex_char_not by auto
  moreover have "skip_0x s = s"
    using assms(2) hex_char_not unfolding s skip_0x_def by (fastforce split: list.split)
  moreover have "hex_digits s = s" using assms(2) unfolding hex_digits_def by simp
  ultimately show ?thesis using assms(1,3) by (simp add: stoul16_def)
qed

lemma hex_number_hex32: "hex_number (hex32 v) = unat v"
proof -
  have "foldl (\<lambda>n c. 16 * n + (case hex_char c of Some d \<Rightarrow> d | None \<Rightarrow> 0)) 0 (hex32 v)
      = foldl (\<lambda>n c. 16 * n + hex_digit_value c) 0 (hex32 v)"
    by (rule foldl_cong) (simp_all add: hex32_chars)
  then show ?thesis by (simp add: hex_number_def hex32_value [unfolded hex_value_def])
qed

lemma stoul16_hex32 [simp]: "stoul16 (hex32 v) = Inr (ucast v)"
proof -
  have "unat v < 2 ^ 32" using unsigned_less [of v, where 'a = nat] by simp
  then have "stoul16 (hex32 v) = Inr (of_nat (hex_number (hex32 v)))"
    by (intro stoul16_digits) (simp_all add: hex32_chars hex_number_hex32, simp add: hex32_def)
  then show ?thesis by (simp add: hex_number_hex32)
qed

subsection \<open>The profiles that are accepted\<close>

definition profile_ok :: "bool \<Rightarrow> Profile \<Rightarrow> bool" where
  "profile_ok sdl p \<longleftrightarrow> pf_dram_start p = 0x80000000
     \<and> (pf_elf_path p = [] \<or> pf_bin_path p = [])
     \<and> (pf_platform p = BARE_METAL \<longrightarrow> pf_disk_path p = [])
     \<and> (pf_platform p \<noteq> LINUX \<longrightarrow> pf_dtb_path p = [] \<and> pf_opensbi_path p = [] \<and> pf_tap_name p = []
         \<and> pf_dtb_address p = 0 \<and> pf_kernel_address p = 0 \<and> pf_open_sdl p = sdl)"

text \<open>A document for a profile.\<close>

definition platform_name :: "Platform \<Rightarrow> string" where
  "platform_name p = (case p of BARE_METAL \<Rightarrow> ''bare-metal'' | XV6 \<Rightarrow> ''xv6'' | LINUX \<Rightarrow> ''linux'')"

definition profile_fields :: "Profile \<Rightarrow> (string \<times> json) list" where
  "profile_fields p =
     [(''platform'', JString (platform_name (pf_platform p))),
      (''starting-pc'', JString (hex32 (pf_starting_pc p))),
      (''extensions'', JArray
        ((if ext_m (pf_extensions p) then [JString ''m''] else [])
         @ (if ext_c (pf_extensions p) then [JString ''c''] else [])
         @ (if ext_a (pf_extensions p) then [JString ''a''] else []))),
      (''verbose'', JBool (pf_verbose p)),
      (if pf_bin_path p = [] then (''elf-path'', JString (pf_elf_path p))
       else (''binary-path'', JString (pf_bin_path p)))]
     @ (if pf_platform p = BARE_METAL then [] else [(''disk-path'', JString (pf_disk_path p))])
     @ (if pf_platform p \<noteq> LINUX then [] else
         [(''dtb-path'', JString (pf_dtb_path p)), (''dtb-address'', JString (hex32 (pf_dtb_address p))),
          (''opensbi-path'', JString (pf_opensbi_path p)),
          (''kernel-address'', JString (hex32 (pf_kernel_address p))),
          (''tap-name'', JString (pf_tap_name p)), (''open-sdl'', JBool (pf_open_sdl p))])"

lemma lookups [simp]:
  "contains k (JObject kvs) \<longleftrightarrow> map_of kvs k \<noteq> None"
  "map_of kvs k = Some v \<Longrightarrow> member k (JObject kvs) = Inr v"
  "map_of kvs k = Some (JString s) \<Longrightarrow> string_at k (JObject kvs) = Inr s"
  "map_of kvs k = Some (JBool b) \<Longrightarrow> bool_at k (JObject kvs) = Inr b"
  "map_of kvs k = Some (JBool b) \<Longrightarrow> bool_or k d (JObject kvs) = Inr b"
  "map_of kvs k = Some (JString (hex32 w)) \<Longrightarrow> address_at k (JObject kvs) = Inr w"
  by (simp_all add: contains_def member_def string_at_def bool_at_def bool_or_def address_at_def
      as_string_def as_bool_def ucast_up_ucast_id is_up)

lemma fields_all:
  "map_of (profile_fields p) ''name'' = None"
  "map_of (profile_fields p) ''platform'' = Some (JString (platform_name (pf_platform p)))"
  "map_of (profile_fields p) ''starting-pc'' = Some (JString (hex32 (pf_starting_pc p)))"
  "map_of (profile_fields p) ''verbose'' = Some (JBool (pf_verbose p))"
  "map_of (profile_fields p) ''elf-path''
     = (if pf_bin_path p = [] then Some (JString (pf_elf_path p)) else None)"
  "pf_bin_path p \<noteq> [] \<Longrightarrow> map_of (profile_fields p) ''binary-path'' = Some (JString (pf_bin_path p))"
  "pf_platform p \<noteq> BARE_METAL
     \<Longrightarrow> map_of (profile_fields p) ''disk-path'' = Some (JString (pf_disk_path p))"
  by (simp_all add: profile_fields_def)

lemma fields_linux:
  assumes "pf_platform p = LINUX"
  shows "map_of (profile_fields p) ''dtb-path'' = Some (JString (pf_dtb_path p))"
    "map_of (profile_fields p) ''dtb-address'' = Some (JString (hex32 (pf_dtb_address p)))"
    "map_of (profile_fields p) ''opensbi-path'' = Some (JString (pf_opensbi_path p))"
    "map_of (profile_fields p) ''kernel-address'' = Some (JString (hex32 (pf_kernel_address p)))"
    "map_of (profile_fields p) ''tap-name'' = Some (JString (pf_tap_name p))"
    "map_of (profile_fields p) ''open-sdl'' = Some (JBool (pf_open_sdl p))"
  using assms by (simp_all add: profile_fields_def)

lemma fields_platform: "platform_at (JObject (profile_fields p)) = Inr (pf_platform p)"
  by (cases "pf_platform p") (simp_all add: platform_at_def fields_all platform_name_def)

lemma fields_extensions:
  "extensions_at (JObject (profile_fields p)) (pf_extensions (Profile0 sdl)) = Inr (pf_extensions p)"
proof -
  obtain x y z where e: "pf_extensions p = \<lparr>ext_m = x, ext_c = y, ext_a = z\<rparr>"
    by (cases "pf_extensions p")
  have "map_of (profile_fields p) ''extensions'' = Some (JArray
      ((if x then [JString ''m''] else []) @ (if y then [JString ''c''] else [])
        @ (if z then [JString ''a''] else [])))"
    by (simp add: profile_fields_def e)
  then show ?thesis unfolding e
    by (cases x; cases y; cases z)
      (simp_all add: extensions_at_def set_extension_def as_string_def Profile0_def)
qed

lemma load_fields:
  assumes "profile_ok sdl p"
  shows "loadProfile sdl (Some (JObject (profile_fields p))) = Inr p"
proof -
  let ?j = "JObject (profile_fields p)" and ?q = "(Profile0 sdl)\<lparr>pf_platform := pf_platform p,
    pf_starting_pc := pf_starting_pc p, pf_extensions := pf_extensions p, pf_verbose := pf_verbose p\<rparr>"
  let ?r = "?q\<lparr>pf_elf_path := pf_elf_path p, pf_bin_path := pf_bin_path p\<rparr>"
  let ?s = "?r\<lparr>pf_disk_path := pf_disk_path p\<rparr>"
  have "load_image_paths ?j ?q = Inr ?r"
    using assms by (auto simp: load_image_paths_def fields_all profile_ok_def Profile0_def)
  moreover have "load_disk_path ?j ?r = Inr ?s"
    using assms
    by (cases "pf_platform p")
      (simp_all add: load_disk_path_def required_def fields_all profile_ok_def Profile0_def)
  moreover have "load_linux ?j ?s = Inr p"
  proof (cases "pf_platform p = LINUX")
    case True
    then show ?thesis using assms fields_linux [OF True]
      by (cases p) (simp add: load_linux_def required_def optionally_def profile_ok_def Profile0_def)
  next
    case False
    then show ?thesis using assms
      by (cases p) (simp add: load_linux_def profile_ok_def Profile0_def)
  qed
  ultimately show ?thesis
    by (simp add: loadProfile_def optionally_def fields_all fields_platform fields_extensions)
qed

lemma load_image_paths_Inr:
  assumes "load_image_paths j p = Inr q" "pf_elf_path p = []" "pf_bin_path p = []"
  obtains e b where "q = p\<lparr>pf_elf_path := e, pf_bin_path := b\<rparr>" "e = [] \<or> b = []"
proof (cases "contains ''elf-path'' j")
  case True
  then obtain s where "q = p\<lparr>pf_elf_path := s\<rparr>"
    using assms(1) by (auto simp: load_image_paths_def and_then_Inr)
  then show ?thesis using that [where e = s and b = "[]"] assms(2,3) by (cases p) simp
next
  case False
  then obtain s where "q = p\<lparr>pf_bin_path := s\<rparr>"
    using assms(1) by (auto simp: load_image_paths_def and_then_Inr split: if_splits)
  then show ?thesis using that [where e = "[]" and b = s] assms(2,3) by (cases p) simp
qed

lemma load_accepts:
  assumes "loadProfile sdl doc = Inr p"
  shows "profile_ok sdl p"
proof -
  obtain j platform pc ext verbose q r where
    img: "load_image_paths j ((Profile0 sdl)\<lparr>pf_platform := platform, pf_starting_pc := pc,
         pf_extensions := ext, pf_verbose := verbose\<rparr>) = Inr q" (is "load_image_paths j ?p = _")
    and disk: "load_disk_path j q = Inr r" and lin: "load_linux j r = Inr p"
    using assms unfolding loadProfile_def by (auto simp only: and_then_Inr split: option.splits)
  obtain e b where q: "q = ?p\<lparr>pf_elf_path := e, pf_bin_path := b\<rparr>" "e = [] \<or> b = []"
    
    by (rule load_image_paths_Inr [OF img]) (simp_all add: Profile0_def)
  obtain d where r: "r = q\<lparr>pf_disk_path := d\<rparr>" "platform = BARE_METAL \<longrightarrow> d = []"
  proof (cases "platform = BARE_METAL")
    case True
    then have "r = q" using disk q by (simp add: load_disk_path_def)
    then have "r = q\<lparr>pf_disk_path := []\<rparr>" using q by (simp add: Profile0_def)
    then show ?thesis using that True by blast
  next
    case False
    then have "pf_platform q = XV6 \<or> pf_platform q = LINUX" using q by (cases platform) simp_all
    then show ?thesis using that False disk by (auto simp: load_disk_path_def and_then_Inr)
  qed
  show ?thesis
  proof (cases "platform = LINUX")
    case True
    then show ?thesis using lin q r by (auto simp: load_linux_def and_then_Inr profile_ok_def Profile0_def)
  next
    case False
    then have "p = r" using lin q r by (simp add: load_linux_def)
    then show ?thesis using q r False by (auto simp: profile_ok_def Profile0_def)
  qed
qed


end
