(* ===== verification/BaseIsa.thy ===== *)
theory BaseIsa
  imports Atomic Arith
begin

section \<open>The instruction set\<close>

text \<open>
  What RV32IMA prescribes, as a machine of a program counter, thirty-two registers, a memory of
  bytes, a reservation and a console (bytes typed and bytes printed), and a proof that the processor of src/cpu, caches and all, runs in step with it. It is
  stated for translation off and no interrupt enabled; the side conditions are those under which the
  instruction neither traps nor meets the C++ operations that are undefined (signed overflow in
  additions, shift counts of 32 and more).
\<close>

unbundle bit_operations_syntax

subsection \<open>The specification\<close>

record Arch =
  ar_pc :: u32
  ar_regs :: "u8 \<Rightarrow> u32"
  ar_mem :: "u32 \<Rightarrow> u8"
  ar_reserved :: "u32 option"
  ar_input :: "u8 list"
  ar_output :: "u8 list"

definition isa_half :: "Arch \<Rightarrow> u32 \<Rightarrow> u16" where
  "isa_half a x = le16 (ar_mem a x) (ar_mem a (x + 1))"

definition isa_word :: "Arch \<Rightarrow> u32 \<Rightarrow> u32" where
  "isa_word a x = le32 (ar_mem a x) (ar_mem a (x + 1)) (ar_mem a (x + 2)) (ar_mem a (x + 3))"

definition isa_fetch :: "Arch \<Rightarrow> DecodedInstr" where
  "isa_fetch a = (let pc = ar_pc a in
     if isa_half a pc AND 3 \<noteq> 3 then (decode (decompress (isa_half a pc)))\<lparr>di_instr_len := 2\<rparr>
     else (decode (push_bit 16 (ucast (isa_half a (pc + 2))) OR ucast (isa_half a pc)))\<lparr>di_instr_len := 4\<rparr>)"

definition isa_next :: "DecodedInstr \<Rightarrow> Arch \<Rightarrow> Arch" where
  "isa_next i a = a\<lparr>ar_pc := ar_pc a + di_instr_len i\<rparr>"

definition isa_set :: "DecodedInstr \<Rightarrow> u32 \<Rightarrow> Arch \<Rightarrow> Arch" where
  "isa_set i v a = (if di_rd i = 0 then a else a\<lparr>ar_regs := (ar_regs a)(di_rd i := v)\<rparr>)"

text \<open>The value an instruction computes for its destination register.\<close>

definition isa_value :: "DecodedInstr \<Rightarrow> Arch \<Rightarrow> u32 option" where
  "isa_value i a =
    (let x = ar_regs a (di_rs1 i); y = ar_regs a (di_rs2 i); imm = di_imm i;
         shift = (\<lambda>w :: u32. unat (w AND 31))
     in case di_kind i of
       I_ADD \<Rightarrow> Some (x + y) | I_ADDI \<Rightarrow> Some (x + imm) | I_SUB \<Rightarrow> Some (x - y)
     | I_AND \<Rightarrow> Some (x AND y) | I_ANDI \<Rightarrow> Some (x AND imm)
     | I_OR \<Rightarrow> Some (x OR y) | I_ORI \<Rightarrow> Some (x OR imm)
     | I_XOR \<Rightarrow> Some (x XOR y) | I_XORI \<Rightarrow> Some (x XOR imm)
     | I_SLL \<Rightarrow> Some (push_bit (shift y) x) | I_SLLI \<Rightarrow> Some (push_bit (shift imm) x)
     | I_SRL \<Rightarrow> Some (drop_bit (shift y) x) | I_SRLI \<Rightarrow> Some (drop_bit (shift imm) x)
     | I_SRA \<Rightarrow> Some (signed_drop_bit (shift y) x) | I_SRAI \<Rightarrow> Some (signed_drop_bit (shift imm) x)
     | I_SLT \<Rightarrow> Some (if sint x < sint y then 1 else 0)
     | I_SLTI \<Rightarrow> Some (if sint x < sint imm then 1 else 0)
     | I_SLTU \<Rightarrow> Some (if uint x < uint y then 1 else 0)
     | I_SLTIU \<Rightarrow> Some (if uint x < uint imm then 1 else 0)
     | I_MUL \<Rightarrow> Some (word_of_int (sint x * sint y))
     | I_MULH \<Rightarrow> Some (word_of_int ((sint x * sint y) div 2 ^ 32))
     | I_MULHSU \<Rightarrow> Some (word_of_int ((sint x * uint y) div 2 ^ 32))
     | I_MULHU \<Rightarrow> Some (word_of_int ((uint x * uint y) div 2 ^ 32))
     | I_DIV \<Rightarrow> Some (if y = 0 then - 1 else word_of_int (tdiv (sint x) (sint y)))
     | I_REM \<Rightarrow> Some (if y = 0 then x else word_of_int (trem (sint x) (sint y)))
     | I_DIVU \<Rightarrow> Some (if y = 0 then - 1 else word_of_int (uint x div uint y))
     | I_REMU \<Rightarrow> Some (if y = 0 then x else word_of_int (uint x mod uint y))
     | I_LUI \<Rightarrow> Some imm
     | I_AUIPC \<Rightarrow> Some (ar_pc a + imm)
     | I_LW \<Rightarrow> Some (isa_word a (x + imm))
     | I_LH \<Rightarrow> Some (scast (isa_half a (x + imm)))
     | I_LHU \<Rightarrow> Some (ucast (isa_half a (x + imm)))
     | I_LB \<Rightarrow> Some (scast (ar_mem a (x + imm)))
     | I_LBU \<Rightarrow> Some (ucast (ar_mem a (x + imm)))
     | _ \<Rightarrow> None)"

text \<open>Whether a branch is taken.\<close>

definition isa_taken :: "DecodedInstr \<Rightarrow> Arch \<Rightarrow> bool option" where
  "isa_taken i a =
    (let x = ar_regs a (di_rs1 i); y = ar_regs a (di_rs2 i)
     in case di_kind i of
       I_BEQ \<Rightarrow> Some (x = y) | I_BNE \<Rightarrow> Some (x \<noteq> y)
     | I_BLT \<Rightarrow> Some (sint x < sint y) | I_BGE \<Rightarrow> Some (sint x \<ge> sint y)
     | I_BLTU \<Rightarrow> Some (uint x < uint y) | I_BGEU \<Rightarrow> Some (uint x \<ge> uint y)
     | _ \<Rightarrow> None)"

text \<open>The target of a jump.\<close>

definition isa_target :: "DecodedInstr \<Rightarrow> Arch \<Rightarrow> u32 option" where
  "isa_target i a = (case di_kind i of
       I_JAL \<Rightarrow> Some (ar_pc a + di_imm i)
     | I_JALR \<Rightarrow> Some ((ar_regs a (di_rs1 i) + di_imm i) AND NOT 1)
     | _ \<Rightarrow> None)"

text \<open>The bytes a store writes, and the memory with bytes put from an address on.\<close>

definition word_bytes :: "u32 \<Rightarrow> u8 list" where
  "word_bytes v = [byte_of 0 v, byte_of 1 v, byte_of 2 v, byte_of 3 v]"

definition isa_stored :: "DecodedInstr \<Rightarrow> Arch \<Rightarrow> u8 list option" where
  "isa_stored i a = (let v = ar_regs a (di_rs2 i) in case di_kind i of
       I_SB \<Rightarrow> Some [byte_of 0 v]
     | I_SH \<Rightarrow> Some [byte_of 0 v, byte_of 1 v]
     | I_SW \<Rightarrow> Some (word_bytes v)
     | _ \<Rightarrow> None)"

fun put_bytes :: "u32 \<Rightarrow> u8 list \<Rightarrow> (u32 \<Rightarrow> u8) \<Rightarrow> u32 \<Rightarrow> u8" where
  "put_bytes x [] mem = mem"
| "put_bytes x (b # bs) mem = put_bytes (x + 1) bs (mem(x := b))"

text \<open>A store gives up a reservation of its address.\<close>

definition isa_write :: "u32 \<Rightarrow> u8 list \<Rightarrow> Arch \<Rightarrow> Arch" where
  "isa_write x bs a = a\<lparr>ar_mem := put_bytes x bs (ar_mem a),
     ar_reserved := (if ar_reserved a = Some x then None else ar_reserved a)\<rparr>"

lemma isa_write_pc [simp]: "ar_pc (isa_write x bs a) = ar_pc a"
  by (simp add: isa_write_def)

text \<open>What a read-modify-write instruction makes of the old word and its operand.\<close>

definition amo_function :: "InstrKind \<Rightarrow> (u32 \<Rightarrow> u32 \<Rightarrow> u32) option" where
  "amo_function k = (case k of
       I_AMOSWAP_W \<Rightarrow> Some (\<lambda>old v. v) | I_AMOADD_W \<Rightarrow> Some (\<lambda>old v. old + v)
     | I_AMOAND_W \<Rightarrow> Some (\<lambda>old v. old AND v) | I_AMOOR_W \<Rightarrow> Some (\<lambda>old v. old OR v)
     | I_AMOXOR_W \<Rightarrow> Some (\<lambda>old v. old XOR v)
     | I_AMOMAX_W \<Rightarrow> Some (\<lambda>old v. word_of_int (max (sint old) (sint v)))
     | I_AMOMIN_W \<Rightarrow> Some (\<lambda>old v. word_of_int (min (sint old) (sint v)))
     | I_AMOMAXU_W \<Rightarrow> Some (\<lambda>old v. word_of_int (max (uint old) (uint v)))
     | I_AMOMINU_W \<Rightarrow> Some (\<lambda>old v. word_of_int (min (uint old) (uint v)))
     | _ \<Rightarrow> None)"

text \<open>Registers, memory and reservation after an atomic instruction.\<close>

definition isa_atomic :: "DecodedInstr \<Rightarrow> Arch \<Rightarrow> Arch option" where
  "isa_atomic i a =
    (let x = ar_regs a (di_rs1 i); y = ar_regs a (di_rs2 i); old = isa_word a x
     in case di_kind i of
       I_LR_W \<Rightarrow> Some (isa_set i old (a\<lparr>ar_reserved := Some x\<rparr>))
     | I_SC_W \<Rightarrow> Some (if ar_reserved a = Some x then isa_set i 0 ((isa_write x (word_bytes y) a)\<lparr>ar_reserved := None\<rparr>)
         else isa_set i 1 (a\<lparr>ar_reserved := None\<rparr>))
     | k \<Rightarrow> (case amo_function k of
         Some f \<Rightarrow> Some (isa_set i old (isa_write x (word_bytes (f old y)) a))
       | None \<Rightarrow> None))"

text \<open>
  The console, at the addresses of the serial port: a byte stored to its data register is printed, a byte loaded
  from there is the next one typed (0 when there is none), and the status register tells whether there is one.
\<close>

definition SERIAL_DATA :: u32 where "SERIAL_DATA = 0x10000000"
definition SERIAL_STATUS :: u32 where "SERIAL_STATUS = 0x10000005"

definition isa_typed :: "Arch \<Rightarrow> u8" where
  "isa_typed a = (case ar_input a of [] \<Rightarrow> 0 | c # cs \<Rightarrow> c)"

definition isa_status :: "Arch \<Rightarrow> u8" where
  "isa_status a = (if ar_input a = [] then 0x60 else 0x61)"

definition isa_console :: "DecodedInstr \<Rightarrow> Arch \<Rightarrow> Arch option" where
  "isa_console i a =
    (let x = ar_regs a (di_rs1 i) + di_imm i; y = ar_regs a (di_rs2 i);
         load = (\<lambda>ext. if x = SERIAL_DATA then Some (isa_set i (ext (isa_typed a)) (a\<lparr>ar_input := tl (ar_input a)\<rparr>))
           else if x = SERIAL_STATUS then Some (isa_set i (ext (isa_status a)) a) else None)
     in case di_kind i of
       I_LB \<Rightarrow> load scast
     | I_LBU \<Rightarrow> load ucast
     | I_SB \<Rightarrow> if x = SERIAL_DATA then Some (a\<lparr>ar_output := ar_output a @ [byte_of 0 y]\<rparr>) else None
     | _ \<Rightarrow> None)"

definition isa_step :: "DecodedInstr \<Rightarrow> Arch \<Rightarrow> Arch" where
  "isa_step i a = (case isa_console i a of Some b \<Rightarrow> isa_next i b | None \<Rightarrow>
    (case isa_value i a of Some v \<Rightarrow> isa_next i (isa_set i v a)
     | None \<Rightarrow> (case isa_taken i a of
         Some b \<Rightarrow> if b then a\<lparr>ar_pc := ar_pc a + di_imm i\<rparr> else isa_next i a
       | None \<Rightarrow> (case isa_target i a of
           Some t \<Rightarrow> (isa_set i (ar_pc a + di_instr_len i) a)\<lparr>ar_pc := t\<rparr>
         | None \<Rightarrow> (case isa_stored i a of
             Some bs \<Rightarrow> isa_next i (isa_write (ar_regs a (di_rs1 i) + di_imm i) bs a)
           | None \<Rightarrow> (case isa_atomic i a of
               Some b \<Rightarrow> isa_next i b
             | None \<Rightarrow> isa_next i a))))))"

subsection \<open>When an instruction runs through\<close>

definition loadable :: "u32 \<Rightarrow> nat \<Rightarrow> bool" where
  "loadable x n \<longleftrightarrow> in_dram x \<and> dram_fits x n"

definition storable :: "u32 \<Rightarrow> nat \<Rightarrow> bool" where
  "storable x n \<longleftrightarrow> in_dram x \<and> dram_fits x n \<and> unat x mod 4096 + n \<le> 4096"

definition atomic_place :: "u32 \<Rightarrow> bool" where
  "atomic_place x \<longleftrightarrow> storable x 4 \<and> x AND 3 = 0 \<and> x \<noteq> TOHOST"

text \<open>\<open>msk\<close> is the mask of address bits that must be clear in a jump target.\<close>

definition isa_ok :: "u32 \<Rightarrow> DecodedInstr \<Rightarrow> Arch \<Rightarrow> bool" where
  "isa_ok msk i a =
    (let x = ar_regs a (di_rs1 i); y = ar_regs a (di_rs2 i); imm = di_imm i in
     case di_kind i of
       I_ADD \<Rightarrow> sfits32 (sint x + sint y) | I_ADDI \<Rightarrow> sfits32 (sint x + sint imm)
     | I_SUB \<Rightarrow> sfits32 (sint x - sint y)
     | I_AND \<Rightarrow> True | I_ANDI \<Rightarrow> True | I_OR \<Rightarrow> True | I_ORI \<Rightarrow> True | I_XOR \<Rightarrow> True | I_XORI \<Rightarrow> True
     | I_SLT \<Rightarrow> True | I_SLTI \<Rightarrow> True | I_SLTU \<Rightarrow> True | I_SLTIU \<Rightarrow> True | I_LUI \<Rightarrow> True | I_AUIPC \<Rightarrow> True
     | I_MUL \<Rightarrow> True | I_MULH \<Rightarrow> True | I_MULHSU \<Rightarrow> True | I_MULHU \<Rightarrow> True
     | I_DIV \<Rightarrow> True | I_DIVU \<Rightarrow> True | I_REM \<Rightarrow> True | I_REMU \<Rightarrow> True
     | I_SLL \<Rightarrow> y < 32 | I_SRL \<Rightarrow> y < 32 | I_SRA \<Rightarrow> y < 32
     | I_SLLI \<Rightarrow> imm < 32 | I_SRLI \<Rightarrow> imm < 32 | I_SRAI \<Rightarrow> drop_bit 5 imm AND 0x7F = 0x20
     | I_LW \<Rightarrow> loadable (x + imm) 4 | I_LH \<Rightarrow> loadable (x + imm) 2 | I_LHU \<Rightarrow> loadable (x + imm) 2
     | I_LB \<Rightarrow> isa_console i a \<noteq> None \<or> loadable (x + imm) 1
     | I_LBU \<Rightarrow> isa_console i a \<noteq> None \<or> loadable (x + imm) 1
     | I_SW \<Rightarrow> storable (x + imm) 4 \<and> (x + imm \<noteq> TOHOST \<or> y = 0)
     | I_SH \<Rightarrow> storable (x + imm) 2 | I_SB \<Rightarrow> isa_console i a \<noteq> None \<or> storable (x + imm) 1
     | I_FENCE \<Rightarrow> True
     | I_LR_W \<Rightarrow> loadable x 4 \<and> x AND 3 = 0
     | I_SC_W \<Rightarrow> atomic_place x
     | I_AMOSWAP_W \<Rightarrow> atomic_place x | I_AMOADD_W \<Rightarrow> atomic_place x | I_AMOAND_W \<Rightarrow> atomic_place x
     | I_AMOOR_W \<Rightarrow> atomic_place x | I_AMOXOR_W \<Rightarrow> atomic_place x | I_AMOMAX_W \<Rightarrow> atomic_place x
     | I_AMOMIN_W \<Rightarrow> atomic_place x | I_AMOMAXU_W \<Rightarrow> atomic_place x | I_AMOMINU_W \<Rightarrow> atomic_place x
     | _ \<Rightarrow> (case isa_taken i a of Some b \<Rightarrow> b \<longrightarrow> (ar_pc a + imm) AND msk = 0
        | None \<Rightarrow> (case isa_target i a of Some t \<Rightarrow> t AND msk = 0 | None \<Rightarrow> False)))"

text \<open>An instruction can be fetched and runs through; \<open>compressed\<close> says whether two-byte ones are enabled.\<close>

definition isa_fetchable :: "u32 \<Rightarrow> bool \<Rightarrow> Arch \<Rightarrow> bool" where
  "isa_fetchable msk compressed a \<longleftrightarrow> ar_pc a AND 1 = 0 \<and> ar_pc a AND msk = 0
     \<and> in_dram (ar_pc a) \<and> in_dram (ar_pc a + 2) \<and> (isa_half a (ar_pc a) AND 3 = 3 \<or> compressed)"

definition isa_ready :: "u32 \<Rightarrow> bool \<Rightarrow> Arch \<Rightarrow> bool" where
  "isa_ready msk compressed a \<longleftrightarrow> isa_fetchable msk compressed a \<and> isa_ok msk (isa_fetch a) a"

fun isa_run :: "nat \<Rightarrow> Arch \<Rightarrow> Arch" where
  "isa_run 0 a = a"
| "isa_run (Suc n) a = isa_run n (isa_step (isa_fetch a) a)"

subsection \<open>The abstraction\<close>

definition reservation :: "CPU \<Rightarrow> u32 option" where
  "reservation c = (if cpu_reservation_valid c then Some (cpu_reservation_addr c) else None)"

lemma reservation_other [simp]:
  "reservation (c\<lparr>cpu_sr := sr\<rparr>) = reservation c" "reservation (c\<lparr>cpu_regs := rs\<rparr>) = reservation c"
  "reservation (c\<lparr>cpu_pc := pc\<rparr>) = reservation c" "reservation (c\<lparr>cpu_csrs := cs\<rparr>) = reservation c"
  "reservation (c\<lparr>cpu_next_pc := pc\<rparr>) = reservation c" "reservation (c\<lparr>cpu_set_next_pc := b\<rparr>) = reservation c"
  by (simp_all add: reservation_def)

definition arch :: "Machine \<Rightarrow> Arch" where
  "arch m = \<lparr>ar_pc = cpu_pc (em_cpu m), ar_regs = cpu_regs (em_cpu m),
     ar_mem = (\<lambda>x. dram_get m (dram_offset x)), ar_reserved = reservation (em_cpu m),
     ar_input = ua_rx_fifo (em_uart m), ar_output = ua_output (em_uart m)\<rparr>"

lemma arch_simps [simp]:
  "ar_pc (arch m) = cpu_pc (em_cpu m)" "ar_regs (arch m) = cpu_regs (em_cpu m)"
  "ar_mem (arch m) x = dram_get m (dram_offset x)" "ar_reserved (arch m) = reservation (em_cpu m)"
  "ar_input (arch m) = ua_rx_fifo (em_uart m)" "ar_output (arch m) = ua_output (em_uart m)"
  by (simp_all add: arch_def)

lemma dram_offset_add:
  assumes "unat (x - DRAM_BASE) + k < 2 ^ 32"
  shows "dram_offset (x + of_nat k) = dram_offset x + k"
proof -
  have "x + of_nat k - DRAM_BASE = (x - DRAM_BASE) + of_nat k" by (simp add: algebra_simps)
  then show ?thesis unfolding dram_offset_def by (simp only:) (rule unat_add_of_nat, use assms in simp)
qed

lemma dram_offset_inj: "dram_offset x = dram_offset y \<longleftrightarrow> x = y"
  by (auto simp: dram_offset_def simp flip: word_unat_eq_iff)

lemma fits_offsets:
  assumes "dram_fits x n"
  shows "1 < n \<Longrightarrow> dram_offset (x + 1) = dram_offset x + 1"
    and "2 < n \<Longrightarrow> dram_offset (x + 2) = dram_offset x + 2"
    and "3 < n \<Longrightarrow> dram_offset (x + 3) = dram_offset x + 3"
proof -
  have "dram_offset (x + of_nat k) = dram_offset x + k" if "k < n" for k
    using assms that by (intro dram_offset_add) (simp add: dram_fits_def dram_offset_def DRAM_SIZE_def)
  from this [of 1] this [of 2] this [of 3]
  show "1 < n \<Longrightarrow> dram_offset (x + 1) = dram_offset x + 1"
    "2 < n \<Longrightarrow> dram_offset (x + 2) = dram_offset x + 2"
    "3 < n \<Longrightarrow> dram_offset (x + 3) = dram_offset x + 3" by simp_all
qed

lemma isa_half_arch:
  assumes "x AND 1 = 0 \<or> dram_fits x 2"
  shows "isa_half (arch m) x = half_at m x"
proof -
  have "dram_offset (x + 1) = dram_offset x + 1"
  proof (cases "dram_fits x 2")
    case True
    then show ?thesis using fits_offsets(1) by simp
  next
    case False
    then have "even (unat x)" using assms even_low by blast
    then have "x + 1 - DRAM_BASE \<noteq> 0" by (auto simp: DRAM_BASE_def)
    then have "x - DRAM_BASE + 1 \<noteq> 0" by (simp add: algebra_simps)
    then have "unat (x - DRAM_BASE + 1) = unat (x - DRAM_BASE) + 1" using unatSuc [of "x - DRAM_BASE"] by (simp add: add.commute)
    then show ?thesis by (simp add: dram_offset_def algebra_simps)
  qed
  then show ?thesis by (simp add: isa_half_def half_at_def dram_half_def)
qed

lemma isa_word_arch: "dram_fits x 4 \<Longrightarrow> isa_word (arch m) x = dram_word (dram_offset x) m"
  using fits_offsets [of x 4] by (simp add: isa_word_def dram_word_def)

lemma isa_fetch_arch:
  assumes "cpu_pc (em_cpu m) AND 1 = 0"
  shows "isa_fetch (arch m) = decoded_at m (cpu_pc (em_cpu m))"
  using assms even_next [OF assms]
  by (simp add: isa_fetch_def decoded_at_def instr_at_def Let_def isa_half_arch)

text \<open>A store of the machine and of the specification.\<close>

lemma put_word:
  assumes "dram_fits x 4"
  shows "ar_mem (arch (set_dram_word (dram_offset x) v m))
      = put_bytes x (word_bytes v) (ar_mem (arch m))"
proof -
  have at: "dram_offset y = dram_offset x + 1 \<longleftrightarrow> y = x + 1" "dram_offset y = dram_offset x + 2 \<longleftrightarrow> y = x + 2"
    "dram_offset y = dram_offset x + 3 \<longleftrightarrow> y = x + 3" for y
    using fits_offsets [OF assms] dram_offset_inj [of y "x + 1"] dram_offset_inj [of y "x + 2"]
      dram_offset_inj [of y "x + 3"] by simp_all
  show ?thesis
    unfolding fun_eq_iff arch_simps dram_get_sets at dram_offset_inj word_bytes_def by (simp add: add.assoc)
qed

lemma put_half:
  assumes "dram_fits x 2"
  shows "ar_mem (arch (set_dram_half (dram_offset x) h m))
      = put_bytes x [byte_of 0 h, byte_of 1 h] (ar_mem (arch m))"
proof -
  have at: "dram_offset y = dram_offset x + 1 \<longleftrightarrow> y = x + 1" for y
    using fits_offsets(1) [OF assms] dram_offset_inj [of y "x + 1"] by simp
  show ?thesis
    unfolding fun_eq_iff arch_simps dram_get_sets at dram_offset_inj by simp
qed

lemma put_byte: "ar_mem (arch (dram_set (dram_offset x) b m)) = put_bytes x [b] (ar_mem (arch m))"
  by (auto simp: fun_eq_iff dram_get_sets dram_offset_inj)

subsection \<open>Executing an instruction\<close>

text \<open>
  \<open>executed t j n\<close>: from \<open>t\<close>, a handler has returned in \<open>n\<close>, without a trap, and has asked for the
  jump \<open>j\<close>; what the next instruction depends on besides registers and memory is unchanged.
\<close>

text \<open>The serial port transmits: its registers are not switched to the divisor, and it raises no interrupt.\<close>

definition serial_on :: "Machine \<Rightarrow> bool" where
  "serial_on m \<longleftrightarrow> ua_lcr (em_uart m) AND 0x80 = 0 \<and> ua_ier (em_uart m) = 0"

definition executed :: "Machine \<Rightarrow> u32 option \<Rightarrow> Machine \<Rightarrow> bool" where
  "executed t j n \<longleftrightarrow> cpu_pc (em_cpu n) = cpu_pc (em_cpu t) \<and> cpu_csrs (em_cpu n) = cpu_csrs (em_cpu t)
     \<and> cpu_misalignment_mask (em_cpu n) = cpu_misalignment_mask (em_cpu t)
     \<and> cpu_state (em_cpu n) = cpu_state (em_cpu t)
     \<and> cpu_privilege_level (em_cpu n) = cpu_privilege_level (em_cpu t)
     \<and> \<not> cpu_trap_occurred (em_cpu n) \<and> cpu_set_next_pc (em_cpu n) = (j \<noteq> None)
     \<and> (j \<noteq> None \<longrightarrow> cpu_next_pc (em_cpu n) = the j) \<and> coherent n \<and> serial_on n
     \<and> em_config n = em_config t"

lemma executed_pc: "executed t j n \<Longrightarrow> cpu_pc (em_cpu n) = cpu_pc (em_cpu t)"
  by (simp add: executed_def)

definition starting :: "Machine \<Rightarrow> bool" where
  "starting t \<longleftrightarrow> \<not> cpu_trap_occurred (em_cpu t) \<and> \<not> cpu_set_next_pc (em_cpu t) \<and> coherent t \<and> bare t \<and> serial_on t"

lemma coherent_cong:
  assumes "em_dram n = em_dram m" "cpu_icache (em_cpu n) = cpu_icache (em_cpu m)"
    "cpu_decoded_cache (em_cpu n) = cpu_decoded_cache (em_cpu m)"
    "cpu_current_epoch (em_cpu n) = cpu_current_epoch (em_cpu m)"
  shows "coherent n \<longleftrightarrow> coherent m"
proof -
  have "half_at n = half_at m"
    using assms(1) by (simp add: fun_eq_iff half_at_def dram_half_def dram_get_def)
  then have "instr_at n = instr_at m" "decoded_at n = decoded_at m"
    by (simp_all add: fun_eq_iff instr_at_def decoded_at_def)
  then show ?thesis using assms
    by (simp add: coherent_def icache_ok_def decode_ok_def dram_page_def dram_get_def)
qed

lemma coherent_cpu [simp]:
  assumes "cpu_icache c = cpu_icache (em_cpu m)" "cpu_decoded_cache c = cpu_decoded_cache (em_cpu m)"
    "cpu_current_epoch c = cpu_current_epoch (em_cpu m)"
  shows "coherent (m\<lparr>em_cpu := c\<rparr>) \<longleftrightarrow> coherent m"
  by (rule coherent_cong) (simp_all add: assms)

lemma serial_cpu [simp]: "serial_on (m\<lparr>em_cpu := c\<rparr>) \<longleftrightarrow> serial_on m"
  by (simp add: serial_on_def)

lemma run_commit:
  assumes "starting t"
  shows "\<exists>n. commit i v t = Ok () n \<and> arch n = isa_set i v (arch t) \<and> executed t None n"
  using assms
  by (simp add: commit_def record_reg_def mach_simps arch_def isa_set_def executed_def starting_def
      dram_get_def)

lemma run_link:
  assumes "starting t"
  shows "\<exists>n. andthen (commit i v) (jump_to x) t = Ok () n \<and> arch n = isa_set i v (arch t)
    \<and> executed t (Some x) n"
  using assms
  by (simp add: commit_def record_reg_def mach_simps arch_def isa_set_def executed_def starting_def
      dram_get_def)

lemma run_jump:
  assumes "starting t"
  shows "\<exists>n. jump_to x t = Ok () n \<and> arch n = arch t \<and> executed t (Some x) n"
  using assms
  by (simp add: mach_simps arch_def executed_def starting_def dram_get_def)

text \<open>Instructions that compute a value.\<close>

lemma low5: "y < 32 \<Longrightarrow> y AND 31 = (y :: u32)"
proof -
  assume "y < 32"
  then have "take_bit 5 (unat y) = unat y" by (simp add: take_bit_nat_eq_self word_less_nat_alt)
  then have "take_bit 5 y = y" by (simp add: word_unat_eq_iff unsigned_take_bit_eq)
  then show ?thesis by (simp add: take_bit_eq_mask mask_numeral)
qed

lemma and31_less: "y AND 31 < (32 :: u32)"
  using take_bit_nat_less_exp [of 5 "unat y"]
  by (simp add: word_less_nat_alt unsigned_and_eq take_bit_eq_mask mask_numeral)

lemma signed_drop_small: "y < 32 \<Longrightarrow> signed_drop_bit 5 (y :: u32) = 0"
proof -
  assume y: "y < 32"
  have "\<not> bit y k" if "5 \<le> k" for k
    using low5 [OF y] that by (metis bit_take_bit_iff linorder_not_less mask_numeral take_bit_eq_mask mask_lits(4))
  then show ?thesis by (intro bit_word_eqI) (simp add: bit_simps)
qed

lemma run_load:
  assumes "bare t" "access (cpu_regs (em_cpu t) (di_rs1 i) + di_imm i) t = Ok v t"
  shows "exec_load access i t = commit i v t"
proof -
  have "\<exists>n. commit i v t = Ok () n" by (simp add: commit_def record_reg_def mach_simps)
  then show ?thesis using assms(2)
    by (auto simp: exec_load_def with_rs1_def mach_simps translate_bare [OF assms(1)] Let_def)
qed

lemma read_dram:
  assumes "loadable x n"
  shows "n = 4 \<Longrightarrow> bus_read32 x t = Ok (isa_word (arch t) x) t"
    and "n = 2 \<Longrightarrow> bus_read16 x t = Ok (isa_half (arch t) x) t"
    and "bus_read8 x t = Ok (ar_mem (arch t) x) t"
  using assms dram_only [of x]
  by (simp_all add: loadable_def bus_read32_dram isa_word_arch bus_read16_def isa_half_arch half_at_def
      bus_read8_def checked_def reads_def)

lemma execute_value:
  assumes "bare t" "isa_value i (arch t) = Some v" "isa_ok msk i (arch t)" and console: "isa_console i (arch t) = None"
  shows "execute i t = commit i v t"
proof (cases "di_kind i \<in> {I_LW, I_LH, I_LHU, I_LB, I_LBU}")
  case True
  note load = execute_def dispatch_def isa_value_def isa_ok_def Let_def handler_defs read_dram run_load [OF assms(1)]
    bnd_def ret_def
  show ?thesis using True assms(2,3) console by (auto simp: load simp del: arch_simps(3) intro!: run_load [OF assms(1)])
next
  case False
  note arith = execute_def dispatch_def with_regs_def with_rs1_def mach_simps isa_value_def isa_ok_def Let_def
    sadd32_def ssub32_def shl32_def shr32_def sar32_def word_less_def product_values quotient_values
  show ?thesis using False assms(2,3) console and31_less
    by (cases "di_kind i") (auto simp: arith handler_defs low5 signed_drop_small)
qed

text \<open>Branches and jumps.\<close>

lemma execute_branch:
  assumes "isa_taken i (arch t) = Some b"
  shows "execute i t = do_if b (branch_to (cpu_pc (em_cpu t) + di_imm i) (ret ())) t"
  using assms
  by (cases "di_kind i") (auto simp: execute_def dispatch_def handler_defs exec_branch_def with_regs_def
      mach_simps isa_taken_def Let_def word_less_def word_le_def)

lemma execute_jump:
  assumes "isa_target i (arch t) = Some x"
  shows "execute i t = branch_to x (commit i (cpu_pc (em_cpu t) + di_instr_len i)) t"
  using assms
  by (cases "di_kind i") (auto simp: execute_def dispatch_def handler_defs with_rs1_def mach_simps isa_target_def)

text \<open>Stores.\<close>

lemma told_other [simp]:
  "cpu_pc (told a c) = cpu_pc c" "cpu_csrs (told a c) = cpu_csrs c"
  "cpu_misalignment_mask (told a c) = cpu_misalignment_mask c"
  "cpu_trap_occurred (told a c) = cpu_trap_occurred c" "cpu_set_next_pc (told a c) = cpu_set_next_pc c"
  "cpu_regs (told a c) = cpu_regs c" "cpu_state (told a c) = cpu_state c"
  "cpu_privilege_level (told a c) = cpu_privilege_level c"
  "reservation (told a c) = (if reservation c = Some a then None else reservation c)"
  by (simp_all add: told_def clearDecodeCache_cpu_def Let_def reservation_def)

text \<open>\<open>stored t x bs n\<close>: from \<open>t\<close>, the bus has stored \<open>bs\<close> at \<open>x\<close>.\<close>

definition stored :: "Machine \<Rightarrow> u32 \<Rightarrow> u8 list \<Rightarrow> Machine \<Rightarrow> bool" where
  "stored t x bs n \<longleftrightarrow> em_cpu n = told x (em_cpu t) \<and> coherent n \<and> em_uart n = em_uart t \<and> em_config n = em_config t
     \<and> ar_mem (arch n) = put_bytes x bs (ar_mem (arch t))"

lemma run_write:
  assumes "storable x k" "coherent t"
  shows "k = 4 \<Longrightarrow> x \<noteq> TOHOST \<or> v = 0 \<Longrightarrow>
      \<exists>n. bus_write32 x v t = Ok () n \<and> stored t x (word_bytes v) n"
    and "k = 2 \<Longrightarrow> \<exists>n. bus_write16 x h t = Ok () n \<and> stored t x [byte_of 0 h, byte_of 1 h] n"
    and "k = 1 \<Longrightarrow> \<exists>n. bus_write8 x b t = Ok () n \<and> stored t x [b] n"
proof -
  have x: "in_dram x" "dram_fits x k" "unat x mod 4096 + k \<le> 4096" using assms(1) by (simp_all add: storable_def)
  have ok: "icache_ok t" "decode_ok t" using assms(2) by (simp_all add: coherent_def)
  have mem: "ar_mem (arch (m\<lparr>em_cpu := c\<rparr>)) = ar_mem (arch m)" for m c by (simp add: arch_def)
  have uart: "em_uart (set_dram_word p v t) = em_uart t" "em_uart (set_dram_half p h t) = em_uart t"
    "em_uart (dram_set p b t) = em_uart t" "em_config (set_dram_word p v t) = em_config t"
    "em_config (set_dram_half p h t) = em_config t" "em_config (dram_set p b t) = em_config t" for p
    by (simp_all add: set_dram_word_def set_dram_half_def dram_set_def)
  have keep: "coherent (m\<lparr>em_cpu := told x (em_cpu t)\<rparr>)"
    if "\<And>i. i < dram_offset x \<or> dram_offset x + k \<le> i \<Longrightarrow> dram_get m i = dram_get t i" for m
    unfolding coherent_def
    using store_keeps_icache [OF ok(1) x(1,3)] told_decode_ok [OF ok(2)] that by simp
  have c: "k = 4 \<Longrightarrow> coherent (set_dram_word (dram_offset x) v t\<lparr>em_cpu := told x (em_cpu t)\<rparr>)"
    "k = 2 \<Longrightarrow> coherent (set_dram_half (dram_offset x) h t\<lparr>em_cpu := told x (em_cpu t)\<rparr>)"
    "k = 1 \<Longrightarrow> coherent (dram_set (dram_offset x) b t\<lparr>em_cpu := told x (em_cpu t)\<rparr>)"
    by (rule keep; auto simp: dram_get_sets)+
  show "k = 4 \<Longrightarrow> x \<noteq> TOHOST \<or> v = 0 \<Longrightarrow>
      \<exists>n. bus_write32 x v t = Ok () n \<and> stored t x (word_bytes v) n"
    using x(1,2) by (simp add: bus_write32_dram stored_def mem put_word c uart del: put_bytes.simps)
  show "k = 2 \<Longrightarrow> \<exists>n. bus_write16 x h t = Ok () n \<and> stored t x [byte_of 0 h, byte_of 1 h] n"
    using x(1,2) by (simp add: bus_write16_dram stored_def mem put_half c uart del: put_bytes.simps)
  show "k = 1 \<Longrightarrow> \<exists>n. bus_write8 x b t = Ok () n \<and> stored t x [b] n"
    using x(1,2) by (simp add: bus_write8_dram stored_def mem put_byte c uart del: put_bytes.simps)
qed

lemma run_store:
  assumes t: "starting t" and r: "\<exists>old. get x t = Ok old t"
    and a: "x = cpu_regs (em_cpu t) (di_rs1 i) + di_imm i"
    and w: "\<exists>n. put x (cpu_regs (em_cpu t) (di_rs2 i)) t = Ok () n \<and> stored t x bs n"
  shows "\<exists>n. exec_store get put sz i t = Ok () n
    \<and> arch n = isa_write x bs (arch t) \<and> executed t None n"
proof -
  obtain old where old: "old_value get x t = Ok old t"
    using r by (cases "pf_verbose (ec_profile (em_config t)) \<and> \<not> is_mmio x")
      (auto simp: old_value_def is_verbose_def mach_simps)
  obtain n where n: "put x (cpu_regs (em_cpu t) (di_rs2 i)) t = Ok () n" "stored t x bs n" using w by blast
  let ?n = "n\<lparr>em_cpu := (em_cpu n)\<lparr>cpu_sr := (cpu_sr (em_cpu n))\<lparr>sr_mem_write :=
     \<lparr>mw_valid = True, mw_addr = x, mw_old_val = old, mw_new_val = cpu_regs (em_cpu t) (di_rs2 i), mw_size = sz\<rparr>\<rparr>\<rparr>\<rparr>"
  have b: "bare t" using t by (simp add: starting_def)
  have "exec_store get put sz i t = Ok () ?n"
    using old n(1) by (simp add: exec_store_def with_rs1_def mach_simps translate_bare [OF b] Let_def
        record_mem_def flip: a)
  moreover have "arch ?n = isa_write x bs (arch t)"
    using n(2) by (simp add: stored_def arch_def isa_write_def)
  moreover have "executed t None ?n"
    using n(2) t by (simp add: executed_def stored_def starting_def serial_on_def)
  ultimately show ?thesis by blast
qed

lemma execute_store:
  assumes t: "starting t" and s: "isa_stored i (arch t) = Some bs" and ok: "isa_ok msk i (arch t)"
    and console: "isa_console i (arch t) = None"
  shows "\<exists>n. execute i t = Ok () n \<and> executed t None n
    \<and> arch n = isa_write (cpu_regs (em_cpu t) (di_rs1 i) + di_imm i) bs (arch t)"
proof -
  have c: "coherent t" using t by (simp add: starting_def)
  have b: "byte_of 0 (ucast v :: u16) = byte_of 0 (v :: u32)" "byte_of 1 (ucast v :: u16) = byte_of 1 (v :: u32)"
    "byte_of 0 v = ucast v" for v
    by (rule bit_word_eqI; simp add: byte_of_def bit_simps)+
  let ?x = "cpu_regs (em_cpu t) (di_rs1 i) + di_imm i" and ?v = "cpu_regs (em_cpu t) (di_rs2 i)"
  note def1 = execute_def dispatch_def handler_defs
  have ld: "storable ?x k \<Longrightarrow> loadable ?x k" for k by (simp add: storable_def loadable_def)
  consider "di_kind i = I_SW" | "di_kind i = I_SH" | "di_kind i = I_SB"
    using s by (cases "di_kind i") (simp_all add: isa_stored_def)
  then show ?thesis
  proof cases
    case 1
    then have st: "storable ?x 4" "?x \<noteq> TOHOST \<or> ?v = 0"
      using ok by (simp_all add: isa_ok_def Let_def)
    have "\<exists>n. exec_store bus_read32 bus_write32 4 i t = Ok () n
        \<and> arch n = isa_write ?x (word_bytes ?v) (arch t)
        \<and> executed t None n"
      by (rule run_store [OF t _ refl]) (use read_dram(1) [OF ld [OF st(1)]] run_write(1) [OF st(1) c refl st(2)] in blast)+
    then show ?thesis using 1 s by (auto simp: def1 isa_stored_def Let_def simp del: put_bytes.simps)
  next
    case 2
    then have st: "storable ?x 2" using ok by (simp add: isa_ok_def Let_def)
    have "\<exists>n. execSH i t = Ok () n
        \<and> arch n = isa_write ?x [byte_of 0 (ucast ?v :: u16), byte_of 1 (ucast ?v :: u16)] (arch t)
        \<and> executed t None n"
      unfolding execSH_def
      by (rule run_store [OF t _ refl])
        (use read_dram(2) [OF ld [OF st] refl] run_write(2) [OF st c refl] in \<open>simp_all add: bnd_def ret_def\<close>)
    then show ?thesis using 2 s
      unfolding b(1,2) by (auto simp: execute_def dispatch_def isa_stored_def Let_def simp del: put_bytes.simps)
  next
    case 3
    then have st: "storable ?x 1" using ok console by (simp add: isa_ok_def Let_def)
    have "\<exists>n. execSB i t = Ok () n
        \<and> arch n = isa_write ?x [ucast ?v] (arch t) \<and> executed t None n"
      unfolding execSB_def
      by (rule run_store [OF t _ refl])
        (use read_dram(3) [OF ld [OF st]] run_write(3) [OF st c refl] in \<open>simp_all add: bnd_def ret_def\<close>)
    then show ?thesis using 3 s
      by (auto simp: execute_def dispatch_def isa_stored_def Let_def b simp del: put_bytes.simps)
  qed
qed

text \<open>Atomic instructions.\<close>

lemma arch_cpu: "arch (m\<lparr>em_cpu := c\<rparr>) = (arch m)\<lparr>ar_pc := cpu_pc c, ar_regs := cpu_regs c, ar_reserved := reservation c\<rparr>"
  by (simp add: arch_def)

lemma stored_arch:
  assumes "stored t x bs n"
  shows "arch n = isa_write x bs (arch t)"
  using assms by (simp add: stored_def arch_def isa_write_def)

lemma run_lr:
  assumes t: "starting t" and x: "loadable (cpu_regs (em_cpu t) (di_rs1 i)) 4"
  shows "\<exists>n. execLR_W i t = Ok () n \<and> executed t None n
    \<and> arch n = isa_set i (isa_word (arch t) (cpu_regs (em_cpu t) (di_rs1 i)))
        ((arch t)\<lparr>ar_reserved := Some (cpu_regs (em_cpu t) (di_rs1 i))\<rparr>)"
proof -
  have b: "bare t" using t by (simp add: starting_def)
  show ?thesis
    using t read_dram(1) [OF x refl]
    by (simp add: execLR_W_def with_rs1_def mach_simps translate_bare [OF b] record_reg_def arch_cpu
        isa_set_def executed_def starting_def del: arch_simps) (simp add: arch_def reservation_def)
qed

lemma run_amo:
  assumes t: "starting t" and x: "atomic_place (cpu_regs (em_cpu t) (di_rs1 i))"
  shows "\<exists>n. exec_amo f i t = Ok () n \<and> executed t None n
    \<and> arch n = (let x = cpu_regs (em_cpu t) (di_rs1 i); old = isa_word (arch t) x
        in isa_set i old (isa_write x (word_bytes (f old (cpu_regs (em_cpu t) (di_rs2 i)))) (arch t)))"
proof -
  let ?x = "cpu_regs (em_cpu t) (di_rs1 i)" and ?old = "isa_word (arch t) (cpu_regs (em_cpu t) (di_rs1 i))"
  let ?v = "f ?old (cpu_regs (em_cpu t) (di_rs2 i))"
  have b: "bare t" and c: "coherent t" using t by (simp_all add: starting_def)
  have p: "storable ?x 4" "loadable ?x 4" "?x AND 3 = 0" "?x \<noteq> TOHOST \<or> ?v = 0"
    using x by (simp_all add: atomic_place_def storable_def loadable_def)
  obtain n where n: "bus_write32 ?x ?v t = Ok () n" "stored t ?x (word_bytes ?v) n"
    using run_write(1) [OF p(1) c refl p(4)] by blast
  have cpu: "em_cpu n = told ?x (em_cpu t)" "coherent n" "serial_on n" "em_config n = em_config t"
    using n(2) t by (simp_all add: stored_def starting_def serial_on_def)
  show ?thesis
    using t read_dram(1) [OF p(2) refl] n(1) p(3) stored_arch [OF n(2)]
    by (simp add: exec_amo_def with_rs1_def mach_simps translate_bare [OF b] record_reg_def record_amo_def
        record_mem_def atomic_rmw_w_def arch_cpu isa_set_def executed_def starting_def cpu Let_def isa_write_def;
        simp add: arch_def)
qed

lemma run_sc:
  assumes t: "starting t" and x: "atomic_place (cpu_regs (em_cpu t) (di_rs1 i))"
  shows "\<exists>n. execSC_W i t = Ok () n \<and> executed t None n
    \<and> arch n = (let x = cpu_regs (em_cpu t) (di_rs1 i) in
        if reservation (em_cpu t) = Some x
        then isa_set i 0 ((isa_write x (word_bytes (cpu_regs (em_cpu t) (di_rs2 i))) (arch t))\<lparr>ar_reserved := None\<rparr>)
        else isa_set i 1 ((arch t)\<lparr>ar_reserved := None\<rparr>))"
proof -
  let ?x = "cpu_regs (em_cpu t) (di_rs1 i)" and ?v = "cpu_regs (em_cpu t) (di_rs2 i)"
  have b: "bare t" and c: "coherent t" using t by (simp_all add: starting_def)
  have p: "storable ?x 4" "loadable ?x 4" "?x \<noteq> TOHOST \<or> ?v = 0"
    using x by (simp_all add: atomic_place_def storable_def loadable_def)
  have res: "cpu_reservation_valid (em_cpu t) \<and> cpu_reservation_addr (em_cpu t) = ?x
      \<longleftrightarrow> reservation (em_cpu t) = Some ?x" by (simp add: reservation_def)
  have none: "reservation (c\<lparr>cpu_reservation_valid := False\<rparr>) = None" for c by (simp add: reservation_def)
  note run = execSC_W_def with_rs1_def mach_simps translate_bare [OF b] record_reg_def record_amo_def
    record_mem_def set_reservation_def arch_cpu isa_set_def executed_def res none Let_def
  show ?thesis
  proof (cases "reservation (em_cpu t) = Some ?x")
    case True
    obtain n where n: "bus_write32 ?x ?v t = Ok () n" "stored t ?x (word_bytes ?v) n"
      using run_write(1) [OF p(1) c refl p(3)] by blast
    have cpu: "em_cpu n = told ?x (em_cpu t)" "coherent n" "serial_on n" "em_config n = em_config t"
    using n(2) t by (simp_all add: stored_def starting_def serial_on_def)
    show ?thesis
      using t read_dram(1) [OF p(2) refl] n(1) stored_arch [OF n(2)] True
      by (simp add: run starting_def cpu isa_write_def; simp add: arch_def)
  next
    case False
    then show ?thesis using t read_dram(1) [OF p(2) refl]
      by (simp add: run starting_def; simp add: arch_def)
  qed
qed

lemma execute_amo:
  assumes "amo_function (di_kind i) = Some f"
  shows "execute i = exec_amo f i"
  using assms extrema
  by (cases "di_kind i") (auto simp: amo_function_def execute_def dispatch_def handler_defs)

lemma execute_atomic:
  assumes t: "starting t" and a: "isa_atomic i (arch t) = Some b" and ok: "isa_ok msk i (arch t)"
  shows "\<exists>n. execute i t = Ok () n \<and> executed t None n \<and> arch n = b"
proof (cases "amo_function (di_kind i)")
  case (Some f)
  then have "atomic_place (cpu_regs (em_cpu t) (di_rs1 i))"
    and "b = (let x = cpu_regs (em_cpu t) (di_rs1 i); old = isa_word (arch t) x
        in isa_set i old (isa_write x (word_bytes (f old (cpu_regs (em_cpu t) (di_rs2 i)))) (arch t)))"
    using a ok by (cases "di_kind i"; simp add: amo_function_def isa_ok_def isa_atomic_def Let_def)+
  then show ?thesis using run_amo [OF t, of i f] execute_amo [OF Some] by simp
next
  case None
  then consider "di_kind i = I_LR_W" | "di_kind i = I_SC_W"
    using a by (cases "di_kind i") (simp_all add: amo_function_def isa_atomic_def Let_def)
  then show ?thesis
  proof cases
    case 1
    then show ?thesis using run_lr [OF t, of i] a ok
      by (simp add: isa_ok_def isa_atomic_def execute_def dispatch_def Let_def)
  next
    case 2
    then show ?thesis using run_sc [OF t, of i] a ok
      by (simp add: isa_ok_def isa_atomic_def execute_def dispatch_def Let_def)
  qed
qed

text \<open>The console.\<close>

lemma serial_addresses:
  "in_uart SERIAL_DATA" "in_uart SERIAL_STATUS" "SERIAL_DATA - UART_BASE = RBR" "SERIAL_STATUS - UART_BASE = LSR"
  "SERIAL_DATA - UART_BASE = THR" "is_mmio SERIAL_DATA"
  by (simp_all add: SERIAL_DATA_def SERIAL_STATUS_def region_defs uart_consts is_mmio_def)

lemma coherent_uart [simp]: "coherent (m\<lparr>em_uart := u\<rparr>) \<longleftrightarrow> coherent m"
  by (rule coherent_cong) simp_all

lemma type_byte:
  assumes "serial_on t"
  shows "\<exists>u. bus_read8 SERIAL_DATA t = Ok (isa_typed (arch t)) (t\<lparr>em_uart := u\<rparr>)
    \<and> ua_rx_fifo u = tl (ua_rx_fifo (em_uart t)) \<and> ua_output u = ua_output (em_uart t)
    \<and> serial_on (t\<lparr>em_uart := u\<rparr>)"
proof -
  note run = bus_read8_def serial_addresses state_uart_def uart_read8_def isa_typed_def serial_on_def
  show ?thesis
  proof (cases "ua_rx_fifo (em_uart t)")
    case Nil
    then show ?thesis using assms by (intro exI [of _ "em_uart t"]) (simp add: run)
  next
    case (Cons c cs)
    then show ?thesis using assms by (auto simp: run)
  qed
qed

lemma run_typed:
  assumes t: "starting t" and a: "cpu_regs (em_cpu t) (di_rs1 i) + di_imm i = SERIAL_DATA"
  shows "\<exists>n. exec_load (\<lambda>pa. bnd (bus_read8 pa) (\<lambda>b. ret (ext b))) i t = Ok () n \<and> executed t None n
    \<and> arch n = isa_set i (ext (isa_typed (arch t))) ((arch t)\<lparr>ar_input := tl (ar_input (arch t))\<rparr>)"
proof -
  obtain u where u: "bus_read8 SERIAL_DATA t = Ok (isa_typed (arch t)) (t\<lparr>em_uart := u\<rparr>)"
      "ua_rx_fifo u = tl (ua_rx_fifo (em_uart t))" "ua_output u = ua_output (em_uart t)" "serial_on (t\<lparr>em_uart := u\<rparr>)"
    using type_byte t unfolding starting_def by blast
  have b: "bare t" using t by (simp add: starting_def)
  have s: "starting (t\<lparr>em_uart := u\<rparr>)" using t u(4) by (simp add: starting_def bare_def)
  obtain n where n: "commit i (ext (isa_typed (arch t))) (t\<lparr>em_uart := u\<rparr>) = Ok () n"
      "arch n = isa_set i (ext (isa_typed (arch t))) (arch (t\<lparr>em_uart := u\<rparr>))" "executed (t\<lparr>em_uart := u\<rparr>) None n"
    using run_commit [OF s] by blast
  have "arch (t\<lparr>em_uart := u\<rparr>) = (arch t)\<lparr>ar_input := tl (ar_input (arch t))\<rparr>"
    using u(2,3) by (simp add: arch_def dram_get_def)
  moreover have "exec_load (\<lambda>pa. bnd (bus_read8 pa) (\<lambda>b. ret (ext b))) i t = Ok () n"
    using n(1) u(1) by (simp add: exec_load_def with_rs1_def mach_simps translate_bare [OF b] a Let_def)
  ultimately show ?thesis using n(2,3) by (simp add: executed_def)
qed

lemma run_status:
  assumes t: "starting t" and a: "cpu_regs (em_cpu t) (di_rs1 i) + di_imm i = SERIAL_STATUS"
  shows "\<exists>n. exec_load (\<lambda>pa. bnd (bus_read8 pa) (\<lambda>b. ret (ext b))) i t = Ok () n \<and> executed t None n
    \<and> arch n = isa_set i (ext (isa_status (arch t))) (arch t)"
proof -
  have r: "bus_read8 SERIAL_STATUS t = Ok (isa_status (arch t)) t"
    by (simp add: bus_read8_def serial_addresses state_uart_def uart_read8_def read_lsr_def isa_status_def
        uart_consts Let_def)
  have b: "bare t" using t by (simp add: starting_def)
  obtain n where n: "commit i (ext (isa_status (arch t))) t = Ok () n"
      "arch n = isa_set i (ext (isa_status (arch t))) (arch t)" "executed t None n"
    using run_commit [OF t] by blast
  then have "exec_load (\<lambda>pa. bnd (bus_read8 pa) (\<lambda>b. ret (ext b))) i t = Ok () n"
    using r by (simp add: exec_load_def with_rs1_def mach_simps translate_bare [OF b] a Let_def)
  then show ?thesis using n(2,3) by blast
qed

lemma run_print:
  assumes t: "starting t" and a: "cpu_regs (em_cpu t) (di_rs1 i) + di_imm i = SERIAL_DATA"
  shows "\<exists>n. execSB i t = Ok () n \<and> executed t None n
    \<and> arch n = (arch t)\<lparr>ar_output := ar_output (arch t) @ [ucast (cpu_regs (em_cpu t) (di_rs2 i))]\<rparr>"
proof -
  let ?u = "em_uart t" and ?b = "ucast (cpu_regs (em_cpu t) (di_rs2 i)) :: u8"
  have b: "bare t" and s: "serial_on t" using t by (simp_all add: starting_def)
  have w: "bus_write8 SERIAL_DATA ?b t = Ok () (t\<lparr>em_uart := ?u\<lparr>ua_output := ua_output ?u @ [?b]\<rparr>\<rparr>)"
    using s by (simp add: bus_write8_def serial_addresses irq_uart_def state_uart_def uart_write8_def serial_on_def
        uart_consts do_if_def bnd_def ret_def)
  show ?thesis
    using t w
    by (simp add: execSB_def exec_store_def with_rs1_def mach_simps translate_bare [OF b] a Let_def old_value_def
        is_verbose_def serial_addresses(6) record_mem_def arch_def executed_def starting_def serial_on_def dram_get_def)
qed

lemma execute_console:
  assumes t: "starting t" and c: "isa_console i (arch t) = Some b"
  shows "\<exists>n. execute i t = Ok () n \<and> executed t None n \<and> arch n = b"
proof -
  have ne: "SERIAL_STATUS \<noteq> SERIAL_DATA" by (simp add: SERIAL_STATUS_def SERIAL_DATA_def)
  have byte: "byte_of 0 v = ucast v" for v :: u32 by (simp add: byte_of_def)
  let ?x = "cpu_regs (em_cpu t) (di_rs1 i) + di_imm i"
  consider "di_kind i = I_SB" "?x = SERIAL_DATA" | "di_kind i = I_LB \<or> di_kind i = I_LBU" "?x = SERIAL_DATA"
    | "di_kind i = I_LB \<or> di_kind i = I_LBU" "?x = SERIAL_STATUS"
    using c by (cases "di_kind i") (auto simp: isa_console_def Let_def split: if_splits)
  then show ?thesis
  proof cases
    case 1
    then show ?thesis using run_print [OF t 1(2)] c
      by (auto simp: execute_def dispatch_def isa_console_def Let_def byte)
  next
    case 2
    then show ?thesis using run_typed [OF t 2(2)] c
      by (auto simp: execute_def dispatch_def execLB_def execLBU_def isa_console_def Let_def)
  next
    case 3
    then show ?thesis using run_status [OF t 3(2)] c ne
      by (auto simp: execute_def dispatch_def execLB_def execLBU_def isa_console_def Let_def)
  qed
qed

subsection \<open>The step\<close>

lemma execute_fence:
  assumes t: "starting t"
    and "isa_value i (arch t) = None \<and> isa_taken i (arch t) = None \<and> isa_target i (arch t) = None
      \<and> isa_stored i (arch t) = None \<and> isa_atomic i (arch t) = None" and "isa_ok msk i (arch t)"
  shows "execute i t = Ok () t \<and> executed t None t"
proof -
  have "di_kind i = I_FENCE"
    using assms(2,3) by (cases "di_kind i")
      (simp_all add: isa_ok_def isa_value_def isa_taken_def isa_target_def isa_stored_def isa_atomic_def
        amo_function_def Let_def)
  then show ?thesis
    using t by (simp add: execute_def dispatch_def execFENCE_def ret_def executed_def starting_def)
qed

lemma execute_plain:
  assumes t: "starting t" and ok: "isa_ok (cpu_misalignment_mask (em_cpu t)) i (arch t)"
    and console: "isa_console i (arch t) = None"
  shows "\<exists>n j. execute i t = Ok () n \<and> executed t j n
    \<and> (arch n)\<lparr>ar_pc := (case j of None \<Rightarrow> cpu_pc (em_cpu t) + di_instr_len i | Some x \<Rightarrow> x)\<rparr> = isa_step i (arch t)"
proof (cases "isa_value i (arch t)")
  case (Some v)
  have "bare t" using t by (simp add: starting_def)
  then show ?thesis
    using run_commit [OF t, of i v] execute_value [OF _ Some ok console] Some
    by (force simp: isa_step_def console isa_next_def isa_set_def)
next
  case nv: None
  show ?thesis
  proof (cases "isa_taken i (arch t)")
    case (Some b)
    note d = execute_branch [OF Some]
    show ?thesis
    proof (cases b)
      case True
      then have al: "(cpu_pc (em_cpu t) + di_imm i) AND cpu_misalignment_mask (em_cpu t) = 0"
        using ok Some nv by (cases "di_kind i") (simp_all add: isa_ok_def isa_taken_def Let_def)
      then show ?thesis
        using run_jump [OF t, of "cpu_pc (em_cpu t) + di_imm i"] d True Some nv
        by (force simp: branch_to_def do_if_def andthen_def bnd_def get_cpu_def reads_def ret_def isa_step_def console)
    next
      case False
      have "executed t None t" using t by (simp add: executed_def starting_def)
      then show ?thesis using d False Some nv by (force simp: do_if_def ret_def isa_step_def console isa_next_def)
    qed
  next
    case nt: None
    show ?thesis
    proof (cases "isa_target i (arch t)")
      case (Some x)
      then have al: "x AND cpu_misalignment_mask (em_cpu t) = 0"
        using ok nt by (cases "di_kind i") (simp_all add: isa_ok_def isa_target_def isa_taken_def Let_def)
      then show ?thesis
        using run_link [OF t, of i "cpu_pc (em_cpu t) + di_instr_len i" x] execute_jump [OF Some] Some nv nt
        by (force simp: branch_to_def bnd_def get_cpu_def reads_def isa_step_def console)
    next
      case ng: None
      show ?thesis
      proof (cases "isa_stored i (arch t)")
        case (Some bs)
        then show ?thesis using execute_store [OF t Some ok console] nv nt ng
          by (force simp: isa_step_def console isa_next_def)
      next
        case ns: None
        show ?thesis
        proof (cases "isa_atomic i (arch t)")
          case (Some b)
          then show ?thesis using execute_atomic [OF t Some ok] nv nt ng ns
            by (force simp: isa_step_def console isa_next_def dest: executed_pc)
        next
          case None
          then show ?thesis using execute_fence [OF t _ ok] nv nt ng ns
            by (force simp: isa_step_def console isa_next_def)
        qed
      qed
    qed
  qed
qed

lemma execute_ok:
  assumes t: "starting t" and ok: "isa_ok (cpu_misalignment_mask (em_cpu t)) i (arch t)"
  shows "\<exists>n j. execute i t = Ok () n \<and> executed t j n
    \<and> (arch n)\<lparr>ar_pc := (case j of None \<Rightarrow> cpu_pc (em_cpu t) + di_instr_len i | Some x \<Rightarrow> x)\<rparr> = isa_step i (arch t)"
proof (cases "isa_console i (arch t)")
  case None
  then show ?thesis by (rule execute_plain [OF t ok])
next
  case (Some b)
  then show ?thesis using execute_console [OF t Some]
    by (force simp: isa_step_def isa_next_def dest: executed_pc)
qed

text \<open>What the simulation needs of the control registers, none of which the base instructions change.\<close>

definition quiet :: "Machine \<Rightarrow> bool" where
  "quiet m \<longleftrightarrow> coherent m \<and> bare m \<and> serial_on m \<and> cpu_csrs (em_cpu m) MIP AND cpu_csrs (em_cpu m) MIE = 0"

definition compressed_on :: "Machine \<Rightarrow> bool" where
  "compressed_on m \<longleftrightarrow> cpu_csrs (em_cpu m) MISA AND 0x4 \<noteq> 0"

lemma run_retire:
  assumes "executed t j n"
  shows "\<exists>u. unless_trapped (retire i) n = Ok () u
    \<and> arch u = (arch n)\<lparr>ar_pc := (case j of None \<Rightarrow> cpu_pc (em_cpu t) + di_instr_len i | Some x \<Rightarrow> x)\<rparr>
    \<and> coherent u \<and> serial_on u \<and> em_config u = em_config t \<and> cpu_misalignment_mask (em_cpu u) = cpu_misalignment_mask (em_cpu t)
    \<and> cpu_state (em_cpu u) = cpu_state (em_cpu t)
    \<and> cpu_privilege_level (em_cpu u) = cpu_privilege_level (em_cpu t)
    \<and> (\<forall>a. a \<noteq> MINSTRET \<and> a \<noteq> MINSTRETH \<longrightarrow> cpu_csrs (em_cpu u) a = cpu_csrs (em_cpu t) a)"
  using assms
  by (cases j) (auto simp: executed_def unless_trapped_def retire_def mach_simps arch_def dram_get_def)

text \<open>What a step leaves as it was.\<close>

definition same_mode :: "CPU \<Rightarrow> CPU \<Rightarrow> bool" where
  "same_mode c d \<longleftrightarrow> cpu_misalignment_mask d = cpu_misalignment_mask c \<and> cpu_state d = cpu_state c
     \<and> cpu_privilege_level d = cpu_privilege_level c
     \<and> (\<forall>a. a \<noteq> MINSTRET \<and> a \<noteq> MINSTRETH \<longrightarrow> cpu_csrs d a = cpu_csrs c a)"

lemma same_mode_csrs:
  assumes "same_mode c d"
  shows "cpu_csrs d MIP = cpu_csrs c MIP" "cpu_csrs d MIE = cpu_csrs c MIE"
    "cpu_csrs d SATP = cpu_csrs c SATP" "cpu_csrs d MISA = cpu_csrs c MISA"
  using assms by (simp_all add: same_mode_def csr_numbers)

lemma decode_raw: "di_raw (decode w) = w"
  by (simp add: decode_def Let_def decode_system_fields)

lemma isa_fetch_begins:
  assumes q: "quiet m" and r: "isa_fetchable (cpu_misalignment_mask (em_cpu m)) (compressed_on m) (arch m)"
  obtains t where "step m = andthen (execute (isa_fetch (arch m))) (unless_trapped (retire (isa_fetch (arch m)))) t"
    and "starting t" "arch t = arch m" "same_mode (em_cpu m) (em_cpu t)" "em_config t = em_config m"
    and "cpu_csrs (em_cpu t) = cpu_csrs (em_cpu m)" "sr_instruction (cpu_sr (em_cpu t)) = di_raw (isa_fetch (arch m))"
proof -
  let ?pc = "cpu_pc (em_cpu m)"
  have pc: "?pc AND 1 = 0" using r by (simp add: isa_fetchable_def)
  have f: "fetchable m ?pc"
    using r pc by (auto simp: isa_fetchable_def fetchable_def isa_half_arch compressed_on_def)
  obtain ic dc where s: "step m = andthen (execute (decoded_at m ?pc)) (unless_trapped (retire (decoded_at m ?pc)))
      (about_to_execute ic dc m)" and c: "coherent (about_to_execute ic dc m)"
    using step_run f q by (metis quiet_def)
  define t where "t = about_to_execute ic dc m"
  note st = about_to_execute_state [of ic dc m, folded t_def]
  have "reservation (em_cpu t) = reservation (em_cpu m)" "cpu_state (em_cpu t) = cpu_state (em_cpu m)"
    "cpu_misalignment_mask (em_cpu t) = cpu_misalignment_mask (em_cpu m)" and uart: "em_uart t = em_uart m" and config: "em_config t = em_config m"
    by (simp_all add: t_def about_to_execute_def cleared_def clearStep_def mach_simps with_caches_def
        decoded_state_def Let_def reservation_def)
  moreover have "sr_instruction (cpu_sr (em_cpu t)) = di_raw (decoded_at m ?pc)"
    by (simp add: t_def about_to_execute_def cleared_def clearStep_def mach_simps with_caches_def decoded_state_def
        Let_def decoded_at_def decode_raw)
  ultimately have "arch t = arch m" "same_mode (em_cpu m) (em_cpu t)" "sr_instruction (cpu_sr (em_cpu t)) = di_raw (decoded_at m ?pc)"
    by (simp_all add: arch_def dram_get_def same_mode_def st uart)
  moreover have "starting t" using c q st uart by (simp add: starting_def t_def quiet_def bare_def serial_on_def)
  ultimately show thesis using that s config st(3) unfolding isa_fetch_arch [OF pc] t_def by blast
qed

lemma step_isa:
  assumes q: "quiet m"
    and r: "isa_ready (cpu_misalignment_mask (em_cpu m)) (compressed_on m) (arch m)"
  shows "\<exists>u. step m = Ok () u \<and> arch u = isa_step (isa_fetch (arch m)) (arch m) \<and> quiet u
    \<and> same_mode (em_cpu m) (em_cpu u) \<and> em_config u = em_config m"
proof -
  let ?i = "isa_fetch (arch m)"
  have f: "isa_fetchable (cpu_misalignment_mask (em_cpu m)) (compressed_on m) (arch m)"
    and ok: "isa_ok (cpu_misalignment_mask (em_cpu m)) ?i (arch m)" using r by (simp_all add: isa_ready_def)
  obtain t where t: "step m = andthen (execute ?i) (unless_trapped (retire ?i)) t"
      "starting t" "arch t = arch m" "same_mode (em_cpu m) (em_cpu t)" "em_config t = em_config m"
    using isa_fetch_begins [OF q f] .
  have mask: "cpu_misalignment_mask (em_cpu t) = cpu_misalignment_mask (em_cpu m)" using t(4) by (simp add: same_mode_def)
  obtain n j where n: "execute ?i t = Ok () n" "executed t j n"
      "(arch n)\<lparr>ar_pc := (case j of None \<Rightarrow> cpu_pc (em_cpu t) + di_instr_len ?i | Some x \<Rightarrow> x)\<rparr> = isa_step ?i (arch m)"
    using execute_ok [OF t(2), of ?i] ok unfolding mask t(3) by blast
  obtain u where u: "unless_trapped (retire ?i) n = Ok () u" "arch u = isa_step ?i (arch m)" "coherent u" "serial_on u" "em_config u = em_config t"
      "cpu_misalignment_mask (em_cpu u) = cpu_misalignment_mask (em_cpu t)" "cpu_state (em_cpu u) = cpu_state (em_cpu t)"
      "cpu_privilege_level (em_cpu u) = cpu_privilege_level (em_cpu t)"
      "\<forall>a. a \<noteq> MINSTRET \<and> a \<noteq> MINSTRETH \<longrightarrow> cpu_csrs (em_cpu u) a = cpu_csrs (em_cpu t) a"
    using run_retire [OF n(2), of ?i] unfolding n(3) by blast
  have s: "same_mode (em_cpu m) (em_cpu u)" using t(4) u(6-9) by (simp add: same_mode_def)
  then have "quiet u" using q u(3,4) by (simp add: quiet_def bare_def same_mode_csrs)
  then show ?thesis using t(1,5) n(1) u(1,2,5) s by (simp add: andthen_def bnd_def)
qed

fun steps :: "nat \<Rightarrow> (Machine, unit) prog" where
  "steps 0 = ret ()"
| "steps (Suc n) = andthen step (steps n)"

lemma isa_run_Suc: "isa_run (Suc n) a = isa_step (isa_fetch (isa_run n a)) (isa_run n a)"
  by (induction n arbitrary: a) simp_all


text \<open>A program of three instructions: \<open>addi x5, x0, 7\<close>, \<open>lui x6, 0x80000\<close> and \<open>sw x5, 64(x6)\<close>.\<close>

definition isa_demo :: Machine where
  "isa_demo = demo\<lparr>em_dram := (\<lambda>_. 0)(0 := 0x93, 1 := 0x02, 2 := 0x70, 3 := 0x00,
     4 := 0x37, 5 := 0x03, 6 := 0x00, 7 := 0x80, 8 := 0x23, 9 := 0x20, 10 := 0x53, 11 := 0x04)\<rparr>"

definition isa_demo_at :: "u32 \<Rightarrow> (u8 \<Rightarrow> u32) \<Rightarrow> Arch" where
  "isa_demo_at pc regs = \<lparr>ar_pc = pc, ar_regs = regs, ar_mem = (\<lambda>x. em_dram isa_demo (dram_offset x)), ar_reserved = None, ar_input = [], ar_output = []\<rparr>"

lemma isa_demo_facts:
  "quiet isa_demo" "cpu_misalignment_mask (em_cpu isa_demo) = 3" "\<not> compressed_on isa_demo"
  "arch isa_demo = isa_demo_at 0x80000000 (\<lambda>_. 0)"
  by (simp_all add: isa_demo_def quiet_def coherent_def icache_ok_def decode_ok_def demo_defs ICacheEntry0_def
        CacheEntry0_def bare_def csr_numbers compressed_on_def arch_def dram_get_def isa_demo_at_def fun_eq_iff reservation_def
        serial_on_def UART0_def)

lemma isa_demo_halves:
  "isa_half (isa_demo_at pc r) 0x80000000 = 0x0293" "isa_half (isa_demo_at pc r) 0x80000002 = 0x0070"
  "isa_half (isa_demo_at pc r) 0x80000004 = 0x0337" "isa_half (isa_demo_at pc r) 0x80000006 = 0x8000"
  "isa_half (isa_demo_at pc r) 0x80000008 = 0x2023" "isa_half (isa_demo_at pc r) 0x8000000A = 0x0453"
  by (simp_all add: isa_half_def isa_demo_at_def dram_offset_def DRAM_BASE_def isa_demo_def le16_def)

lemma isa_demo_fetch:
  "isa_fetch (isa_demo_at 0x80000000 r) = (decode 0x00700293)\<lparr>di_instr_len := 4\<rparr>"
  "isa_fetch (isa_demo_at 0x80000004 r) = (decode 0x80000337)\<lparr>di_instr_len := 4\<rparr>"
  "isa_fetch (isa_demo_at 0x80000008 r) = (decode 0x04532023)\<lparr>di_instr_len := 4\<rparr>"
  unfolding isa_fetch_def Let_def by (simp_all add: isa_demo_at_def [of _ r, THEN arg_cong [of _ _ ar_pc]] isa_demo_halves)

lemma isa_demo_decode:
  "di_kind (decode 0x00700293) = I_ADDI \<and> di_rd (decode 0x00700293) = 5
      \<and> di_rs1 (decode 0x00700293) = 0 \<and> di_imm (decode 0x00700293) = 7"
  "di_kind (decode 0x80000337) = I_LUI \<and> di_rd (decode 0x80000337) = 6 \<and> di_imm (decode 0x80000337) = 0x80000000"
  "di_kind (decode 0x04532023) = I_SW \<and> di_rs1 (decode 0x04532023) = 6
      \<and> di_rs2 (decode 0x04532023) = 5 \<and> di_imm (decode 0x04532023) = 64"
  by (simp_all add: decode_def decode_alu_imm_def decode_store_def imm_s_def get_bits_def sign_extend_def DecodedInstr0_def Let_def)


end
