(* ===== verification/Bytes.thy ===== *)
theory Bytes
  imports BaseIsa
begin

section \<open>Runs of bytes in main memory\<close>

text \<open>
  Main memory as a function of the address, and what the byte-wise transfers of the bus and of the
  devices do to it, for the loader and for the virtio devices.
\<close>

unbundle bit_operations_syntax

definition byte_at :: "Machine \<Rightarrow> u32 \<Rightarrow> u8" where
  "byte_at m x = dram_get m (dram_offset x)"

lemma in_dram_offset: "in_dram x \<longleftrightarrow> dram_offset x < unat DRAM_SIZE"
proof
  assume "in_dram x"
  then show "dram_offset x < unat DRAM_SIZE"
    by (simp add: dram_offset_unat in_dram_unat DRAM_SIZE_def) linarith
next
  assume a: "dram_offset x < unat DRAM_SIZE"
  have "unat (DRAM_BASE + of_nat (dram_offset x)) = unat DRAM_BASE + dram_offset x"
    by (rule unat_add_of_nat) (use a in \<open>simp add: DRAM_BASE_def DRAM_SIZE_def\<close>)
  moreover have "DRAM_BASE + of_nat (dram_offset x) = x" by (simp add: dram_offset_def)
  ultimately have "unat x = unat DRAM_BASE + dram_offset x" by simp
  then show "in_dram x" using a by (simp add: in_dram_unat DRAM_BASE_def DRAM_SIZE_def)
qed

lemma loadable_add:
  assumes "loadable x n" "i < n"
  shows "dram_offset (x + of_nat i) = dram_offset x + i" "loadable (x + of_nat i) (n - i)" "in_dram (x + of_nat i)"
proof -
  have fits: "dram_offset x + n \<le> unat DRAM_SIZE" using assms(1) by (simp add: loadable_def dram_fits_def)
  then have "unat (x - DRAM_BASE) + i < 2 ^ 32" using assms(2) by (simp add: dram_offset_def DRAM_SIZE_def)
  then show o: "dram_offset (x + of_nat i) = dram_offset x + i" by (rule dram_offset_add)
  then show d: "in_dram (x + of_nat i)" using fits assms(2) by (simp add: in_dram_offset)
  show "loadable (x + of_nat i) (n - i)" using o d fits assms(2) by (simp add: loadable_def dram_fits_def)
qed

lemma read_bytes_dram:
  assumes "n = 0 \<or> loadable x n"
  shows "bus_read_bytes x n m = Ok (map (\<lambda>i. byte_at m (x + of_nat i)) [0..<n]) m"
  using assms
proof (induction n arbitrary: x)
  case 0
  then show ?case by (simp add: ret_def)
next
  case (Suc n)
  then have l: "loadable x (Suc n)" by simp
  have "n = 0 \<or> loadable (x + 1) n" using loadable_add(2) [OF l, of 1] by (cases n) simp_all
  from Suc.IH [OF this] have "bus_read_bytes (x + 1) n m = Ok (map (\<lambda>i. byte_at m (x + 1 + of_nat i)) [0..<n]) m" .
  moreover have "bus_read8 x m = Ok (byte_at m x) m"
    using read_dram(3) [of x "Suc n" m] l by (simp add: byte_at_def)
  moreover have "map (\<lambda>i. byte_at m (x + of_nat i)) [0..<Suc n]
      = byte_at m x # map (\<lambda>i. byte_at m (x + 1 + of_nat i)) [0..<n]"
    by (simp add: upt_conv_Cons map_Suc_upt [symmetric] add.assoc del: upt_Suc)
  ultimately show ?case by (simp add: bnd_def ret_def)
qed

text \<open>What a run of stores leaves at an address.\<close>

lemma put_bytes_other:
  assumes "\<forall>i < length bs. y \<noteq> x + of_nat i"
  shows "put_bytes x bs f y = f y"
  using assms
proof (induction bs arbitrary: x f)
  case Nil
  then show ?case by simp
next
  case (Cons b bs)
  have "\<forall>i < length bs. y \<noteq> (x + 1) + of_nat i"
  proof (intro allI impI)
    fix i assume "i < length bs"
    then show "y \<noteq> (x + 1) + of_nat i" using Cons.prems [rule_format, of "Suc i"] by (simp add: add.assoc)
  qed
  moreover have "y \<noteq> x" using Cons.prems [rule_format, of 0] by simp
  ultimately show ?case using Cons.IH [of "x + 1" "f(x := b)"] by (simp del: fun_upd_apply) simp
qed

lemma put_bytes_at:
  assumes "i < length bs" "length bs \<le> 2 ^ 32"
  shows "put_bytes x bs f (x + of_nat i) = bs ! i"
  using assms
proof (induction bs arbitrary: x f i)
  case Nil
  then show ?case by simp
next
  case (Cons b bs)
  show ?case
  proof (cases i)
    case 0
    have "x \<noteq> (x + 1) + of_nat k" if "k < length bs" for k
    proof
      assume "x = (x + 1) + of_nat k"
      then have "x + of_nat (Suc k) = x" by (simp add: add.assoc)
      then have "(of_nat (Suc k) :: u32) = 0" by (metis add_cancel_right_right)
      then have "2 ^ 32 dvd Suc k" by (simp only: word_of_nat_eq_0_iff) simp
      then show False using that Cons.prems(2) dvd_imp_le [of "2 ^ 32" "Suc k"] by simp
    qed
    then show ?thesis using 0 by (simp add: put_bytes_other)
  next
    case (Suc k)
    then show ?thesis using Cons.IH [of k "x + 1" "f(x := b)"] Cons.prems by (simp add: add.assoc del: fun_upd_apply)
  qed
qed

lemma byte_at_other [simp]: "byte_at (m\<lparr>em_net := v\<rparr>) = byte_at m" "byte_at (m\<lparr>em_plic := p\<rparr>) = byte_at m"
    "byte_at (m\<lparr>em_blk := b\<rparr>) = byte_at m" "byte_at (m\<lparr>em_cpu := c\<rparr>) = byte_at m"
  by (simp_all add: byte_at_def fun_eq_iff dram_get_def)

text \<open>A machine that differs from another in main memory and in what stores do to the processor.\<close>

definition loaded :: "Machine \<Rightarrow> (u32 \<Rightarrow> u8) \<Rightarrow> Machine \<Rightarrow> bool" where
  "loaded m mem n \<longleftrightarrow> n = m\<lparr>em_dram := em_dram n, em_cpu := em_cpu n\<rparr>
     \<and> cpu_core (em_cpu n) = cpu_core (em_cpu m) \<and> byte_at n = mem"

lemma loaded_trans: "loaded m mem n \<Longrightarrow> loaded n mem' t \<Longrightarrow> loaded m mem' t"
  unfolding loaded_def by (cases m; cases n; cases t) simp

lemma loaded_same:
  assumes "loaded m mem n"
  shows loaded_net: "em_net n = em_net m" and "em_plic n = em_plic m" and "byte_at n = mem"
    and loaded_blk: "em_blk n = em_blk m" and "cpu_core (em_cpu n) = cpu_core (em_cpu m)"
  using assms by (cases m; cases n; simp add: loaded_def)+

lemma write_byte_run:
  assumes "in_dram x"
  shows "\<exists>n. bus_write8 x b m = Ok () n \<and> loaded m ((byte_at m)(x := b)) n"
proof -
  let ?m = "dram_set (dram_offset x) b m\<lparr>em_cpu := told x (em_cpu m)\<rparr>"
  have "byte_at ?m = (byte_at m)(x := b)"
    by (auto simp: byte_at_def fun_eq_iff dram_get_sets dram_offset_inj)
  then have "loaded m ((byte_at m)(x := b)) ?m"
    by (simp add: loaded_def told_core) (simp add: dram_set_def)
  then show ?thesis using bus_write8_dram [OF assms, of b m] by blast
qed

lemma write_bytes_run:
  assumes "bs = [] \<or> loadable x (length bs)"
  shows "\<exists>n. bus_write_bytes x bs m = Ok () n \<and> loaded m (put_bytes x bs (byte_at m)) n"
  using assms
proof (induction bs arbitrary: x m)
  case Nil
  then show ?case by (simp add: ret_def loaded_def)
next
  case (Cons b bs)
  then have l: "loadable x (Suc (length bs))" by simp
  have "in_dram x" using l by (simp add: loadable_def)
  from write_byte_run [OF this] obtain t where w: "bus_write8 x b m = Ok () t" and m: "loaded m ((byte_at m)(x := b)) t"
    by blast
  have "bs = [] \<or> loadable (x + 1) (length bs)" using loadable_add(2) [OF l, of 1] by (cases bs) simp_all
  from Cons.IH [OF this, of t] obtain n where n: "bus_write_bytes (x + 1) bs t = Ok () n"
      "loaded t (put_bytes (x + 1) bs (byte_at t)) n" by blast
  have "byte_at t = (byte_at m)(x := b)" using m by (simp only: loaded_def)
  then have "loaded m (put_bytes x (b # bs) (byte_at m)) n" using loaded_trans [OF m n(2)] by simp
  then show ?case using w n(1) by (auto simp: andthen_def bnd_def)
qed

text \<open>The bytes a transfer from the disk stores.\<close>

lemma dma_bytes:
  assumes "bs = [] \<or> loadable x (length bs)"
  shows "\<exists>n. dma_to_dram x bs m = Ok () n \<and> n = m\<lparr>em_dram := em_dram n\<rparr>
    \<and> (\<forall>i < length bs. byte_at n (x + of_nat i) = bs ! i)
    \<and> (\<forall>y. (\<forall>i < length bs. y \<noteq> x + of_nat i) \<longrightarrow> byte_at n y = byte_at m y)"
proof -
  let ?d = "\<lambda>i. if dram_offset x \<le> i \<and> i < dram_offset x + length bs then bs ! (i - dram_offset x) else em_dram m i"
  let ?n = "m\<lparr>em_dram := ?d\<rparr>"
  have run: "dma_to_dram x bs m = Ok () ?n"
    using assms by (auto simp: dma_to_dram_def checked_def updates_def loadable_def)
  have get: "byte_at ?n y = ?d (dram_offset y)" for y by (simp add: byte_at_def dram_get_def)
  have off: "dram_offset (x + of_nat i) = dram_offset x + i" if "i < length bs" for i
    using assms that loadable_add(1) by fastforce
  have "byte_at ?n (x + of_nat i) = bs ! i" if "i < length bs" for i
    using off [OF that] that by (simp add: get)
  moreover have "byte_at ?n y = byte_at m y" if y: "\<forall>i < length bs. y \<noteq> x + of_nat i" for y
  proof -
    have "\<not> (dram_offset x \<le> dram_offset y \<and> dram_offset y < dram_offset x + length bs)"
    proof
      assume r: "dram_offset x \<le> dram_offset y \<and> dram_offset y < dram_offset x + length bs"
      let ?i = "dram_offset y - dram_offset x"
      have i: "?i < length bs" using r by linarith
      have "dram_offset (x + of_nat ?i) = dram_offset y" using off [OF i] r by linarith
      then have "y = x + of_nat ?i" using dram_offset_inj by metis
      then show False using y i by blast
    qed
    then show ?thesis unfolding get by (simp only: if_False) (simp add: byte_at_def dram_get_def)
  qed
  ultimately show ?thesis using run by (intro exI [of _ ?n]) simp
qed

lemma dma_run:
  assumes "bs = [] \<or> loadable x (length bs)"
  shows "\<exists>n. dma_to_dram x bs m = Ok () n \<and> loaded m (put_bytes x bs (byte_at m)) n"
proof -
  obtain n where n: "dma_to_dram x bs m = Ok () n" "n = m\<lparr>em_dram := em_dram n\<rparr>"
      "\<forall>i < length bs. byte_at n (x + of_nat i) = bs ! i"
      "\<forall>y. (\<forall>i < length bs. y \<noteq> x + of_nat i) \<longrightarrow> byte_at n y = byte_at m y"
    using dma_bytes [OF assms] by blast
  have len: "length bs \<le> 2 ^ 32" using assms by (auto simp: loadable_def dram_fits_def DRAM_SIZE_def)
  have "byte_at n y = put_bytes x bs (byte_at m) y" for y
  proof (cases "\<forall>i < length bs. y \<noteq> x + of_nat i")
    case True
    then show ?thesis using n(4) put_bytes_other [OF True] by simp
  next
    case False
    then obtain i where "i < length bs" "y = x + of_nat i" by blast
    then show ?thesis using n(3) put_bytes_at [OF _ len] by simp
  qed
  moreover have "em_cpu n = em_cpu m" by (subst n(2)) simp
  ultimately show ?thesis using n(1,2) by (auto simp: loaded_def)
qed

text \<open>Stores of half-words and words.\<close>

definition put16 :: "u32 \<Rightarrow> u16 \<Rightarrow> (u32 \<Rightarrow> u8) \<Rightarrow> u32 \<Rightarrow> u8" where
  "put16 x h = put_bytes x [byte_of 0 h, byte_of 1 h]"

definition put32 :: "u32 \<Rightarrow> u32 \<Rightarrow> (u32 \<Rightarrow> u8) \<Rightarrow> u32 \<Rightarrow> u8" where
  "put32 x v = put_bytes x [byte_of 0 v, byte_of 1 v, byte_of 2 v, byte_of 3 v]"

lemma byte_at_arch: "byte_at m = ar_mem (arch m)"
  by (simp add: byte_at_def fun_eq_iff)

lemma write_mem:
  shows "loadable x 2 \<Longrightarrow> \<exists>n. bus_write16 x h m = Ok () n \<and> loaded m (put16 x h (byte_at m)) n"
    and "in_memory x \<Longrightarrow> \<exists>n. bus_write32_at (Suc d) x v m = Ok () n \<and> loaded m (put32 x v (byte_at m)) n"
proof -
  have cpu: "byte_at (t\<lparr>em_cpu := c\<rparr>) = byte_at t" for t c by (simp add: byte_at_def fun_eq_iff dram_get_def)
  show "\<exists>n. bus_write16 x h m = Ok () n \<and> loaded m (put16 x h (byte_at m)) n" if "loadable x 2"
    using that bus_write16_dram [of x h m] put_half [of x h m]
    by (simp add: loadable_def loaded_def told_core put16_def cpu byte_at_arch [of "set_dram_half _ _ _"]
        byte_at_arch [of m]) (simp add: set_dram_half_def dram_set_def)
  show "\<exists>n. bus_write32_at (Suc d) x v m = Ok () n \<and> loaded m (put32 x v (byte_at m)) n" if "in_memory x"
    using that bus_write32_at_dram [of x v d m] put_word [of x v m]
    by (simp add: in_memory_def loaded_def told_core put32_def word_bytes_def cpu byte_at_arch [of "set_dram_word _ _ _"]
        byte_at_arch [of m] del: bus_write32_at.simps) (simp add: set_dram_word_def dram_set_def)
qed

lemma loadable_part:
  assumes "loadable x n" "i + k \<le> n" "0 < k"
  shows "loadable (x + of_nat i) k"
proof -
  have "i < n" using assms(2,3) by linarith
  from loadable_add [OF assms(1) this] show ?thesis
    using assms(2) unfolding loadable_def dram_fits_def by linarith
qed

text \<open>The half-words and words of memory, and the reads that return them.\<close>

definition mem16 :: "(u32 \<Rightarrow> u8) \<Rightarrow> u32 \<Rightarrow> u16" where
  "mem16 mem x = le16 (mem x) (mem (x + 1))"

definition mem32 :: "(u32 \<Rightarrow> u8) \<Rightarrow> u32 \<Rightarrow> u32" where
  "mem32 mem x = le32 (mem x) (mem (x + 1)) (mem (x + 2)) (mem (x + 3))"

definition bytes_of :: "(u32 \<Rightarrow> u8) \<Rightarrow> u32 \<Rightarrow> nat \<Rightarrow> u8 list" where
  "bytes_of mem x n = map (\<lambda>i. mem (x + of_nat i)) [0..<n]"

lemma read_mem:
  "loadable x 2 \<Longrightarrow> bus_read16 x m = Ok (mem16 (byte_at m) x) m"
  "loadable x 4 \<Longrightarrow> bus_read32 x m = Ok (mem32 (byte_at m) x) m"
  using read_dram(1) [of x 4 m] read_dram(2) [of x 2 m]
  by (simp_all add: mem16_def mem32_def byte_at_def isa_half_def isa_word_def)

lemma read_bytes_of: "n = 0 \<or> loadable x n \<Longrightarrow> bus_read_bytes x n m = Ok (bytes_of (byte_at m) x n) m"
  unfolding bytes_of_def by (rule read_bytes_dram)

text \<open>A run of memory that lies apart from the addresses \<open>W\<close>: memories equal off \<open>W\<close> agree on it.\<close>

definition apart :: "u32 set \<Rightarrow> u32 \<Rightarrow> nat \<Rightarrow> bool" where
  "apart W x n \<longleftrightarrow> loadable x n \<and> (\<forall>i < n. x + of_nat i \<notin> W)"

definition agree :: "u32 set \<Rightarrow> (u32 \<Rightarrow> u8) \<Rightarrow> (u32 \<Rightarrow> u8) \<Rightarrow> bool" where
  "agree W f g \<longleftrightarrow> (\<forall>y. y \<notin> W \<longrightarrow> f y = g y)"

lemma agree_refl: "agree W f f"
  by (simp add: agree_def)

lemma agree_trans: "agree W f g \<Longrightarrow> agree W g h \<Longrightarrow> agree W f h"
  by (simp add: agree_def)

lemma apart_part: "apart W x n \<Longrightarrow> i + k \<le> n \<Longrightarrow> 0 < k \<Longrightarrow> apart W (x + of_nat i) k"
  unfolding apart_def using loadable_part [of x n i k]
  by (auto simp flip: add.assoc of_nat_add) (metis add.assoc add_less_le_mono of_nat_add nat_add_left_cancel_less order_less_le_trans)

lemma apart_at: "apart W x n \<Longrightarrow> i < n \<Longrightarrow> x + of_nat i \<notin> W"
  by (simp add: apart_def)

lemma agree_words:
  assumes "agree W f g"
  shows "apart W x 2 \<Longrightarrow> mem16 f x = mem16 g x" "apart W x 4 \<Longrightarrow> mem32 f x = mem32 g x"
    "n = 0 \<or> apart W x n \<Longrightarrow> bytes_of f x n = bytes_of g x n"
proof -
  show "mem16 f x = mem16 g x" if "apart W x 2"
    using assms apart_at [OF that, of 0] apart_at [OF that, of 1] by (simp add: agree_def mem16_def)
  show "mem32 f x = mem32 g x" if "apart W x 4"
    using assms apart_at [OF that, of 0] apart_at [OF that, of 1] apart_at [OF that, of 2] apart_at [OF that, of 3]
    by (simp add: agree_def mem32_def)
  show "bytes_of f x n = bytes_of g x n" if "n = 0 \<or> apart W x n"
    using assms that by (auto simp: agree_def bytes_of_def apart_def)
qed

lemma apart_below:
  assumes "loadable x n" "\<forall>y \<in> W. dram_offset x + n \<le> dram_offset y"
  shows "apart W x n"
  using assms loadable_add(1) [OF assms(1)] by (auto simp: apart_def)

lemma drop_bytes_of: "drop k (bytes_of mem x n) = bytes_of mem (x + of_nat k) (n - k)"
proof (rule nth_equalityI)
  fix i assume "i < length (drop k (bytes_of mem x n))"
  then have "k + i < n" "i < n - k" by (simp_all add: bytes_of_def)
  then show "drop k (bytes_of mem x n) ! i = bytes_of mem (x + of_nat k) (n - k) ! i"
    by (simp add: bytes_of_def add.assoc)
qed (simp add: bytes_of_def)

lemma put_bytes_agree: "\<forall>i < length bs. x + of_nat i \<in> W \<Longrightarrow> agree W (put_bytes x bs f) f"
  unfolding agree_def by (metis put_bytes_other)

lemma low_of_pair: "ucast (push_bit 32 (ucast (hi :: u32)) OR ucast (lo :: u32) :: u64) = lo"
    "ucast (ucast lo OR push_bit 32 (ucast hi) :: u64) = lo"
  by (rule bit_word_eqI; simp add: bit_simps)+

end
