(* ===== verification/Virtqueue.thy ===== *)
theory Virtqueue
  imports Bytes
begin

section \<open>Virtqueues\<close>

text \<open>
  The part the two virtio devices share: descriptors and their chains, the available ring and the used ring,
  as functions of the contents of memory. The locale \<open>virtqueue\<close> is what the accesses to a queue rely
  on - where a device keeps the addresses of its rings, and that stores to main memory leave them alone - and is
  interpreted on both devices.
\<close>

unbundle bit_operations_syntax

subsection \<open>Descriptor chains\<close>

definition desc_at :: "u32 \<Rightarrow> u16 \<Rightarrow> u32" where
  "desc_at base idx = base + ucast idx * 16"

definition buf_addr :: "(u32 \<Rightarrow> u8) \<Rightarrow> u32 \<Rightarrow> u16 \<Rightarrow> u32" where
  "buf_addr mem base idx = mem32 mem (desc_at base idx)"

definition buf_len :: "(u32 \<Rightarrow> u8) \<Rightarrow> u32 \<Rightarrow> u16 \<Rightarrow> u32" where
  "buf_len mem base idx = mem32 mem (desc_at base idx + 8)"

definition buf_more :: "(u32 \<Rightarrow> u8) \<Rightarrow> u32 \<Rightarrow> u16 \<Rightarrow> bool" where
  "buf_more mem base idx \<longleftrightarrow> mem16 mem (desc_at base idx + 12) AND VIRTQ_DESC_F_NEXT \<noteq> 0"

definition buf_next :: "(u32 \<Rightarrow> u8) \<Rightarrow> u32 \<Rightarrow> u16 \<Rightarrow> u16" where
  "buf_next mem base idx = mem16 mem (desc_at base idx + 14)"

text \<open>The descriptors of the chain with a given head, if it ends within \<open>n\<close> of them.\<close>

fun path :: "nat \<Rightarrow> (u32 \<Rightarrow> u8) \<Rightarrow> u32 \<Rightarrow> u16 \<Rightarrow> u16 list option" where
  "path 0 mem base idx = None"
| "path (Suc n) mem base idx =
    (if buf_more mem base idx then map_option ((#) idx) (path n mem base (buf_next mem base idx))
     else Some [idx])"

definition desc_clear :: "u32 set \<Rightarrow> u32 \<Rightarrow> u16 \<Rightarrow> bool" where
  "desc_clear W base idx \<longleftrightarrow> apart W (desc_at base idx) 16"

lemma desc_parts:
  assumes "desc_clear W base idx"
  shows "apart W (desc_at base idx) 4" "apart W (desc_at base idx + 4) 4" "apart W (desc_at base idx + 8) 4"
    "apart W (desc_at base idx + 12) 2" "apart W (desc_at base idx + 14) 2"
  using assms apart_part [of W "desc_at base idx" 16 0 4] apart_part [of W "desc_at base idx" 16 4 4]
    apart_part [of W "desc_at base idx" 16 8 4] apart_part [of W "desc_at base idx" 16 12 2]
    apart_part [of W "desc_at base idx" 16 14 2] by (simp_all add: desc_clear_def)

lemma buf_agree:
  assumes "agree W f g" "desc_clear W base idx"
  shows "buf_addr f base idx = buf_addr g base idx" "buf_len f base idx = buf_len g base idx"
    "buf_more f base idx = buf_more g base idx" "buf_next f base idx = buf_next g base idx"
  using agree_words(1,2) [OF assms(1)] desc_parts [OF assms(2)]
  by (simp_all add: buf_addr_def buf_len_def buf_more_def buf_next_def)

lemma path_agree:
  assumes "agree W f g" "path n g base idx = Some is" "list_all (desc_clear W base) is"
  shows "path n f base idx = Some is"
  using assms(2,3)
proof (induction n arbitrary: idx "is")
  case (Suc n)
  have "idx \<in> set is" using Suc.prems(1) by (auto split: if_splits)
  then have "desc_clear W base idx" using Suc.prems(2) by (simp add: list_all_iff)
  note b = buf_agree [OF assms(1) this]
  show ?case using Suc b by (auto split: if_splits)
qed simp

definition buf_bytes :: "(u32 \<Rightarrow> u8) \<Rightarrow> u32 \<Rightarrow> u16 \<Rightarrow> u8 list" where
  "buf_bytes mem base idx = bytes_of mem (buf_addr mem base idx) (unat (buf_len mem base idx))"

definition buf_clear :: "u32 set \<Rightarrow> (u32 \<Rightarrow> u8) \<Rightarrow> u32 \<Rightarrow> u16 \<Rightarrow> bool" where
  "buf_clear W mem base idx \<longleftrightarrow> desc_clear W base idx
     \<and> (buf_len mem base idx = 0 \<or> apart W (buf_addr mem base idx) (unat (buf_len mem base idx)))"

lemma buf_clear_agree:
  assumes "agree W f g" "buf_clear W g base idx"
  shows "buf_clear W f base idx" "buf_bytes f base idx = buf_bytes g base idx"
proof -
  have d: "desc_clear W base idx" using assms(2) by (simp add: buf_clear_def)
  note b = buf_agree(1,2) [OF assms(1) d]
  show "buf_clear W f base idx" using assms(2) unfolding buf_clear_def b .
  have "unat (buf_len g base idx) = 0 \<or> apart W (buf_addr g base idx) (unat (buf_len g base idx))"
    using assms(2) by (auto simp: buf_clear_def)
  then show "buf_bytes f base idx = buf_bytes g base idx"
    unfolding buf_bytes_def b by (rule agree_words(3) [OF assms(1)])
qed

text \<open>
  The fuel of a walk is enough: a chain that ends visits no descriptor twice, and there are 65536.
\<close>

lemma path_mono: "path n mem base idx = Some is \<Longrightarrow> n \<le> k \<Longrightarrow> path k mem base idx = Some is"
proof (induction n arbitrary: idx k "is")
  case (Suc n)
  then obtain l where l: "k = Suc l" "n \<le> l" by (cases k) simp_all
  show ?case
  proof (cases "buf_more mem base idx")
    case True
    then obtain js where js: "path n mem base (buf_next mem base idx) = Some js" "is = idx # js"
      using Suc.prems by auto
    then show ?thesis using Suc.IH [OF js(1) l(2)] True l(1) by simp
  qed (use Suc.prems l in auto)
qed simp

lemma path_length: "path n mem base idx = Some is \<Longrightarrow> path (length is) mem base idx = Some is \<and> is \<noteq> []"
proof (induction n arbitrary: idx "is")
  case (Suc n)
  show ?case
  proof (cases "buf_more mem base idx")
    case True
    then obtain js where js: "path n mem base (buf_next mem base idx) = Some js" "is = idx # js"
      using Suc.prems by auto
    then show ?thesis using Suc.IH [OF js(1)] True by simp
  qed (use Suc.prems in auto)
qed simp

lemma path_det: "path n mem base idx = Some is \<Longrightarrow> path k mem base idx = Some js \<Longrightarrow> is = js"
  by (metis path_mono nat_le_linear option.inject)

lemma path_suffix:
  "path n mem base idx = Some is \<Longrightarrow> j \<in> set is \<Longrightarrow> \<exists>k js. path k mem base j = Some js \<and> length js \<le> length is"
proof (induction n arbitrary: idx "is")
  case (Suc n)
  show ?case
  proof (cases "j = idx")
    case True
    then show ?thesis using Suc.prems(1) by blast
  next
    case False
    then obtain js where "path n mem base (buf_next mem base idx) = Some js" "is = idx # js" "j \<in> set js"
      using Suc.prems by (auto split: if_splits)
    then show ?thesis using Suc.IH by fastforce
  qed
qed simp

lemma path_distinct: "path n mem base idx = Some is \<Longrightarrow> distinct is"
proof (induction n arbitrary: idx "is")
  case (Suc n)
  show ?case
  proof (cases "buf_more mem base idx")
    case True
    then obtain js where js: "path n mem base (buf_next mem base idx) = Some js" "is = idx # js"
      using Suc.prems by auto
    have "idx \<notin> set js"
    proof
      assume "idx \<in> set js"
      then obtain k ks where "path k mem base idx = Some ks" "length ks \<le> length js"
        using path_suffix [OF js(1)] by blast
      then show False using path_det [OF Suc.prems] js(2) by fastforce
    qed
    then show ?thesis using Suc.IH [OF js(1)] js(2) by simp
  next
    case False
    then show ?thesis using Suc.prems by auto
  qed
qed simp

lemma chain_fuel:
  assumes "path n mem base idx = Some is"
  shows "path CHAIN_FUEL mem base idx = Some is"
proof -
  have "length is = card (set is)" using path_distinct [OF assms] by (simp add: distinct_card)
  also have "\<dots> \<le> card (UNIV :: u16 set)" by (intro card_mono) simp_all
  also have "\<dots> \<le> CHAIN_FUEL" by (simp add: CHAIN_FUEL_def card_word)
  finally show ?thesis using path_mono path_length [OF assms] by blast
qed

subsection \<open>The available ring\<close>

definition slot_addr :: "u16 \<Rightarrow> u32 \<Rightarrow> u16 \<Rightarrow> u32" where
  "slot_addr qsize avail p = avail + 4 + ucast (p mod qsize) * 2"

definition slot_head :: "u16 \<Rightarrow> (u32 \<Rightarrow> u8) \<Rightarrow> u32 \<Rightarrow> u16 \<Rightarrow> u16" where
  "slot_head qsize mem avail p = mem16 mem (slot_addr qsize avail p)"

text \<open>The positions between two ring indices.\<close>

definition pending :: "u16 \<Rightarrow> u16 \<Rightarrow> u16 list" where
  "pending l i = map (\<lambda>j. l + of_nat j) [0..<unat (i - l)]"

lemma pending_Cons:
  assumes "l \<noteq> i"
  shows "pending l i = l # pending (l + 1) i" "unat (i - l) = Suc (unat (i - (l + 1)))"
proof -
  have "i - l \<noteq> 0" using assms by simp
  then show n: "unat (i - l) = Suc (unat (i - (l + 1)))"
    using unatSuc [of "i - l - 1"] by (simp add: algebra_simps)
  show "pending l i = l # pending (l + 1) i"
    unfolding pending_def n by (simp add: upt_conv_Cons map_Suc_upt [symmetric] add.assoc del: upt_Suc)
qed

subsection \<open>The used ring\<close>

definition used_bytes :: "u16 \<Rightarrow> nat" where
  "used_bytes qsize = 4 + unat qsize * 8"

definition used_set :: "u16 \<Rightarrow> u32 \<Rightarrow> u32 set" where
  "used_set qsize u = (\<lambda>i. u + of_nat i) ` {..<used_bytes qsize}"

text \<open>The ring lies in main memory, clear of the exit word.\<close>

definition used_ok :: "u16 \<Rightarrow> u32 \<Rightarrow> bool" where
  "used_ok qsize u \<longleftrightarrow> loadable u (used_bytes qsize) \<and> TOHOST \<notin> used_set qsize u"

definition used_entry :: "u16 \<Rightarrow> u32 \<Rightarrow> u16 \<Rightarrow> u32" where
  "used_entry qsize u i = u + 4 + ucast (i mod qsize) * 8"

text \<open>Memory once the next entry of the ring names a head and the bytes written, and its index has moved.\<close>

definition used_put :: "u16 \<Rightarrow> u32 \<Rightarrow> u16 \<Rightarrow> u32 \<Rightarrow> (u32 \<Rightarrow> u8) \<Rightarrow> u32 \<Rightarrow> u8" where
  "used_put qsize u head len mem = (let i = mem16 mem (u + 2); e = used_entry qsize u i in
     put16 (u + 2) (i + 1) (put32 (e + 4) len (put32 e (ucast head) mem)))"

lemma used_setI: "k < used_bytes qsize \<Longrightarrow> u + of_nat k \<in> used_set qsize u"
  by (auto simp: used_set_def)

lemma used_okI:
  assumes "loadable u (used_bytes qsize)" "0x1000 < dram_offset u"
  shows "used_ok qsize u"
proof -
  have "TOHOST \<notin> used_set qsize u"
  proof
    assume "TOHOST \<in> used_set qsize u"
    then obtain i where "i < used_bytes qsize" and i: "TOHOST = u + of_nat i" by (auto simp: used_set_def)
    then have "dram_offset TOHOST = dram_offset u + i" using loadable_add(1) [OF assms(1)] unfolding i by blast
    then show False using assms(2) by (simp add: dram_offset_def TOHOST_def DRAM_BASE_def)
  qed
  then show ?thesis using assms(1) by (simp add: used_ok_def)
qed

lemma used_entry_at:
  assumes "qsize \<noteq> 0"
  obtains k where "used_entry qsize u i = u + of_nat k" "used_entry qsize u i + 4 = u + of_nat (k + 4)"
    "4 \<le> k" "k + 8 \<le> used_bytes qsize"
proof
  let ?j = "unat (i mod qsize)"
  have "?j < unat qsize" using assms by (simp add: unat_mod unat_gt_0)
  then show "4 \<le> 4 + ?j * 8" "4 + ?j * 8 + 8 \<le> used_bytes qsize" by (simp_all add: used_bytes_def)
  have "(ucast (i mod qsize) :: u32) = of_nat ?j" by (simp add: unsigned_ucast_eq word_unat_eq_iff)
  then show "used_entry qsize u i = u + of_nat (4 + ?j * 8)" by (simp add: used_entry_def add.assoc)
  then show "used_entry qsize u i + 4 = u + of_nat (4 + ?j * 8 + 4)" by (simp add: add.assoc)
qed

lemma used_in_memory:
  assumes "used_ok qsize u" "k + 4 \<le> used_bytes qsize"
  shows "in_memory (u + of_nat k)"
proof -
  have "loadable (u + of_nat k) 4" using loadable_part [of u "used_bytes qsize" k 4] assms by (simp add: used_ok_def)
  moreover have "u + of_nat k \<noteq> TOHOST" using used_setI [of k qsize u] assms by (auto simp: used_ok_def)
  ultimately show ?thesis by (simp add: in_memory_def loadable_def)
qed

lemma used_put_agree:
  assumes "qsize \<noteq> 0"
  shows "agree (used_set qsize u) (used_put qsize u head len mem) mem"
proof -
  let ?i = "mem16 mem (u + 2)"
  obtain k where k: "used_entry qsize u ?i = u + of_nat k" "used_entry qsize u ?i + 4 = u + of_nat (k + 4)"
      "k + 8 \<le> used_bytes qsize"
    using used_entry_at [OF assms, of u ?i] by metis
  have mem: "u + of_nat j + of_nat l \<in> used_set qsize u" if "j + l < used_bytes qsize" for j l
    using used_setI [OF that, of u] by (simp add: add.assoc)
  have 4: "agree (used_set qsize u) (put32 (u + of_nat j) v f) f" if "j + 4 \<le> used_bytes qsize" for j v f
    unfolding put32_def using that by (intro put_bytes_agree allI impI mem) simp
  have "agree (used_set qsize u) (put16 (u + of_nat 2) h f) f" for h f
    unfolding put16_def by (intro put_bytes_agree allI impI mem) (simp add: used_bytes_def)
  then have 2: "agree (used_set qsize u) (put16 (u + 2) h f) f" for h f by simp
  show ?thesis
    unfolding used_put_def Let_def unfolding k(2) unfolding k(1) using k(3)
    by (intro agree_trans [OF 2] agree_trans [OF 4] 4) simp_all
qed

lemma apart_used:
  assumes "loadable x n" "loadable u (used_bytes qsize)" "dram_offset u + used_bytes qsize \<le> dram_offset x"
  shows "apart (used_set qsize u) x n"
proof -
  have "x + of_nat i \<noteq> u + of_nat j" if "i < n" "j < used_bytes qsize" for i j
    using loadable_add(1) [OF assms(1) that(1)] loadable_add(1) [OF assms(2) that(2)] assms(3) that by fastforce
  then show ?thesis using assms(1) by (auto simp: apart_def used_set_def)
qed

subsection \<open>The accesses of a device to its queue\<close>

text \<open>Reading a descriptor and completing a chain, for a device that keeps its addresses in its state.\<close>

definition desc_reader :: "(Machine \<Rightarrow> u32) \<Rightarrow> u16 \<Rightarrow> (Machine, u64 \<times> u32 \<times> u16 \<times> u16) prog" where
  "desc_reader desc idx =
    bnd (reads desc) (\<lambda>base.
    let d = base + ucast idx * 16 in
    bnd (bus_read32 d) (\<lambda>addr_lo.
    bnd (bus_read32 (d + 4)) (\<lambda>addr_hi.
    bnd (bus_read32 (d + 8)) (\<lambda>len.
    bnd (bus_read16 (d + 12)) (\<lambda>flags.
    bnd (bus_read16 (d + 14)) (\<lambda>nxt.
    ret (ucast addr_lo OR push_bit 32 (ucast addr_hi), len, flags, nxt)))))))"

definition used_pusher ::
  "(Machine \<Rightarrow> u32) \<Rightarrow> u16 \<Rightarrow> (u32 \<Rightarrow> u32 \<Rightarrow> (Machine, unit) prog) \<Rightarrow> u16 \<Rightarrow> u32 \<Rightarrow> (Machine, unit) prog" where
  "used_pusher used qsize w32 head len =
    bnd (reads used) (\<lambda>used_addr.
    bnd (bus_read16 (used_addr + 2)) (\<lambda>uidx.
    let entry = used_addr + 4 + ucast (uidx mod qsize) * 8 in
    andthen (w32 entry (ucast head))
    (andthen (w32 (entry + 4) len)
    (bnd (reads used) (\<lambda>used_addr.
     bus_write16 (used_addr + 2) (uidx + 1))))))"

locale virtqueue =
  fixes desc :: "Machine \<Rightarrow> u32" and used :: "Machine \<Rightarrow> u32" and qsize :: u16
  assumes qsize: "qsize \<noteq> 0"
    and stores_keep: "loaded m mem n \<Longrightarrow> desc n = desc m \<and> used n = used m"
begin

lemma desc_run:
  assumes "desc_clear W (desc m) idx" "agree W (byte_at m) mem"
  shows "\<exists>a fl. desc_reader desc idx m = Ok (a, buf_len mem (desc m) idx, fl, buf_next mem (desc m) idx) m
    \<and> ucast a = buf_addr mem (desc m) idx \<and> (fl AND VIRTQ_DESC_F_NEXT = 0 \<longleftrightarrow> \<not> buf_more mem (desc m) idx)"
proof -
  let ?b = "desc m"
  have l: "loadable (desc_at ?b idx) 4" "loadable (desc_at ?b idx + 4) 4" "loadable (desc_at ?b idx + 8) 4"
      "loadable (desc_at ?b idx + 12) 2" "loadable (desc_at ?b idx + 14) 2"
    using desc_parts [OF assms(1)] by (simp_all add: apart_def)
  note same = buf_agree [OF assms(2,1), symmetric]
  show ?thesis
    unfolding same
    by (simp add: desc_reader_def prog_simps Let_def read_mem(2) [OF l(2)]
        read_mem(2) [OF l(1)] read_mem(2) [OF l(3)] read_mem(1) [OF l(4)] read_mem(1) [OF l(5)]
        buf_addr_def buf_len_def buf_more_def buf_next_def low_of_pair flip: desc_at_def)
qed

lemma used_run:
  assumes "used_ok qsize (used m)"
  shows "\<exists>n. used_pusher used qsize (bus_write32_at (Suc d)) head len m = Ok () n
    \<and> loaded m (used_put qsize (used m) head len (byte_at m)) n"
proof -
  let ?u = "used m" and ?i = "mem16 (byte_at m) (used m + 2)"
  have two: "loadable (?u + 2) 2"
    using loadable_part [of ?u "used_bytes qsize" 2 2] assms by (simp add: used_ok_def used_bytes_def)
  obtain k where k: "used_entry qsize ?u ?i = ?u + of_nat k" "used_entry qsize ?u ?i + 4 = ?u + of_nat (k + 4)"
      "k + 8 \<le> used_bytes qsize"
    using used_entry_at [OF qsize, of ?u ?i] by metis
  have e: "in_memory (used_entry qsize ?u ?i)" unfolding k(1) by (rule used_in_memory [OF assms]) (use k(3) in simp)
  have e4: "in_memory (used_entry qsize ?u ?i + 4)" unfolding k(2) by (rule used_in_memory [OF assms]) (use k(3) in simp)
  obtain t1 where t1: "bus_write32_at (Suc d) (used_entry qsize ?u ?i) (ucast head) m = Ok () t1"
      "loaded m (put32 (used_entry qsize ?u ?i) (ucast head) (byte_at m)) t1" using write_mem(2) [OF e] by blast
  obtain t2 where t2: "bus_write32_at (Suc d) (used_entry qsize ?u ?i + 4) len t1 = Ok () t2"
      "loaded t1 (put32 (used_entry qsize ?u ?i + 4) len (byte_at t1)) t2" using write_mem(2) [OF e4] by blast
  obtain t3 where t3: "bus_write16 (?u + 2) (?i + 1) t2 = Ok () t3" "loaded t2 (put16 (?u + 2) (?i + 1) (byte_at t2)) t3"
    using write_mem(1) [OF two] by blast
  have keep: "used t2 = ?u" using stores_keep [OF t1(2)] stores_keep [OF t2(2)] by simp
  have "used_pusher used qsize (bus_write32_at (Suc d)) head len m = Ok () t3"
    unfolding used_pusher_def Let_def used_entry_def [symmetric]
    by (simp only: bnd_def andthen_def reads_def result.case read_mem(1) [OF two] t1(1) t2(1) keep t3(1))
  moreover have "loaded m (used_put qsize ?u head len (byte_at m)) t3"
    using loaded_trans [OF loaded_trans [OF t1(2) t2(2)] t3(2)] loaded_same(3) [OF t1(2)] loaded_same(3) [OF t2(2)]
    by (simp add: used_put_def Let_def)
  ultimately show ?thesis by blast
qed

end

end
