(* ===== verification/Block.thy ===== *)
theory Block
  imports Virtqueue Ring
begin

section \<open>Disk requests\<close>

text \<open>
  What the block device does with its queue, as a function on the image and the contents of memory: each
  request that the driver has made available is carried out, in order, and completed in the used ring.
\<close>

unbundle bit_operations_syntax

interpretation blkq: virtqueue "\<lambda>m. vb_desc_addr (em_blk m)" "\<lambda>m. vb_used_addr (em_blk m)" BLK_QUEUE_SIZE
  by unfold_locales (auto simp: BLK_QUEUE_SIZE_def loaded_blk)

lemma blk_desc_reader: "blk_read_desc idx = desc_reader (\<lambda>m. vb_desc_addr (em_blk m)) idx"
  by (simp add: blk_read_desc_def desc_reader_def get_blk_def or.commute)

lemma blk_used_pusher:
  "blk_complete w32 head = used_pusher (\<lambda>m. vb_used_addr (em_blk m)) BLK_QUEUE_SIZE w32 head 0"
  by (simp add: blk_complete_def used_pusher_def get_blk_def)

lemmas blk_desc_run = blkq.desc_run [folded blk_desc_reader]
lemmas blk_complete_run = blkq.used_run [where len = 0, folded blk_used_pusher]

subsection \<open>The request of a chain\<close>

record BlkRequest =
  rq_type :: u32
  rq_sector :: u64
  rq_addr :: u32
  rq_len :: u32
  rq_status :: u32

definition request_at :: "(u32 \<Rightarrow> u8) \<Rightarrow> u32 \<Rightarrow> u16 \<Rightarrow> BlkRequest" where
  "request_at mem base head = (let h = buf_addr mem base head; d = buf_next mem base head; s = buf_next mem base d in
     \<lparr>rq_type = mem32 mem h,
      rq_sector = ucast (mem32 mem (h + 8)) OR push_bit 32 (ucast (mem32 mem (h + 12))),
      rq_addr = buf_addr mem base d, rq_len = buf_len mem base d, rq_status = buf_addr mem base s\<rparr>)"

text \<open>The three descriptors and the header lie apart from \<open>W\<close>.\<close>

definition chain_clear :: "u32 set \<Rightarrow> (u32 \<Rightarrow> u8) \<Rightarrow> u32 \<Rightarrow> u16 \<Rightarrow> bool" where
  "chain_clear W mem base head \<longleftrightarrow> desc_clear W base head \<and> apart W (buf_addr mem base head) 16
     \<and> desc_clear W base (buf_next mem base head)
     \<and> desc_clear W base (buf_next mem base (buf_next mem base head))"

text \<open>A request is carried out, and then its status byte is written.\<close>

definition carry_out :: "BlkRequest \<Rightarrow> (Machine, bool) prog" where
  "carry_out q = (if rq_type q = VIRTIO_BLK_T_IN then blk_transfer_in (rq_sector q) (rq_addr q) (rq_len q)
     else if rq_type q = VIRTIO_BLK_T_OUT then blk_transfer_out (rq_sector q) (rq_addr q) (rq_len q)
     else ret True)"

lemma handle_request_run:
  assumes "chain_clear W mem (vb_desc_addr (em_blk m)) head" "agree W (byte_at m) mem"
  shows "handle_request head m = bnd (carry_out (request_at mem (vb_desc_addr (em_blk m)) head))
    (\<lambda>ok. bus_write8 (rq_status (request_at mem (vb_desc_addr (em_blk m)) head)) (if ok then 0 else 1)) m"
proof -
  let ?b = "vb_desc_addr (em_blk m)"
  let ?h = "buf_addr mem ?b head" and ?d = "buf_next mem ?b head"
  have ok: "desc_clear W ?b head" "apart W ?h 16" "desc_clear W ?b ?d" "desc_clear W ?b (buf_next mem ?b ?d)"
    using assms(1) by (simp_all add: chain_clear_def)
  obtain a1 f1 a2 f2 a3 f3 where d: "blk_read_desc head m = Ok (a1, buf_len mem ?b head, f1, ?d) m" "ucast a1 = ?h"
      "blk_read_desc ?d m = Ok (a2, buf_len mem ?b ?d, f2, buf_next mem ?b ?d) m" "ucast a2 = buf_addr mem ?b ?d"
      "blk_read_desc (buf_next mem ?b ?d) m
        = Ok (a3, buf_len mem ?b (buf_next mem ?b ?d), f3, buf_next mem ?b (buf_next mem ?b ?d)) m"
      "ucast a3 = buf_addr mem ?b (buf_next mem ?b ?d)"
    using blk_desc_run [OF ok(1) assms(2)] blk_desc_run [OF ok(3) assms(2)] blk_desc_run [OF ok(4) assms(2)] by blast
  have p: "apart W ?h 4" "apart W (?h + 8) 4" "apart W (?h + 12) 4"
    using apart_part [OF ok(2), of 0 4] apart_part [OF ok(2), of 8 4] apart_part [OF ok(2), of 12 4] by simp_all
  have h: "bus_read32 x m = Ok (mem32 mem x) m" if "apart W x 4" for x
    using read_mem(2) [of x m] agree_words(2) [OF assms(2) that] that by (simp add: apart_def)
  show ?thesis
    by (simp add: handle_request_def bnd_def d h [OF p(1)] h [OF p(2)] h [OF p(3)] Let_def request_at_def carry_out_def
        split: result.split)
qed

subsection \<open>The effect of a request\<close>

text \<open>
  The state that requests work on: the image, whether its stream has failed, and memory. An image that is
  written past its end grows, with zeros in the gap.
\<close>

type_synonym DiskMem = "u8 list \<times> bool \<times> (u32 \<Rightarrow> u8)"

definition image_put :: "nat \<Rightarrow> u8 list \<Rightarrow> u8 list \<Rightarrow> u8 list" where
  "image_put pos bs d = (if bs = [] then d else
     map (\<lambda>i. if pos \<le> i \<and> i < pos + length bs then bs ! (i - pos) else if i < length d then d ! i else 0)
       [0..<max (length d) (pos + length bs)])"

text \<open>
  \<open>serve q\<close>: a read stores the bytes that the image has at 512 times the sector number, and succeeds when it has
  them all; a write stores the buffer there; other requests do nothing. The status byte is 0 on success and 1
  on failure. After a failure no request succeeds.
\<close>

definition serve :: "BlkRequest \<Rightarrow> DiskMem \<Rightarrow> DiskMem" where
  "serve q = (\<lambda>(d, failed, mem).
    let pos = rq_sector q * SECTOR_SIZE; len = unat (rq_len q);
        status = (\<lambda>ok f. f(rq_status q := if ok then 0 else 1)); stuck = failed \<or> bit pos 63 in
    if rq_type q = VIRTIO_BLK_T_IN then
      if stuck then (d, True, status False mem)
      else let bs = take len (drop (unat pos) d); ok = length bs = len in
        (d, \<not> ok, status ok (put_bytes (rq_addr q) bs mem))
    else if rq_type q = VIRTIO_BLK_T_OUT then
      if stuck then (d, True, status False mem)
      else (image_put (unat pos) (bytes_of mem (rq_addr q) len) d, failed, status True mem)
    else (d, failed, status True mem))"

definition disk_mem :: "Machine \<Rightarrow> DiskMem" where
  "disk_mem m = (dk_data (vb_disk (em_blk m)), dk_fail (vb_disk (em_blk m)), byte_at m)"

definition blk_regs :: "VirtioBlk \<Rightarrow> VirtioBlk" where
  "blk_regs b = b\<lparr>vb_disk := \<lparr>dk_open = False, dk_data = [], dk_fail = False\<rparr>\<rparr>"

lemma blk_regs_disk [simp]: "blk_regs (b\<lparr>vb_disk := d\<rparr>) = blk_regs b"
  by (simp add: blk_regs_def)

lemma blk_regs_eq:
  assumes "blk_regs b = blk_regs c"
  shows "vb_desc_addr b = vb_desc_addr c" "vb_avail_addr b = vb_avail_addr c" "vb_used_addr b = vb_used_addr c"
    "vb_last_avail_idx b = vb_last_avail_idx c" "vb_interrupt_status b = vb_interrupt_status c"
  using assms by (cases b; cases c; simp add: blk_regs_def)+

text \<open>A machine that differs from another in main memory, in the image and in what stores do to the processor.\<close>

definition served :: "Machine \<Rightarrow> DiskMem \<Rightarrow> Machine \<Rightarrow> bool" where
  "served m s n \<longleftrightarrow> disk_mem n = s \<and> em_net n = em_net m \<and> em_plic n = em_plic m
     \<and> cpu_core (em_cpu n) = cpu_core (em_cpu m)
     \<and> blk_regs (em_blk n) = blk_regs (em_blk m) \<and> dk_open (vb_disk (em_blk n)) = dk_open (vb_disk (em_blk m))"

lemma served_loaded:
  assumes "served m (d, f, mem) n" "loaded n mem' t"
  shows "served m (d, f, mem') t"
  using assms(1) loaded_same [OF assms(2)] by (simp add: served_def disk_mem_def)

lemma disk_write_put: "dk_data (disk_write pos bs d) = image_put pos bs (dk_data d)"
  "dk_fail (disk_write pos bs d) = dk_fail d" "dk_open (disk_write pos bs d) = dk_open d"
proof -
  show "dk_data (disk_write pos bs d) = image_put pos bs (dk_data d)"
  proof (cases "bs = []")
    case False
    let ?old = "dk_data d" and ?n = "length bs"
    let ?pre = "take pos (?old @ replicate (pos - length ?old) 0)"
    have pre: "length ?pre = pos" "i < pos \<Longrightarrow> ?pre ! i = (if i < length ?old then ?old ! i else 0)" for i
      by (auto simp: nth_append)
    have w: "dk_data (disk_write pos bs d) = ?pre @ bs @ drop (pos + ?n) ?old"
      using False by (simp add: disk_write_def)
    show ?thesis unfolding w
    proof (rule nth_equalityI)
      show len: "length (?pre @ bs @ drop (pos + ?n) ?old) = length (image_put pos bs ?old)"
        unfolding length_append pre(1) using False by (simp add: image_put_def max_def)
      fix i assume "i < length (?pre @ bs @ drop (pos + ?n) ?old)"
      then have "i < max (length ?old) (pos + ?n)" unfolding len using False by (simp add: image_put_def)
      then have put: "image_put pos bs ?old ! i = (if pos \<le> i \<and> i < pos + ?n then bs ! (i - pos)
          else if i < length ?old then ?old ! i else 0)" using False by (simp add: image_put_def)
      consider "i < pos" | "pos \<le> i" "i - pos < ?n" | "pos \<le> i" "\<not> i - pos < ?n" by linarith
      then show "(?pre @ bs @ drop (pos + ?n) ?old) ! i = image_put pos bs ?old ! i"
      proof cases
        case 1
        then have "(?pre @ bs @ drop (pos + ?n) ?old) ! i = ?pre ! i"
          by (simp only: nth_append [of ?pre] pre(1) if_True)
        then show ?thesis using 1 unfolding put pre(2) [OF 1] by simp
      next
        case 2
        then have "i < pos + ?n" by linarith
        then show ?thesis using 2 unfolding put nth_append pre(1) by simp
      next
        case 3
        then have "i < length ?old" "\<not> i < pos + ?n" using \<open>i < max (length ?old) (pos + ?n)\<close> by linarith+
        then show ?thesis using 3 unfolding put nth_append pre(1) by simp
      qed
    qed
  qed (simp add: disk_write_def image_put_def)
qed (simp_all add: disk_write_def)

text \<open>A request in main memory, which writes only to \<open>W\<close>.\<close>

definition rq_ok :: "u32 set \<Rightarrow> BlkRequest \<Rightarrow> bool" where
  "rq_ok W q \<longleftrightarrow> (rq_len q = 0 \<or> loadable (rq_addr q) (unat (rq_len q)))
     \<and> (rq_type q = VIRTIO_BLK_T_IN \<longrightarrow> (\<forall>i < unat (rq_len q). rq_addr q + of_nat i \<in> W))
     \<and> in_dram (rq_status q) \<and> rq_status q \<in> W"

lemma transfer_in_run:
  assumes "rq_ok W q" "dk_open (vb_disk (em_blk m))" "rq_type q = VIRTIO_BLK_T_IN"
  shows "\<exists>ok d f mem t. blk_transfer_in (rq_sector q) (rq_addr q) (rq_len q) m = Ok ok t \<and> served m (d, f, mem) t
    \<and> serve q (disk_mem m) = (d, f, mem(rq_status q := if ok then 0 else 1)) \<and> agree W mem (byte_at m)"
proof -
  let ?pos = "rq_sector q * SECTOR_SIZE" and ?len = "unat (rq_len q)" and ?disk = "vb_disk (em_blk m)"
  let ?set = "\<lambda>d. m\<lparr>em_blk := (em_blk m)\<lparr>vb_disk := d\<rparr>\<rparr>"
  have same: "byte_at (?set d) = byte_at m" for d by (simp add: fun_eq_iff byte_at_def dram_get_def)
  have seek: "upd_disk (disk_seek ?pos) m = Ok () (?set (?disk\<lparr>dk_fail := dk_fail ?disk \<or> bit ?pos 63\<rparr>))"
    using assms(2) by (simp add: upd_disk_def upd_blk_def updates_def disk_seek_def)
  show ?thesis
  proof (cases "dk_fail ?disk \<or> bit ?pos 63")
    case True
    then have "blk_transfer_in (rq_sector q) (rq_addr q) (rq_len q) m = Ok False (?set (?disk\<lparr>dk_fail := True\<rparr>))"
      using seek by (simp add: blk_transfer_in_def prog_simps Let_def disk_failed_def get_blk_def)
    moreover have "served m (dk_data ?disk, True, byte_at m) (?set (?disk\<lparr>dk_fail := True\<rparr>))"
      by (auto simp: served_def disk_mem_def same)
    ultimately show ?thesis using True assms(3) agree_refl by (simp add: serve_def disk_mem_def Let_def) blast
  next
    case False
    let ?bs = "take ?len (drop (unat ?pos) (dk_data ?disk))"
    let ?m = "?set (?disk\<lparr>dk_fail := length ?bs < ?len\<rparr>)"
    have "?bs = [] \<or> loadable (rq_addr q) (length ?bs)"
    proof (cases "?bs = []")
      case False
      then have "0 < length ?bs" "length ?bs \<le> ?len" by simp_all
      moreover from this have "loadable (rq_addr q) ?len" using assms(1) by (auto simp: rq_ok_def)
      ultimately show ?thesis using loadable_part [of "rq_addr q" ?len 0 "length ?bs"] by simp
    qed simp
    from dma_run [OF this, of ?m] obtain t where t: "dma_to_dram (rq_addr q) ?bs ?m = Ok () t"
        "loaded ?m (put_bytes (rq_addr q) ?bs (byte_at m)) t" unfolding same by blast
    have "\<forall>i < length ?bs. rq_addr q + of_nat i \<in> W" using assms(1,3) by (auto simp: rq_ok_def)
    then have agr: "agree W (put_bytes (rq_addr q) ?bs (byte_at m)) (byte_at m)" by (rule put_bytes_agree)
    have ok: "\<not> length ?bs < ?len \<longleftrightarrow> length ?bs = ?len" by auto
    have "?set (?disk\<lparr>dk_fail := dk_fail ?disk \<or> bit ?pos 63\<rparr>) = m" using False by simp
    then have "blk_transfer_in (rq_sector q) (rq_addr q) (rq_len q) m = Ok (\<not> length ?bs < ?len) t"
      using False seek t(1) loaded_blk [OF t(2)]
      by (simp add: blk_transfer_in_def prog_simps Let_def disk_failed_def get_blk_def disk_read_into_def state_blk_def
          disk_read_def)
    moreover have "served m (dk_data ?disk, length ?bs < ?len, put_bytes (rq_addr q) ?bs (byte_at m)) t"
      using loaded_same [OF t(2)] by (auto simp: served_def disk_mem_def)
    moreover have "serve q (disk_mem m) = (dk_data ?disk, length ?bs < ?len,
        (put_bytes (rq_addr q) ?bs (byte_at m))(rq_status q := if \<not> length ?bs < ?len then 0 else 1))"
      using False assms(3) unfolding ok by (simp add: serve_def disk_mem_def Let_def) linarith
    ultimately show ?thesis using agr by blast
  qed
qed

lemma transfer_out_run:
  assumes "rq_ok W q" "dk_open (vb_disk (em_blk m))" "rq_type q = VIRTIO_BLK_T_OUT"
  shows "\<exists>ok d f mem t. blk_transfer_out (rq_sector q) (rq_addr q) (rq_len q) m = Ok ok t \<and> served m (d, f, mem) t
    \<and> serve q (disk_mem m) = (d, f, mem(rq_status q := if ok then 0 else 1)) \<and> agree W mem (byte_at m)"
proof -
  let ?pos = "rq_sector q * SECTOR_SIZE" and ?len = "unat (rq_len q)" and ?disk = "vb_disk (em_blk m)"
  let ?bs = "bytes_of (byte_at m) (rq_addr q) ?len" and ?set = "\<lambda>d. m\<lparr>em_blk := (em_blk m)\<lparr>vb_disk := d\<rparr>\<rparr>"
  have same: "byte_at (?set d) = byte_at m" for d by (simp add: fun_eq_iff byte_at_def dram_get_def)
  have type: "rq_type q \<noteq> VIRTIO_BLK_T_IN" using assms(3) by (simp add: VIRTIO_BLK_T_IN_def VIRTIO_BLK_T_OUT_def)
  have read: "bus_read_bytes (rq_addr q) ?len m = Ok ?bs m"
    using assms(1) by (intro read_bytes_of) (auto simp: rq_ok_def)
  have seek: "upd_disk (disk_seek ?pos) m = Ok () (?set (?disk\<lparr>dk_fail := dk_fail ?disk \<or> bit ?pos 63\<rparr>))"
    using assms(2) by (simp add: upd_disk_def upd_blk_def updates_def disk_seek_def)
  show ?thesis
  proof (cases "dk_fail ?disk \<or> bit ?pos 63")
    case True
    then have "blk_transfer_out (rq_sector q) (rq_addr q) (rq_len q) m = Ok False (?set (?disk\<lparr>dk_fail := True\<rparr>))"
      using seek read by (simp add: blk_transfer_out_def prog_simps Let_def disk_failed_def get_blk_def)
    moreover have "served m (dk_data ?disk, True, byte_at m) (?set (?disk\<lparr>dk_fail := True\<rparr>))"
      by (auto simp: served_def disk_mem_def same)
    ultimately show ?thesis using True assms(3) type agree_refl by (simp add: serve_def disk_mem_def Let_def) blast
  next
    case False
    let ?t = "?set (disk_write (unat ?pos) ?bs ?disk)"
    have "?set (?disk\<lparr>dk_fail := dk_fail ?disk \<or> bit ?pos 63\<rparr>) = m" using False by simp
    then have seek: "upd_disk (disk_seek ?pos) m = Ok () m" using seek by simp
    have "upd_disk (disk_write (unat ?pos) ?bs) m = Ok () ?t"
      by (simp add: upd_disk_def upd_blk_def updates_def)
    then have "blk_transfer_out (rq_sector q) (rq_addr q) (rq_len q) m = Ok True ?t"
      using False seek read
      by (simp add: blk_transfer_out_def prog_simps Let_def disk_failed_def get_blk_def)
    moreover have "served m (image_put (unat ?pos) ?bs (dk_data ?disk), dk_fail ?disk, byte_at m) ?t"
      by (auto simp: served_def disk_mem_def same disk_write_put)
    moreover have "serve q (disk_mem m) = (image_put (unat ?pos) ?bs (dk_data ?disk), dk_fail ?disk,
        (byte_at m)(rq_status q := if True then 0 else 1))"
      using False assms(3) type by (simp add: serve_def disk_mem_def Let_def)
    ultimately show ?thesis using agree_refl by blast
  qed
qed

lemma handle_request_serves:
  assumes clear: "chain_clear W mem (vb_desc_addr (em_blk m)) head" and agr: "agree W (byte_at m) mem"
    and q: "q = request_at mem (vb_desc_addr (em_blk m)) head" and ok: "rq_ok W q"
    and "open": "dk_open (vb_disk (em_blk m))"
  shows "\<exists>n. handle_request head m = Ok () n \<and> served m (serve q (disk_mem m)) n \<and> agree W (byte_at n) (byte_at m)"
proof -
  obtain ok d f mem' t where t: "carry_out q m = Ok ok t" "served m (d, f, mem') t"
      "serve q (disk_mem m) = (d, f, mem'(rq_status q := if ok then 0 else 1))" "agree W mem' (byte_at m)"
  proof -
    consider "rq_type q = VIRTIO_BLK_T_IN" | "rq_type q \<noteq> VIRTIO_BLK_T_IN" "rq_type q = VIRTIO_BLK_T_OUT"
      | "rq_type q \<noteq> VIRTIO_BLK_T_IN" "rq_type q \<noteq> VIRTIO_BLK_T_OUT" by blast
    then show thesis
    proof cases
      case 1
      then show thesis using transfer_in_run [OF ok "open"] that by (auto simp: carry_out_def)
    next
      case 2
      then show thesis using transfer_out_run [OF ok "open"] that by (auto simp: carry_out_def)
    next
      case 3
      have "served m (disk_mem m) m" by (simp add: served_def)
      then show thesis using 3 agree_refl that [of True m]
        by (simp add: carry_out_def serve_def disk_mem_def ret_def Let_def)
    qed
  qed
  let ?v = "if ok then 0 else 1 :: u8"
  have status: "in_dram (rq_status q)" "rq_status q \<in> W" using ok by (simp_all add: rq_ok_def)
  obtain n where n: "bus_write8 (rq_status q) ?v t = Ok () n" "loaded t ((byte_at t)(rq_status q := ?v)) n"
    using write_byte_run [OF status(1)] by blast
  have mem: "byte_at t = mem'" using t(2) by (simp add: served_def disk_mem_def)
  have "handle_request head m = Ok () n"
    unfolding handle_request_run [OF clear agr, folded q] using t(1) n(1) by (simp add: bnd_def)
  moreover have "served m (serve q (disk_mem m)) n"
    unfolding t(3) using served_loaded [OF t(2) n(2)] mem by simp
  moreover have "agree W (byte_at n) (byte_at m)"
    unfolding loaded_same(3) [OF n(2)] mem using t(4) status(2) by (auto simp: agree_def)
  ultimately show ?thesis by blast
qed

subsection \<open>The queue\<close>

text \<open>
  Serving one position of the available ring, whose request is read from \<open>mem0\<close>: the request, then
  the used ring.
\<close>

definition blk_request :: "VirtioBlk \<Rightarrow> (u32 \<Rightarrow> u8) \<Rightarrow> u16 \<Rightarrow> BlkRequest" where
  "blk_request b mem0 p = request_at mem0 (vb_desc_addr b) (slot_head BLK_QUEUE_SIZE mem0 (vb_avail_addr b) p)"

definition serve_slot :: "VirtioBlk \<Rightarrow> (u32 \<Rightarrow> u8) \<Rightarrow> u16 \<Rightarrow> DiskMem \<Rightarrow> DiskMem" where
  "serve_slot b mem0 p s = (case serve (blk_request b mem0 p) s of
     (d, f, mem) \<Rightarrow> (d, f, used_put BLK_QUEUE_SIZE (vb_used_addr b) (slot_head BLK_QUEUE_SIZE mem0 (vb_avail_addr b) p) 0 mem))"

text \<open>What the device reads to find a request lies apart from all it writes.\<close>

definition blk_slot_ok :: "u32 set \<Rightarrow> VirtioBlk \<Rightarrow> (u32 \<Rightarrow> u8) \<Rightarrow> u16 \<Rightarrow> bool" where
  "blk_slot_ok W b mem0 p \<longleftrightarrow> apart W (slot_addr BLK_QUEUE_SIZE (vb_avail_addr b) p) 2
     \<and> chain_clear W mem0 (vb_desc_addr b) (slot_head BLK_QUEUE_SIZE mem0 (vb_avail_addr b) p)
     \<and> rq_ok W (blk_request b mem0 p)"

lemma served_trans: "served m s n \<Longrightarrow> served n s' t \<Longrightarrow> served m s' t"
  by (simp add: served_def)

lemma round_serves:
  assumes b: "b = em_blk m" and slot: "blk_slot_ok W b mem0 (vb_last_avail_idx b)" and agr: "agree W (byte_at m) mem0"
    and used: "used_ok BLK_QUEUE_SIZE (vb_used_addr b)" "used_set BLK_QUEUE_SIZE (vb_used_addr b) \<subseteq> W"
    and "open": "dk_open (vb_disk b)"
  shows "\<exists>t. blk_round (bus_write32_at (Suc d)) m = Ok () t
    \<and> disk_mem t = serve_slot b mem0 (vb_last_avail_idx b) (disk_mem m) \<and> agree W (byte_at t) mem0
    \<and> em_plic t = em_plic m \<and> dk_open (vb_disk (em_blk t))
    \<and> blk_regs (em_blk t) = blk_regs (b\<lparr>vb_last_avail_idx := vb_last_avail_idx b + 1\<rparr>)"
proof -
  let ?l = "vb_last_avail_idx b" and ?u = "vb_used_addr b"
  let ?head = "slot_head BLK_QUEUE_SIZE mem0 (vb_avail_addr b) ?l"
  have ok: "apart W (slot_addr BLK_QUEUE_SIZE (vb_avail_addr b) ?l) 2" "chain_clear W mem0 (vb_desc_addr b) ?head"
      "rq_ok W (blk_request b mem0 ?l)" using slot by (simp_all add: blk_slot_ok_def)
  have head: "bus_read16 (slot_addr BLK_QUEUE_SIZE (vb_avail_addr b) ?l) m = Ok ?head m"
    using read_mem(1) ok(1) agree_words(1) [OF agr ok(1)] by (simp add: apart_def slot_head_def)
  obtain n where n: "handle_request ?head m = Ok () n" "served m (serve (blk_request b mem0 ?l) (disk_mem m)) n"
      "agree W (byte_at n) (byte_at m)"
    using handle_request_serves [OF ok(2) [unfolded b] agr _ ok(3) [unfolded b blk_request_def]] "open" b
    by (auto simp: blk_request_def)
  have regs: "blk_regs (em_blk n) = blk_regs b" and n_open: "dk_open (vb_disk (em_blk n))"
    using n(2) b "open" by (simp_all add: served_def)
  obtain t1 where t1: "blk_complete (bus_write32_at (Suc d)) ?head n = Ok () t1"
      "loaded n (used_put BLK_QUEUE_SIZE ?u ?head 0 (byte_at n)) t1"
    using blk_complete_run [of n d ?head] used(1) blk_regs_eq(3) [OF regs] by auto
  obtain d' f' mem' where s: "serve (blk_request b mem0 ?l) (disk_mem m) = (d', f', mem')" by (metis prod_cases3)
  let ?t = "t1\<lparr>em_blk := (em_blk t1)\<lparr>vb_last_avail_idx := vb_last_avail_idx (em_blk t1) + 1\<rparr>\<rparr>"
  have "blk_round (bus_write32_at (Suc d)) m = Ok () ?t"
    using head n(1) t1(1) b unfolding slot_addr_def
    by (simp add: blk_round_def bnd_def andthen_def get_blk_def reads_def upd_blk_def updates_def)
  moreover have sv: "served m (d', f', used_put BLK_QUEUE_SIZE ?u ?head 0 (byte_at n)) t1"
    using served_loaded [OF n(2) [unfolded s] t1(2)] .
  moreover have mem: "byte_at ?t = byte_at t1" by (simp add: fun_eq_iff byte_at_def dram_get_def)
  moreover have "byte_at n = mem'" using n(2) s by (simp add: served_def disk_mem_def)
  ultimately have "disk_mem ?t = serve_slot b mem0 ?l (disk_mem m)"
    by (simp add: served_def disk_mem_def serve_slot_def s [unfolded disk_mem_def])
  moreover have "agree W (byte_at ?t) mem0"
  proof -
    have "agree (used_set BLK_QUEUE_SIZE ?u) (byte_at t1) (byte_at n)"
      unfolding loaded_same(3) [OF t1(2)] by (rule used_put_agree [OF blkq.qsize])
    then have "agree W (byte_at t1) (byte_at n)" using used(2) by (auto simp: agree_def)
    then show ?thesis unfolding mem using n(3) agr by (metis agree_trans)
  qed
  moreover have "blk_regs (em_blk ?t) = blk_regs (b\<lparr>vb_last_avail_idx := ?l + 1\<rparr>)"
    using loaded_blk [OF t1(2)] regs blk_regs_eq(4) [OF regs] by (cases b; cases "em_blk n"; simp add: blk_regs_def)
  moreover have "em_plic ?t = em_plic m" "dk_open (vb_disk (em_blk ?t))"
    using sv b "open" by (simp_all add: served_def)
  ultimately show ?thesis using \<open>blk_round (bus_write32_at (Suc d)) m = Ok () ?t\<close> by blast
qed

text \<open>The rest of the queue sees the same addresses.\<close>

lemma slots_regs:
  assumes "vb_desc_addr b = vb_desc_addr c" "vb_avail_addr b = vb_avail_addr c" "vb_used_addr b = vb_used_addr c"
  shows "blk_slot_ok W b = blk_slot_ok W c" "serve_slot b = serve_slot c"
  using assms by (simp_all add: fun_eq_iff blk_slot_ok_def serve_slot_def blk_request_def)

lemma loop_serves:
  assumes "b = em_blk m" "unat (i - vb_last_avail_idx b) < n" "agree W (byte_at m) mem0"
    and "list_all (blk_slot_ok W b mem0) (pending (vb_last_avail_idx b) i)"
    and "used_ok BLK_QUEUE_SIZE (vb_used_addr b)" "used_set BLK_QUEUE_SIZE (vb_used_addr b) \<subseteq> W"
    and "dk_open (vb_disk b)"
  shows "\<exists>t. blk_loop n (bus_write32_at (Suc d)) i m = Ok () t
    \<and> disk_mem t = fold (serve_slot b mem0) (pending (vb_last_avail_idx b) i) (disk_mem m)
    \<and> em_plic t = em_plic m \<and> vb_last_avail_idx (em_blk t) = i"
  using assms
proof (induction n arbitrary: m b)
  case (Suc n)
  let ?l = "vb_last_avail_idx b"
  note b = Suc.prems(1)
  show ?case
  proof (cases "?l = i")
    case True
    then show ?thesis using b by (simp add: bnd_def get_blk_def reads_def ret_def pending_def)
  next
    case False
    note pend = pending_Cons [OF False]
    have slot: "blk_slot_ok W b mem0 ?l" using Suc.prems(4) unfolding pend(1) by simp
    obtain t where t: "blk_round (bus_write32_at (Suc d)) m = Ok () t" "disk_mem t = serve_slot b mem0 ?l (disk_mem m)"
        "agree W (byte_at t) mem0" "em_plic t = em_plic m" "dk_open (vb_disk (em_blk t))"
        "blk_regs (em_blk t) = blk_regs (b\<lparr>vb_last_avail_idx := ?l + 1\<rparr>)"
      using round_serves [OF b slot Suc.prems(3,5,6,7)] by blast
    note regs = blk_regs_eq [OF t(6), simplified]
    note same = slots_regs [OF regs(1,2,3)]
    have rest: "list_all (blk_slot_ok W b mem0) (pending (?l + 1) i)" "unat (i - (?l + 1)) < n"
      using Suc.prems(2,4) pend(2) unfolding pend(1) by simp_all
    have "\<exists>u. blk_loop n (bus_write32_at (Suc d)) i t = Ok () u
        \<and> disk_mem u = fold (serve_slot (em_blk t) mem0) (pending (vb_last_avail_idx (em_blk t)) i) (disk_mem t)
        \<and> em_plic u = em_plic t \<and> vb_last_avail_idx (em_blk u) = i"
      using Suc.prems(5,6) rest t(3,5) by (intro Suc.IH refl) (simp_all add: regs same)
    then show ?thesis
      using False b t(1,2,4) unfolding regs same pend(1)
      by (simp add: bnd_def andthen_def get_blk_def reads_def del: bus_write32_at.simps)
  qed
qed simp

text \<open>
  C10. A notification of the block device carries out every request that the driver has made available, in the
  order of the ring and nothing else: image, failure bit and memory become what serving the requests one after
  the other makes of them - reads copy the image into their buffers, writes their buffers into the image, each
  with its status byte and its entry in the used ring - and the interrupt is raised.
\<close>

theorem blk_requests_served:
  assumes b: "b = em_blk m" and "\<not> blk_idle b" and "dk_open (vb_disk b)"
    and "used_ok BLK_QUEUE_SIZE (vb_used_addr b)" "used_set BLK_QUEUE_SIZE (vb_used_addr b) \<subseteq> W"
    and avail: "loadable (vb_avail_addr b + 2) 2"
    and ps: "ps = pending (vb_last_avail_idx b) (mem16 (byte_at m) (vb_avail_addr b + 2))"
    and ok: "list_all (blk_slot_ok W b (byte_at m)) ps"
  shows "\<exists>t. bus_write32 (BLK_BASE + VIRTIO_QUEUE_NOTIFY) v m = Ok () t
    \<and> disk_mem t = fold (serve_slot b (byte_at m)) ps (disk_mem m)
    \<and> vb_last_avail_idx (em_blk t) = mem16 (byte_at m) (vb_avail_addr b + 2)
    \<and> bit (vb_interrupt_status (em_blk t)) 0 \<and> bit (pl_pending (em_plic t)) 1"
proof -
  define w where "w = bus_write32_at (Suc 6)"
  let ?i = "mem16 (byte_at m) (vb_avail_addr b + 2)"
  have run: "bus_write32 (BLK_BASE + VIRTIO_QUEUE_NOTIFY) v m = blk_process_queue w m"
    unfolding bus_write32_def BUS_DEPTH_def using notify_write [of 7] by (simp add: w_def)
  obtain t where t: "blk_loop RING_FUEL w ?i m = Ok () t" "disk_mem t = fold (serve_slot b (byte_at m)) ps (disk_mem m)"
      "em_plic t = em_plic m" "vb_last_avail_idx (em_blk t) = ?i"
    using loop_serves [OF b ring_fuel agree_refl, of W ?i 6] assms(3-5) ok unfolding ps w_def by blast
  have "blk_process_queue w m = andthen (upd_blk (\<lambda>b. b\<lparr>vb_interrupt_status := vb_interrupt_status b OR 0x1\<rparr>))
      (raise_irq BLK_IRQ) t"
    using assms(2) b read_mem(1) [OF avail, of m] t(1)
    by (simp add: blk_process_queue_def bnd_def andthen_def get_blk_def reads_def blk_idle_def)
  then show ?thesis
    using t unfolding run
    by (simp add: upd_blk_def raise_irq_def prog_simps set_pending_def BLK_IRQ_def NUM_SOURCES_def bit_or_iff
        disk_mem_def)
qed

text \<open>A write of four bytes past the end of an image of two, and then a read of them.\<close>

definition blk_demo_dram :: "nat \<Rightarrow> u8" where
  "blk_demo_dram = (\<lambda>_. 0)(0x3002 := 2, 0x3006 := 3,
       0x4001 := 0x50, 0x4003 := 0x80, 0x400E := 1, 0x4011 := 0x60, 0x4013 := 0x80, 0x4018 := 4, 0x401E := 2,
       0x4021 := 0x70, 0x4023 := 0x80,
       0x4031 := 0x51, 0x4033 := 0x80, 0x403E := 4, 0x4041 := 0x68, 0x4043 := 0x80, 0x4048 := 4, 0x404E := 2,
       0x5000 := 1, 0x6000 := 11, 0x6001 := 12, 0x6002 := 13, 0x6003 := 14)"

definition blk_demo :: Machine where
  "blk_demo = demo\<lparr>em_dram := blk_demo_dram, em_blk := (em_blk demo)\<lparr>vb_queue_ready := 1, vb_desc_addr := 0x80004000, vb_avail_addr := 0x80003000,
       vb_used_addr := 0x80002000, vb_disk := \<lparr>dk_open = True, dk_data = [1, 2], dk_fail = False\<rparr>\<rparr>\<rparr>"

lemma blk_demo_mem:
  "byte_at blk_demo x = blk_demo_dram (dram_offset x)"
  by (simp add: byte_at_def dram_get_def blk_demo_def)

lemma blk_demo_words:
  "mem16 (byte_at blk_demo) 0x80003002 = 2" "mem16 (byte_at blk_demo) 0x80003004 = 0" "mem16 (byte_at blk_demo) 0x80003006 = 3"
  "mem32 (byte_at blk_demo) 0x80005000 = 1" "mem32 (byte_at blk_demo) 0x80005008 = 0" "mem32 (byte_at blk_demo) 0x8000500C = 0"
  "mem32 (byte_at blk_demo) 0x80005100 = 0" "mem32 (byte_at blk_demo) 0x80005108 = 0" "mem32 (byte_at blk_demo) 0x8000510C = 0"
  "bytes_of (byte_at blk_demo) 0x80006000 4 = [11, 12, 13, 14]"
  by (simp_all add: mem16_def mem32_def bytes_of_def upt_rec blk_demo_mem dram_offset_def DRAM_BASE_def le16_def le32_def
      blk_demo_dram_def)

lemma blk_demo_descs:
  "buf_addr (byte_at blk_demo) 0x80004000 0 = 0x80005000" "buf_next (byte_at blk_demo) 0x80004000 0 = 1"
  "buf_addr (byte_at blk_demo) 0x80004000 1 = 0x80006000" "buf_len (byte_at blk_demo) 0x80004000 1 = 4"
  "buf_next (byte_at blk_demo) 0x80004000 1 = 2" "buf_addr (byte_at blk_demo) 0x80004000 2 = 0x80007000"
  "buf_addr (byte_at blk_demo) 0x80004000 3 = 0x80005100" "buf_next (byte_at blk_demo) 0x80004000 3 = 4"
  "buf_addr (byte_at blk_demo) 0x80004000 4 = 0x80006800" "buf_len (byte_at blk_demo) 0x80004000 4 = 4"
  "buf_next (byte_at blk_demo) 0x80004000 4 = 2"
  by (simp_all add: buf_addr_def buf_len_def buf_next_def desc_at_def mem16_def mem32_def blk_demo_mem
      dram_offset_def DRAM_BASE_def le16_def le32_def blk_demo_dram_def)

lemma blk_demo_regs:
  "vb_desc_addr (em_blk blk_demo) = 0x80004000" "vb_avail_addr (em_blk blk_demo) = 0x80003000"
  "vb_used_addr (em_blk blk_demo) = 0x80002000" "vb_last_avail_idx (em_blk blk_demo) = 0" "\<not> blk_idle (em_blk blk_demo)"
  "vb_disk (em_blk blk_demo) = \<lparr>dk_open = True, dk_data = [1, 2], dk_fail = False\<rparr>"
  by (simp_all add: blk_demo_def demo_defs VirtioBlk0_def blk_idle_def)

definition demo_written :: "u32 set" where
  "demo_written = used_set BLK_QUEUE_SIZE 0x80002000 \<union> {0x80006800, 0x80006801, 0x80006802, 0x80006803, 0x80007000}"

lemma demo_apart:
  assumes "loadable x n" "0x3000 \<le> dram_offset x" "dram_offset x + n \<le> 0x6800"
  shows "apart demo_written x n"
proof -
  have "apart (used_set BLK_QUEUE_SIZE 0x80002000) x n"
    using assms by (intro apart_used) (simp_all add: loadable_def dram_fits_def region_defs used_bytes_def BLK_QUEUE_SIZE_def
        dram_offset_def)
  moreover have "apart {0x80006800, 0x80006801, 0x80006802, 0x80006803, 0x80007000} x n"
    using assms by (intro apart_below) (simp_all add: dram_offset_def DRAM_BASE_def)
  ultimately show ?thesis by (simp add: apart_def demo_written_def)
qed

lemma blk_demo_requests:
  "blk_request (em_blk blk_demo) (byte_at blk_demo) 0
    = \<lparr>rq_type = 1, rq_sector = 0, rq_addr = 0x80006000, rq_len = 4, rq_status = 0x80007000\<rparr>"
  "blk_request (em_blk blk_demo) (byte_at blk_demo) 1
    = \<lparr>rq_type = 0, rq_sector = 0, rq_addr = 0x80006800, rq_len = 4, rq_status = 0x80007000\<rparr>"
  by (simp_all add: blk_request_def request_at_def slot_head_def slot_addr_def BLK_QUEUE_SIZE_def blk_demo_regs
      blk_demo_words blk_demo_descs)

lemma blk_demo_slots:
  "blk_slot_ok demo_written (em_blk blk_demo) (byte_at blk_demo) 0"
  "blk_slot_ok demo_written (em_blk blk_demo) (byte_at blk_demo) 1"
proof -
  have heads: "slot_head BLK_QUEUE_SIZE (byte_at blk_demo) 0x80003000 0 = 0"
      "slot_head BLK_QUEUE_SIZE (byte_at blk_demo) 0x80003000 1 = 3"
    by (simp_all add: slot_head_def slot_addr_def BLK_QUEUE_SIZE_def blk_demo_words)
  have status: "0x80007000 \<in> demo_written" by (simp add: demo_written_def)
  have "0x80006800 + of_nat i \<in> demo_written" if "i < 4" for i
  proof -
    have "i = 0 \<or> i = 1 \<or> i = 2 \<or> i = 3" using that by auto
    then show ?thesis by (auto simp: demo_written_def)
  qed
  then show "blk_slot_ok demo_written (em_blk blk_demo) (byte_at blk_demo) 0"
    "blk_slot_ok demo_written (em_blk blk_demo) (byte_at blk_demo) 1"
    unfolding blk_slot_ok_def chain_clear_def blk_demo_requests blk_demo_regs heads blk_demo_descs
    using status
    by (auto simp: slot_addr_def BLK_QUEUE_SIZE_def desc_clear_def desc_at_def rq_ok_def VIRTIO_BLK_T_IN_def
        loadable_def dram_fits_def dram_offset_def region_defs intro!: demo_apart)
qed

lemma blk_demo_served:
  "\<exists>f. fold (serve_slot (em_blk blk_demo) (byte_at blk_demo)) [0, 1] (disk_mem blk_demo) = ([11, 12, 13, 14], False, f)
     \<and> f 0x80006803 = 14 \<and> f 0x80007000 = 0"
proof -
  let ?u = "used_put BLK_QUEUE_SIZE 0x80002000"
  have put: "image_put 0 [11, 12, 13, 14] [1, 2] = [11, 12, 13, 14 :: u8]"
    by (simp add: image_put_def upt_rec)
  have off: "?u h l f y = f y" if "y \<notin> used_set BLK_QUEUE_SIZE 0x80002000" for h l f y
    using used_put_agree [OF blkq.qsize] that unfolding agree_def by blast
  have out: "0x80006803 \<notin> used_set BLK_QUEUE_SIZE 0x80002000" "0x80007000 \<notin> used_set BLK_QUEUE_SIZE 0x80002000"
    using apart_used [of "0x80006803" 1 "0x80002000" BLK_QUEUE_SIZE] apart_used [of "0x80007000" 1 "0x80002000" BLK_QUEUE_SIZE]
    by (simp_all add: apart_def loadable_def dram_fits_def region_defs used_bytes_def BLK_QUEUE_SIZE_def dram_offset_def)
  show ?thesis
    by (simp add: serve_slot_def blk_demo_requests serve_def disk_mem_def blk_demo_regs VIRTIO_BLK_T_IN_def
        VIRTIO_BLK_T_OUT_def blk_demo_words put Let_def off [OF out(1)] off [OF out(2)])
qed

theorem blk_requests_served_witness:
  "\<exists>t. bus_write32 (BLK_BASE + VIRTIO_QUEUE_NOTIFY) 0 blk_demo = Ok () t
     \<and> dk_data (vb_disk (em_blk t)) = [11, 12, 13, 14] \<and> byte_at t 0x80006803 = 14 \<and> byte_at t 0x80007000 = 0
     \<and> bit (pl_pending (em_plic t)) 1"
proof -
  let ?b = "em_blk blk_demo"
  have ps: "pending 0 2 = [0, 1]" by (simp add: pending_def upt_rec)
  have ok: "used_ok BLK_QUEUE_SIZE 0x80002000" "loadable 0x80003002 2"
      "used_set BLK_QUEUE_SIZE 0x80002000 \<subseteq> demo_written"
    by (auto simp: used_okI loadable_def dram_fits_def dram_offset_def region_defs used_bytes_def BLK_QUEUE_SIZE_def
        demo_written_def)
  obtain t where t: "bus_write32 (BLK_BASE + VIRTIO_QUEUE_NOTIFY) 0 blk_demo = Ok () t"
      "disk_mem t = fold (serve_slot ?b (byte_at blk_demo)) [0, 1] (disk_mem blk_demo)" "bit (pl_pending (em_plic t)) 1"
    using blk_requests_served [where m = blk_demo and W = demo_written and ps = "[0, 1]" and v = 0, OF refl] ok ps blk_demo_slots
    by (auto simp: blk_demo_regs blk_demo_words)
  then show ?thesis using blk_demo_served by (auto simp: disk_mem_def)
qed

end
