(* ===== verification/Images.thy ===== *)
theory Images
  imports Bytes Loader
begin

section \<open>Executables\<close>

text \<open>
  What the ELF loader of src/elf/elf.cpp makes of a file: the segments a file describes, the memory
  that has them in place, and the proof that \<open>load_elf\<close> produces it.
\<close>

unbundle bit_operations_syntax

subsection \<open>The segments of a file\<close>

record Segment =
  sg_type :: u32
  sg_offset :: u32
  sg_paddr :: u32
  sg_filesz :: u32
  sg_memsz :: u32

definition file16 :: "u8 list \<Rightarrow> nat \<Rightarrow> u16" where
  "file16 file i = le16 (file ! i) (file ! (i + 1))"

definition file32 :: "u8 list \<Rightarrow> nat \<Rightarrow> u32" where
  "file32 file i = le32 (file ! i) (file ! (i + 1)) (file ! (i + 2)) (file ! (i + 3))"

definition elf_table :: "u8 list \<Rightarrow> nat" where
  "elf_table file = unat (file32 file 28)"

definition elf_count :: "u8 list \<Rightarrow> nat" where
  "elf_count file = unat (file16 file 44)"

definition segment_at :: "u8 list \<Rightarrow> nat \<Rightarrow> Segment" where
  "segment_at file p = \<lparr>sg_type = file32 file p, sg_offset = file32 file (p + 4),
     sg_paddr = file32 file (p + 12), sg_filesz = file32 file (p + 16), sg_memsz = file32 file (p + 20)\<rparr>"

definition elf_segments :: "u8 list \<Rightarrow> Segment list" where
  "elf_segments file = map (\<lambda>i. segment_at file (elf_table file + 32 * i)) [0..<elf_count file]"

text \<open>The memory with a segment in place, and with all of them: a later one covers an earlier one.\<close>

definition place :: "u8 list \<Rightarrow> Segment \<Rightarrow> (u32 \<Rightarrow> u8) \<Rightarrow> u32 \<Rightarrow> u8" where
  "place file g mem y = (let i = unat (y - sg_paddr g) in
     if sg_type g \<noteq> 1 then mem y
     else if i < unat (sg_filesz g) then file ! (unat (sg_offset g) + i)
     else if i < unat (sg_memsz g) then 0 else mem y)"

definition elf_image :: "u8 list \<Rightarrow> (u32 \<Rightarrow> u8) \<Rightarrow> u32 \<Rightarrow> u8" where
  "elf_image file mem = fold (place file) (elf_segments file) mem"

text \<open>The file is complete, and its segments lie in main memory.\<close>

definition seg_size :: "Segment \<Rightarrow> nat" where
  "seg_size g = max (unat (sg_filesz g)) (unat (sg_memsz g))"

definition seg_ok :: "u8 list \<Rightarrow> Segment \<Rightarrow> bool" where
  "seg_ok file g \<longleftrightarrow> sg_type g \<noteq> 1 \<or> unat (sg_offset g) + unat (sg_filesz g) \<le> length file
     \<and> (seg_size g = 0 \<or> loadable (sg_paddr g) (seg_size g))"

definition elf_ok :: "u8 list \<Rightarrow> bool" where
  "elf_ok file \<longleftrightarrow> 52 \<le> length file \<and> file16 file 18 = 0xF3
     \<and> elf_table file + 32 * elf_count file \<le> length file \<and> list_all (seg_ok file) (elf_segments file)"

subsection \<open>Reading them\<close>

definition good_stream :: "u8 list \<Rightarrow> nat \<Rightarrow> Stream" where
  "good_stream file p = \<lparr>st_data = file, st_pos = p, st_fail = False\<rparr>"

lemma stream_good:
  "stream_open (Some file) = good_stream file 0" "stream_seek q (good_stream file p) = good_stream file q"
  "p + n \<le> length file \<Longrightarrow> stream_read n (good_stream file p) = (slice file p n, good_stream file (p + n))"
  "st_pos (good_stream file p) = p"
  by (auto simp: stream_open_def stream_seek_def stream_read_def good_stream_def slice_def Let_def)

lemma length_slice: "p + n \<le> length file \<Longrightarrow> length (slice file p n) = n"
  by (simp add: slice_def)

lemma field_slice:
  assumes "p + n \<le> length file"
  shows "i + 2 \<le> n \<Longrightarrow> field16 i (slice file p n) = Some (file16 file (p + i))"
    and "i + 4 \<le> n \<Longrightarrow> field32 i (slice file p n) = Some (file32 file (p + i))"
  using assms by (auto simp: field16_def field32_def file16_def file32_def slice_def add.assoc)

lemmas phdr_defs = PHDR_SIZE_def p_type_def p_offset_def p_paddr_def p_filesz_def p_memsz_def
lemmas ehdr_defs = EHDR_SIZE_def e_machine_def e_entry_def e_phoff_def e_phnum_def

text \<open>The bytes a segment stores are those that \<open>place\<close> puts into memory.\<close>

lemma place_put:
  assumes "sg_type g = 1" "unat (sg_offset g) + unat (sg_filesz g) \<le> length file"
  shows "place file g mem = put_bytes (sg_paddr g)
    (slice file (unat (sg_offset g)) (unat (sg_filesz g)) @ replicate (unat (sg_memsz g) - unat (sg_filesz g)) 0) mem"
    (is "_ = put_bytes _ ?bs _")
proof
  fix y
  let ?i = "unat (y - sg_paddr g)"
  have y: "y = sg_paddr g + of_nat ?i" by simp
  have len: "length ?bs = seg_size g" using assms(2) by (simp add: length_slice seg_size_def)
  then have max: "length ?bs \<le> 2 ^ 32"
    using unat_u32 [of "sg_filesz g"] unat_u32 [of "sg_memsz g"] by (simp add: seg_size_def)
  show "place file g mem y = put_bytes (sg_paddr g) ?bs mem y"
  proof (cases "?i < seg_size g")
    case True
    have "put_bytes (sg_paddr g) ?bs mem (sg_paddr g + of_nat ?i) = ?bs ! ?i"
      using True len max by (intro put_bytes_at) simp_all
    moreover have "?bs ! ?i = (if ?i < unat (sg_filesz g) then file ! (unat (sg_offset g) + ?i) else 0)"
      using True assms(2) by (auto simp: nth_append slice_def seg_size_def max_def split: if_splits)
    moreover have "place file g mem y = (if ?i < unat (sg_filesz g) then file ! (unat (sg_offset g) + ?i) else 0)"
      using True assms(1) by (auto simp: place_def Let_def seg_size_def max_def split: if_splits)
    ultimately show ?thesis using y by simp
  next
    case False
    have "\<forall>i < length ?bs. y \<noteq> sg_paddr g + of_nat i"
    proof (intro allI impI notI)
      fix i assume i: "i < length ?bs" and "y = sg_paddr g + of_nat i"
      then have "y - sg_paddr g = of_nat i" by simp
      then have "?i = i" using i max by (simp add: unsigned_of_nat take_bit_nat_eq_self)
      then show False using i len False by simp
    qed
    then have "put_bytes (sg_paddr g) ?bs mem y = mem y" by (rule put_bytes_other)
    then show ?thesis using False assms(1) by (simp add: place_def Let_def seg_size_def less_max_iff_disj)
  qed
qed

lemma load_segment_run:
  assumes "p + 32 \<le> length file" "sg_type (segment_at file p) = 1" "seg_ok file (segment_at file p)"
  shows "\<exists>n. load_segment (slice file p 32) (good_stream file q) m = Ok (good_stream file q) n
    \<and> loaded m (place file (segment_at file p) (byte_at m)) n"
proof -
  let ?g = "segment_at file p"
  let ?bs = "slice file (unat (sg_offset ?g)) (unat (sg_filesz ?g)) @ replicate (unat (sg_memsz ?g) - unat (sg_filesz ?g)) 0"
  have ok: "unat (sg_offset ?g) + unat (sg_filesz ?g) \<le> length file" "seg_size ?g = 0 \<or> loadable (sg_paddr ?g) (seg_size ?g)"
    using assms(2,3) by (simp_all add: seg_ok_def)
  have f: "p_filesz (slice file p 32) = Some (sg_filesz ?g)" "p_offset (slice file p 32) = Some (sg_offset ?g)"
      "p_paddr (slice file p 32) = Some (sg_paddr ?g)" "p_memsz (slice file p 32) = Some (sg_memsz ?g)"
    using field_slice(2) [OF assms(1)] by (simp_all add: phdr_defs segment_at_def)
  have len: "length ?bs = seg_size ?g" using ok(1) by (simp add: length_slice seg_size_def)
  then have "?bs = [] \<or> loadable (sg_paddr ?g) (length ?bs)" using ok(2) by (metis length_0_conv)
  from write_bytes_run [OF this, of m] obtain n where n: "bus_write_bytes (sg_paddr ?g) ?bs m = Ok () n"
      "loaded m (put_bytes (sg_paddr ?g) ?bs (byte_at m)) n" by blast
  have "load_segment (slice file p 32) (good_stream file q) m = Ok (good_stream file q) n"
    using n(1) ok(1) by (simp add: load_segment_def f defined_def stream_good length_slice prog_simps Let_def)
  moreover have "loaded m (place file ?g (byte_at m)) n"
    unfolding place_put [OF assms(2) ok(1)] by (rule n(2))
  ultimately show ?thesis by blast
qed

lemma load_segments_run:
  assumes "p + 32 * k \<le> length file" "list_all (seg_ok file) (map (\<lambda>i. segment_at file (p + 32 * i)) [0..<k])"
  shows "\<exists>n. load_segments k (good_stream file p) m = Ok () n
    \<and> loaded m (fold (place file) (map (\<lambda>i. segment_at file (p + 32 * i)) [0..<k]) (byte_at m)) n"
  using assms
proof (induction k arbitrary: p m)
  case 0
  then show ?case by (simp add: ret_def loaded_def)
next
  case (Suc k)
  let ?g = "segment_at file p"
  have gs: "map (\<lambda>i. segment_at file (p + 32 * i)) [0..<Suc k]
      = ?g # map (\<lambda>i. segment_at file ((p + 32) + 32 * i)) [0..<k]"
    by (simp add: upt_conv_Cons map_Suc_upt [symmetric] algebra_simps del: upt_Suc)
  have p: "p + 32 \<le> length file" using Suc.prems(1) by simp
  have ok: "seg_ok file ?g" "list_all (seg_ok file) (map (\<lambda>i. segment_at file ((p + 32) + 32 * i)) [0..<k])"
    using Suc.prems(2) unfolding gs by simp_all
  have type: "p_type (slice file p 32) = Some (sg_type ?g)"
    using field_slice(2) [OF p, of 0] by (simp add: p_type_def segment_at_def)
  obtain t where t: "(if sg_type ?g = 1 then load_segment (slice file p 32) (good_stream file (p + 32))
      else ret (good_stream file (p + 32))) m = Ok (good_stream file (p + 32)) t"
      "loaded m (place file ?g (byte_at m)) t"
  proof (cases "sg_type ?g = 1")
    case True
    then show thesis using load_segment_run [OF p True ok(1)] that by auto
  next
    case False
    then have "place file ?g (byte_at m) = byte_at m" by (simp add: place_def fun_eq_iff)
    then show thesis using False that [of m] by (simp add: ret_def loaded_def)
  qed
  obtain n where n: "load_segments k (good_stream file (p + 32)) t = Ok () n"
      "loaded t (fold (place file) (map (\<lambda>i. segment_at file ((p + 32) + 32 * i)) [0..<k]) (byte_at t)) n"
    using Suc.IH [of "p + 32" t] Suc.prems(1) ok(2) by auto
  have "load_segments (Suc k) (good_stream file p) m = Ok () n"
    using n(1) t(1) by (simp add: stream_good PHDR_SIZE_def p type bnd_def defined_def ret_def)
  moreover have "byte_at t = place file ?g (byte_at m)" using t(2) by (simp add: loaded_def)
  then have "loaded m (fold (place file) (map (\<lambda>i. segment_at file (p + 32 * i)) [0..<Suc k]) (byte_at m)) n"
    using loaded_trans [OF t(2) n(2)] unfolding gs by simp
  ultimately show ?case by blast
qed

lemma elf_header:
  assumes "fs f = Some file" "52 \<le> length file"
  shows "stream_read 52 (stream_open (fs f)) = (slice file 0 52, good_stream file 52)"
    and "e_machine (slice file 0 52) = Some (file16 file 18)" "e_entry (slice file 0 52) = Some (file32 file 24)"
    and "e_phoff (slice file 0 52) = Some (file32 file 28)" "e_phnum (slice file 0 52) = Some (file16 file 44)"
  using assms field_slice [where p = 0 and n = 52] by (simp_all add: stream_good ehdr_defs)

lemma load_elf_run:
  assumes "fs f = Some file" "52 \<le> length file" and riscv: "file16 file 18 = 0xF3" and ok: "elf_ok file"
  shows "\<exists>n. load_elf fs f m = Ok () n \<and> byte_at n = elf_image file (byte_at m)
      \<and> n = m\<lparr>em_dram := em_dram n, em_cpu := em_cpu n\<rparr>
      \<and> cpu_core (em_cpu n) = cpu_core ((em_cpu m)\<lparr>cpu_pc := file32 file 24\<rparr>)"
proof -
  have ok: "elf_table file + 32 * elf_count file \<le> length file" "list_all (seg_ok file) (elf_segments file)"
    using ok by (simp_all add: elf_ok_def)
  let ?m = "m\<lparr>em_cpu := (em_cpu m)\<lparr>cpu_pc := file32 file 24\<rparr>\<rparr>"
  obtain n where n: "load_segments (elf_count file) (good_stream file (elf_table file)) ?m = Ok () n"
      "loaded ?m (elf_image file (byte_at ?m)) n"
    using load_segments_run [OF ok(1) ok(2) [unfolded elf_segments_def]]
    unfolding elf_image_def elf_segments_def by blast
  have "byte_at ?m = byte_at m" by (simp add: byte_at_def fun_eq_iff dram_get_def)
  moreover have "load_elf fs f m = Ok () n" using n(1) riscv elf_header [of fs f "file"] assms(1,2)
    by (simp add: load_elf_def EHDR_SIZE_def stream_good setPC_def mach_simps elf_table_def elf_count_def defined_def)
  ultimately show ?thesis using n(2) unfolding loaded_def by (cases m; cases n) simp
qed

text \<open>
  C38. Loading a complete executable whose segments lie in main memory leaves there exactly the image the file
  describes - the bytes of each segment at its physical address, zeros up to its size in memory, later
  segments over earlier ones, everything else as before - with the program counter at the entry point; a file
  for another machine is refused and changes nothing.
\<close>

theorem load_elf_correct:
  assumes "fs f = Some file" and "52 \<le> length file"
  shows "if file16 file 18 \<noteq> 0xF3 then load_elf fs f m = Raise (RuntimeError ''[ERROR] Not a RISC-V ELF'') m
    else elf_ok file \<longrightarrow> (\<exists>n. load_elf fs f m = Ok () n \<and> byte_at n = elf_image file (byte_at m)
      \<and> n = m\<lparr>em_dram := em_dram n, em_cpu := em_cpu n\<rparr>
      \<and> cpu_core (em_cpu n) = cpu_core ((em_cpu m)\<lparr>cpu_pc := file32 file 24\<rparr>))"
proof (cases "file16 file 18 = 0xF3")
  case True
  then show ?thesis using load_elf_run [of fs f "file" m] assms True by simp
next
  case False
  then show ?thesis using elf_header [of fs f "file"] assms by (simp add: load_elf_def EHDR_SIZE_def prog_simps defined_def)
qed

text \<open>An executable with one segment of two bytes in the file and four in memory.\<close>

definition demo_elf :: "u8 list" where
  "demo_elf = (replicate 84 0)[18 := 0xF3, 27 := 0x80, 28 := 52, 44 := 1, 52 := 1, 56 := 84, 67 := 0x80, 68 := 2,
     72 := 4] @ [0x13, 7]"

lemma demo_elf_facts:
  "length demo_elf = 86" "file16 demo_elf 18 = 0xF3" "file32 demo_elf 24 = 0x80000000" "elf_table demo_elf = 52"
  "elf_count demo_elf = 1" "demo_elf ! 84 = 0x13" "demo_elf ! 85 = 7"
  "segment_at demo_elf 52 = \<lparr>sg_type = 1, sg_offset = 84, sg_paddr = 0x80000000, sg_filesz = 2, sg_memsz = 4\<rparr>"
  by (simp_all add: demo_elf_def file16_def file32_def elf_table_def elf_count_def segment_at_def nth_append
      le16_def le32_def)

lemma demo_elf_ok: "elf_ok demo_elf"
  by (simp add: elf_ok_def elf_segments_def demo_elf_facts seg_ok_def seg_size_def loadable_def dram_fits_def
      dram_offset_def region_defs)

theorem load_elf_correct_witness:
  "(\<exists>n. load_elf (\<lambda>_. Some demo_elf) ''kernel'' demo = Ok () n \<and> cpu_pc (em_cpu n) = 0x80000000
     \<and> map (byte_at n) [0x80000000, 0x80000001, 0x80000002] = [0x13, 7, 0])
   \<and> load_elf (\<lambda>_. Some (replicate 52 0)) ''kernel'' demo = Raise (RuntimeError ''[ERROR] Not a RISC-V ELF'') demo"
proof -
  let ?fs = "\<lambda>_ :: string. Some demo_elf"
  obtain n where n: "load_elf ?fs ''kernel'' demo = Ok () n" "byte_at n = elf_image demo_elf (byte_at demo)"
      "cpu_core (em_cpu n) = cpu_core ((em_cpu demo)\<lparr>cpu_pc := file32 demo_elf 24\<rparr>)"
    using load_elf_correct [of ?fs "''kernel''" demo_elf demo] demo_elf_ok by (auto simp: demo_elf_facts)
  have "cpu_pc (cpu_core (em_cpu n)) = 0x80000000"
    unfolding n(3) by (simp add: cpu_core_def demo_elf_facts)
  moreover have "elf_image demo_elf = place demo_elf (segment_at demo_elf 52)"
    by (simp add: elf_image_def elf_segments_def demo_elf_facts fun_eq_iff)
  moreover have "load_elf (\<lambda>_. Some (replicate 52 0)) ''kernel'' demo = Raise (RuntimeError ''[ERROR] Not a RISC-V ELF'') demo"
    using load_elf_correct [of "\<lambda>_. Some (replicate 52 0)" "''kernel''" "replicate 52 0" demo]
    by (simp add: file16_def le16_def)
  ultimately show ?thesis using n(1,2) by (auto simp: cpu_core_def place_def demo_elf_facts)
qed

end
