(* ===== verification/Program.thy ===== *)
theory Program
  imports Images
begin

section \<open>Running a program\<close>

text \<open>
  From the command line to the exit code: \<open>main\<close> (src/main.cpp) on a profile for a bare-metal executable
  builds the emulator, loads the file and runs \<open>CPU::run\<close> until the program stores a result to the exit word.
\<close>

unbundle bit_operations_syntax

subsection \<open>A processor that runs undisturbed\<close>

definition undisturbed :: "Machine \<Rightarrow> bool" where
  "undisturbed m \<longleftrightarrow> coherent m \<and> bare m \<and> serial_on m \<and> cpu_csrs (em_cpu m) MIE = 0 \<and> cpu_state (em_cpu m) = ACTIVE
     \<and> cc_mode (ec_cpu_config (em_config m)) = BARE_METAL_MODE"

abbreviation jump_mask :: "Machine \<Rightarrow> u32" where
  "jump_mask m \<equiv> cpu_misalignment_mask (em_cpu m)"

lemma undisturbed_quiet: "undisturbed m \<Longrightarrow> quiet m"
  by (simp add: undisturbed_def quiet_def)

text \<open>Bringing the clock and the interrupt lines up to date does not disturb it.\<close>

lemma update_run:
  assumes "undisturbed m"
  shows "\<exists>n. updateCycle e m = Ok () n \<and> undisturbed n \<and> arch n = arch m \<and> jump_mask n = jump_mask m
    \<and> compressed_on n = compressed_on m"
proof -
  have c: "coherent (m\<lparr>em_clint := cl\<rparr>) \<longleftrightarrow> coherent m" for cl by (rule coherent_cong) simp_all
  show ?thesis using assms
    by (simp add: updateCycle_def updates_def andthen_def bnd_def updateCycle_cpu_def Let_def undisturbed_def c
        serial_on_def bare_def compressed_on_def csr_numbers arch_def dram_get_def)
qed

lemma iteration_run:
  assumes "undisturbed m" and r: "isa_ready (jump_mask m) (compressed_on m) (arch m)"
  shows "\<exists>n. run_iteration c e m = Ok () n \<and> undisturbed n \<and> arch n = isa_step (isa_fetch (arch m)) (arch m)
    \<and> jump_mask n = jump_mask m \<and> compressed_on n = compressed_on m"
proof -
  obtain t where t: "do_if (c AND 1023 = 0) (updateCycle e) m = Ok () t" "undisturbed t" "arch t = arch m"
      "jump_mask t = jump_mask m" "compressed_on t = compressed_on m"
    using update_run [OF assms(1), of e] assms(1) by (cases "c AND 1023 = 0") (auto simp: do_if_def ret_def)
  obtain n where n: "step t = Ok () n" "arch n = isa_step (isa_fetch (arch t)) (arch t)" "quiet n"
      "same_mode (em_cpu t) (em_cpu n)" "em_config n = em_config t"
    using step_isa [OF undisturbed_quiet [OF t(2)]] r unfolding t(3-5) by blast
  have "undisturbed n \<and> jump_mask n = jump_mask t \<and> compressed_on n = compressed_on t"
    using n(3-5) t(2) same_mode_csrs [OF n(4)]
    by (simp add: undisturbed_def quiet_def same_mode_def compressed_on_def)
  moreover have "run_iteration c e m = step t"
    using t(1,2) by (simp add: run_iteration_def andthen_def bnd_def mach_simps undisturbed_def del: do_if_def)
  ultimately show ?thesis using n(1,2) t(3-5) by auto
qed

text \<open>Iterations of the loop, from a counter on.\<close>

lemma loop_run:
  assumes "undisturbed m" and "\<forall>k < length es. isa_ready (jump_mask m) (compressed_on m) (isa_run k (arch m))"
  shows "\<exists>n. run_loop c (es @ rest) m = run_loop (c + of_nat (length es)) rest n \<and> undisturbed n
    \<and> arch n = isa_run (length es) (arch m) \<and> jump_mask n = jump_mask m \<and> compressed_on n = compressed_on m"
  using assms
proof (induction es arbitrary: m c)
  case Nil
  then show ?case by auto
next
  case (Cons e es)
  have "isa_ready (jump_mask m) (compressed_on m) (arch m)" using Cons.prems(2) by fastforce
  then obtain t where t: "run_iteration (c + 1) e m = Ok () t" "undisturbed t"
      "arch t = isa_step (isa_fetch (arch m)) (arch m)" "jump_mask t = jump_mask m" "compressed_on t = compressed_on m"
    using iteration_run [OF Cons.prems(1)] by blast
  have "\<forall>k < length es. isa_ready (jump_mask t) (compressed_on t) (isa_run k (arch t))"
    using Cons.prems(2) unfolding t(3-5) by (metis Suc_less_eq isa_run.simps(2) length_Cons)
  then obtain n where n: "run_loop (c + 1) (es @ rest) t = run_loop (c + 1 + of_nat (length es)) rest n" "undisturbed n"
      "arch n = isa_run (length es) (arch t)" "jump_mask n = jump_mask t" "compressed_on n = compressed_on t"
    using Cons.IH [OF t(2)] by blast
  have "run_loop c ((e # es) @ rest) m = run_loop (c + 1) (es @ rest) t"
    using t(1) Cons.prems(1)
    by (simp add: run_loop_Cons undisturbed_def isHalted_def mach_simps)
  moreover have "c + of_nat (length (e # es)) = c + 1 + of_nat (length es)" by (simp add: algebra_simps)
  ultimately show ?case using n t(3-5) by (intro exI [of _ n]) (simp add: add.assoc)
qed

subsection \<open>The end of a program\<close>

definition exit_code :: "u32 \<Rightarrow> int" where
  "exit_code v = (if v = 1 then 0 else 1)"

text \<open>
  The instruction at the program counter ends the program: it stores a result to the exit word, or is the call
  93, which exits with code 0. The exit code, and the state in which the program ends.
\<close>

definition isa_end :: "Arch \<Rightarrow> (int \<times> Arch) option" where
  "isa_end a = (let i = isa_fetch a; v = ar_regs a (di_rs2 i) in
     if di_kind i = I_SW \<and> ar_regs a (di_rs1 i) + di_imm i = TOHOST \<and> v \<noteq> 0 then Some (exit_code v, a)
     else if di_kind i = I_ECALL \<and> ar_regs a 17 = 93 then Some (0, isa_next i a)
     else None)"

lemma write_tohost: "v \<noteq> 0 \<Longrightarrow> bus_write32 TOHOST v m = Raise (ProgramExit (exit_code v)) m"
proof -
  assume "v \<noteq> 0"
  moreover obtain d where d: "bus_write32 = bus_write32_at (Suc d)" using bus_depth by blast
  ultimately show ?thesis unfolding d by (simp add: exit_code_def throw_def)
qed

lemma store_exits:
  assumes b: "bare t" and a: "cpu_regs (em_cpu t) (di_rs1 i) + di_imm i = TOHOST" "cpu_regs (em_cpu t) (di_rs2 i) \<noteq> 0"
  shows "execSW i t = Raise (ProgramExit (exit_code (cpu_regs (em_cpu t) (di_rs2 i)))) t"
proof -
  have "loadable TOHOST 4" by (simp add: loadable_def region_defs dram_fits_def dram_offset_def TOHOST_def)
  then have "bus_read32 TOHOST t = Ok (isa_word (arch t) TOHOST) t" by (rule read_dram(1)) simp
  then obtain old where old: "old_value bus_read32 TOHOST t = Ok old t"
    by (cases "pf_verbose (ec_profile (em_config t)) \<and> \<not> is_mmio TOHOST")
      (auto simp: old_value_def is_verbose_def mach_simps)
  show ?thesis
    using old write_tohost [OF a(2)]
    by (simp add: execSW_def exec_store_def with_rs1_def mach_simps translate_bare [OF b] a(1) Let_def store_handlers_def)
qed

lemma run_halt:
  assumes t: "starting t" and i: "di_kind i = I_ECALL" "cpu_regs (em_cpu t) 17 = 93"
    and mode: "cc_mode (ec_cpu_config (em_config t)) = BARE_METAL_MODE"
  shows "\<exists>u. andthen (execute i) (unless_trapped (retire i)) t = Ok () u \<and> cpu_state (em_cpu u) = HALTED
    \<and> arch u = isa_next i (arch t)"
  using t i mode
  by (simp add: execute_def dispatch_def execECALL_def mach_simps unless_trapped_def retire_def starting_def
      arch_def isa_next_def dram_get_def reservation_def)

text \<open>A step that ends the program, by an exception or by halting.\<close>

definition ends :: "(unit, Machine) result \<Rightarrow> int \<Rightarrow> Arch \<Rightarrow> bool" where
  "ends r code b \<longleftrightarrow> (\<exists>u. arch u = b \<and> (r = Raise (ProgramExit code) u
     \<or> r = Ok () u \<and> cpu_state (em_cpu u) = HALTED \<and> code = 0))"

lemma step_ends:
  assumes m: "undisturbed m" and f: "isa_fetchable (jump_mask m) (compressed_on m) (arch m)"
    and e: "isa_end (arch m) = Some (code, b)"
  shows "ends (step m) code b"
proof -
  let ?i = "isa_fetch (arch m)"
  obtain t where t: "step m = andthen (execute ?i) (unless_trapped (retire ?i)) t"
      "starting t" "arch t = arch m" "same_mode (em_cpu m) (em_cpu t)" "em_config t = em_config m"
    using isa_fetch_begins [OF undisturbed_quiet [OF m] f] .
  have regs: "ar_regs (arch m) = cpu_regs (em_cpu t)" and b: "bare t" using t(2) by (simp_all add: starting_def flip: t(3))
  show ?thesis
  proof (cases "di_kind ?i = I_ECALL")
    case True
    then have "cpu_regs (em_cpu t) 17 = 93" "code = 0" "b = isa_next ?i (arch t)"
      using e t(3) unfolding isa_end_def Let_def regs by (auto split: if_splits)
    then show ?thesis using run_halt [OF t(2) True] m t(1,5) by (auto simp: undisturbed_def ends_def)
  next
    case False
    then have "di_kind ?i = I_SW" "execSW ?i t = Raise (ProgramExit code) t" "b = arch t"
      using e store_exits [OF b, of ?i] t(3) unfolding isa_end_def Let_def regs by (auto split: if_splits)
    then show ?thesis using t(1) by (auto simp: ends_def andthen_def bnd_def execute_def dispatch_def)
  qed
qed

lemma loop_ends:
  assumes "undisturbed m" "isa_fetchable (jump_mask m) (compressed_on m) (arch m)" "isa_end (arch m) = Some (code, b)"
  shows "\<exists>u. arch u = b \<and> (run_loop c (e # rest) m = Raise (ProgramExit code) u
    \<or> run_loop c (e # rest) m = Ok True u \<and> code = 0)"
proof -
  obtain t where t: "do_if ((c + 1) AND 1023 = 0) (updateCycle e) m = Ok () t" "undisturbed t" "arch t = arch m"
      "jump_mask t = jump_mask m" "compressed_on t = compressed_on m"
    using update_run [OF assms(1), of e] assms(1) by (cases "(c + 1) AND 1023 = 0") (auto simp: do_if_def ret_def)
  have "run_iteration (c + 1) e m = step t"
    using t(1,2) by (simp add: run_iteration_def andthen_def bnd_def mach_simps undisturbed_def del: do_if_def)
  then have "run_loop c (e # rest) m = andthen (\<lambda>_. step t) (run_loop (c + 1) rest) m"
    using assms(1) by (simp add: run_loop_Cons undisturbed_def isHalted_def mach_simps)
  moreover have "run_loop k rest u = Ok True u" if "cpu_state (em_cpu u) = HALTED" for k u
    using that by (cases rest) (simp_all add: run_loop_Nil run_loop_Cons isHalted_def mach_simps)
  moreover have "ends (step t) code b" using step_ends [OF t(2)] assms(2,3) unfolding t(3-5) by blast
  ultimately show ?thesis by (auto simp: ends_def andthen_def bnd_def)
qed

subsection \<open>Loading leaves the caches cold\<close>

definition cold :: "Machine \<Rightarrow> bool" where
  "cold m \<longleftrightarrow> coherent m \<and> reservation (em_cpu m) = None"

lemma cold_cpu:
  assumes "cold m" "cpu_icache c = cpu_icache (em_cpu m)" "cpu_decoded_cache c = cpu_decoded_cache (em_cpu m)"
    "cpu_current_epoch c = cpu_current_epoch (em_cpu m)" "reservation c = reservation (em_cpu m)"
  shows "cold (m\<lparr>em_cpu := c\<rparr>)"
  using assms by (simp add: cold_def)

lemma cold_store:
  assumes "cold m" "in_dram x"
  shows "cold (dram_set (dram_offset x) b m\<lparr>em_cpu := told x (em_cpu m)\<rparr>)"
proof -
  have ok: "icache_ok m" "decode_ok m" using assms(1) by (simp_all add: cold_def coherent_def)
  have "unat x mod 4096 + 1 \<le> 4096" using mod_less_divisor [of 4096 "unat x"] by linarith
  then have "coherent (dram_set (dram_offset x) b m\<lparr>em_cpu := told x (em_cpu m)\<rparr>)"
    unfolding coherent_def
    by (intro conjI store_keeps_icache [OF ok(1) assms(2), of 1] told_decode_ok [OF ok(2), of _ x]) (auto simp: dram_get_sets)
  then show ?thesis using assms(1) by (simp add: cold_def)
qed

lemma cold_devices:
  "cold (m\<lparr>em_uart := u\<rparr>) \<longleftrightarrow> cold m" "cold (m\<lparr>em_plic := p\<rparr>) \<longleftrightarrow> cold m"
  "cold (m\<lparr>em_framebuffer := f\<rparr>) \<longleftrightarrow> cold m"
  using coherent_cong [of "m\<lparr>em_uart := u\<rparr>" m] coherent_cong [of "m\<lparr>em_plic := p\<rparr>" m]
    coherent_cong [of "m\<lparr>em_framebuffer := f\<rparr>" m] by (simp_all add: cold_def)

lemma cold_irq: "keeps cold (irq_uart f)"
proof -
  have "keeps cold (state_uart g)" for g :: "UART \<Rightarrow> bool \<times> UART"
    by (simp add: keeps_def state_uart_def cold_devices split: prod.split)
  then show ?thesis unfolding irq_uart_def raise_irq_def
    by (intro keeps_bnd keeps_do_if keeps_updates) (simp_all add: cold_devices)
qed

lemma cold_write8: "keeps cold (bus_write8 x b)"
proof (cases "in_dram x")
  case True
  then show ?thesis using cold_store by (simp add: keeps_def bus_write8_dram)
next
  case False
  then show ?thesis unfolding bus_write8_def do_if_def
    by (simp add: cold_irq keeps_ret keeps_updates cold_devices)
qed

lemma cold_write_bytes: "keeps cold (bus_write_bytes x bs)"
  by (induction x bs rule: bus_write_bytes.induct) (simp_all add: keeps_ret keeps_andthen cold_write8)

lemma cold_segments: "keeps cold (load_segments n s)"
proof (induction n arbitrary: s)
  case 0
  then show ?case by (simp add: keeps_ret)
next
  case (Suc n)
  have "keeps cold (load_segment phdr s)" for phdr s
    unfolding load_segment_def by (intro keeps_intros cold_write_bytes)
  then show ?case using Suc unfolding load_segments.simps by (intro keeps_intros)
qed

lemma cold_load_elf: "keeps cold (load_elf fs f)"
proof -
  have "keeps cold (setPC a)" for a
    unfolding setPC_def set_pc_def upd_cpu_def by (intro keeps_updates) (simp add: cold_cpu)
  then show ?thesis unfolding load_elf_def by (intro keeps_intros cold_segments)
qed

subsection \<open>From the file to the exit code\<close>

text \<open>A profile for an executable on the bare machine.\<close>

definition runs_elf :: "Profile \<Rightarrow> bool" where
  "runs_elf p \<longleftrightarrow> pf_platform p = BARE_METAL \<and> pf_elf_path p \<noteq> [] \<and> pf_opensbi_path p = [] \<and> pf_disk_path p = []
     \<and> pf_tap_name p = [] \<and> pf_dtb_path p = []"

text \<open>The abstract machine with the image of the file in memory and the given input typed.\<close>

definition boot :: "Profile \<Rightarrow> u8 list \<Rightarrow> u8 list \<Rightarrow> Arch" where
  "boot p file env = \<lparr>ar_pc = file32 file 24, ar_regs = (\<lambda>_. 0)(11 := pf_dtb_address p),
     ar_mem = elf_image file (\<lambda>_. 0), ar_reserved = None, ar_input = env, ar_output = []\<rparr>"

lemma typed_input: "load_test_input env u = u\<lparr>ua_rx_fifo := ua_rx_fifo u @ env\<rparr>"
proof -
  have "fold (\<lambda>ch u. fst (rx_push ch u)) env u = u\<lparr>ua_rx_fifo := ua_rx_fifo u @ env\<rparr>"
    by (induction env arbitrary: u) (simp_all add: rx_push_def)
  then show ?thesis by (simp add: load_test_input_def)
qed

abbreviation boot_mask :: "Profile \<Rightarrow> u32" where
  "boot_mask p \<equiv> (if ext_c (pf_extensions p) then 1 else 3)"

lemma core_parts:
  assumes "cpu_core c = cpu_core d"
  shows "cpu_pc c = cpu_pc d" "cpu_regs c = cpu_regs d" "cpu_csrs c = cpu_csrs d"
    "cpu_misalignment_mask c = cpu_misalignment_mask d"
  using assms by (cases c; cases d; simp add: cpu_core_def)+

lemma compressed_misa: "misa_of cfg AND 0x4 \<noteq> 0 \<longleftrightarrow> ext_c (cc_extensions cfg)"
proof -
  have "misa_of cfg AND 0x4 \<noteq> 0 \<longleftrightarrow> bit (misa_of cfg) 2"
    using and_exp_eq_0_iff_not_bit [of "misa_of cfg" 2] by simp
  then show ?thesis by (simp add: misa_of_def bit_simps bit_1_iff)
qed

lemma start_facts:
  fixes p env junk
  defines "m \<equiv> Emulator_start (main_config p) env junk"
  assumes "\<not> cpu_reservation_valid junk"
  shows "cold m" "cpu_csrs (em_cpu m) MIE = 0" "cpu_csrs (em_cpu m) SATP = 0"
    "cpu_csrs (em_cpu m) MISA = misa_of (ec_cpu_config (main_config p))"
    "jump_mask m = boot_mask p" "cpu_regs (em_cpu m) = (\<lambda>_. 0)(11 := pf_dtb_address p)"
    "byte_at m = (\<lambda>_. 0)" "em_config m = main_config p" "em_uart m = UART0\<lparr>ua_rx_fifo := env\<rparr>"
proof -
  have "coherent (Emulator_new (main_config p) junk)"
    by (simp add: coherent_def icache_ok_def decode_ok_def Emulator_new_def CPU_new_def ICacheEntry0_def CacheEntry0_def)
  then have "coherent m" unfolding m_def Emulator_start_def
    by (subst coherent_cong [of _ "Emulator_new (main_config p) junk"]) simp_all
  then show "cold m" using assms(2)
    by (simp add: cold_def m_def Emulator_start_def Emulator_new_def CPU_new_def reservation_def)
qed (simp_all add: m_def Emulator_start_def Emulator_new_def CPU_new_def csr_numbers byte_at_def dram_get_def
      main_config_def fun_eq_iff typed_input UART0_def)

lemma initialize_run:
  assumes p: "runs_elf p" and cfg: "em_config m = main_config p"
  shows "initialize fs net_ok m = load_elf fs (pf_elf_path p) m"
proof -
  have "initialize fs net_ok m = andthen (ret ()) (andthen (load_elf fs (pf_elf_path p)) (ret ())) m"
    using p by (simp add: initialize_def runs_elf_def cfg main_config_def init_devices_def do_if_def Let_def
        reads_def bnd_def andthen_def ret_def)
  also have "\<dots> = load_elf fs (pf_elf_path p) m"
    by (cases "load_elf fs (pf_elf_path p) m") (simp_all add: andthen_def bnd_def ret_def)
  finally show ?thesis .
qed

definition activated :: "Machine \<Rightarrow> Machine" where
  "activated m = m\<lparr>em_cpu := (em_cpu m)\<lparr>cpu_state := ACTIVE\<rparr>\<rparr>"

lemma main_loop:
  assumes p: "runs_elf p" and n: "load_elf fs (pf_elf_path p) (Emulator_start (main_config p) env junk) = Ok () n"
  shows "main_run fs net_ok env junk es p = (case run_loop 0 es (activated n) of
      Ok ended u \<Rightarrow> Ok (if ended then Some 0 else None) u
    | Raise (ProgramExit code) u \<Rightarrow> Ok (Some code) u
    | Raise e u \<Rightarrow> if is_runtime_error e then Ok (Some 1) u else Raise e u
    | Undefined \<Rightarrow> Undefined | NoFuel \<Rightarrow> NoFuel)"
proof -
  have "em_config (Emulator_start (main_config p) env junk) = main_config p"
    by (simp add: Emulator_start_def Emulator_new_def)
  note i = initialize_run [OF p this, of fs net_ok]
  note run = main_run_def emulate_def run_def set_state_def catching_def andthen_def bnd_def i n ret_def
    upd_cpu_def updates_def activated_def [symmetric]
  show ?thesis
  proof (cases "run_loop 0 es (activated n)")
    case (Raise e u)
    then show ?thesis by (cases e) (simp_all add: run)
  qed (simp_all add: run)
qed

lemma boot_run:
  assumes bm: "runs_elf p" and elf: "fs (pf_elf_path p) = Some file" "elf_ok file" and junk: "\<not> cpu_reservation_valid junk"
  shows "\<exists>n. load_elf fs (pf_elf_path p) (Emulator_start (main_config p) env junk) = Ok () n
    \<and> undisturbed (activated n) \<and> arch (activated n) = boot p file env
    \<and> jump_mask (activated n) = boot_mask p \<and> compressed_on (activated n) = ext_c (pf_extensions p)"
proof -
  let ?m = "Emulator_start (main_config p) env junk"
  note start = start_facts [OF junk, of p env]
  obtain n where n: "load_elf fs (pf_elf_path p) ?m = Ok () n" "byte_at n = elf_image file (byte_at ?m)"
      "cpu_core (em_cpu n) = cpu_core ((em_cpu ?m)\<lparr>cpu_pc := file32 file 24\<rparr>)"
      "n = ?m\<lparr>em_dram := em_dram n, em_cpu := em_cpu n\<rparr>"
    using load_elf_run [of fs "pf_elf_path p" "file" ?m] elf by (auto simp: elf_ok_def)
  have cold: "cold n" using keeps_Ok [OF cold_load_elf start(1) n(1)] .
  note core = core_parts [OF n(3)]
  have "em_uart n = em_uart ?m" "em_config n = em_config ?m" using n(4) by (cases n; cases ?m; simp)+
  then have config: "em_config n = main_config p" "pf_platform p = BARE_METAL" using start(8) bm by (simp_all add: runs_elf_def)
  have uart: "em_uart n = UART0\<lparr>ua_rx_fifo := env\<rparr>" using start(9) \<open>em_uart n = em_uart ?m\<close> by simp
  have "coherent (activated n)" using cold by (simp add: activated_def cold_def)
  then have "undisturbed (activated n)"
    using core(3) start(2,3) config
    by (simp add: undisturbed_def activated_def bare_def serial_on_def uart UART0_def main_config_def)
  moreover have "arch (activated n) = boot p file env"
  proof -
    have "(\<lambda>x. dram_get (activated n) (dram_offset x)) = elf_image file (\<lambda>_. 0)"
      using n(2) unfolding start(7) by (simp add: fun_eq_iff byte_at_def activated_def dram_get_def)
    moreover have "reservation (em_cpu (activated n)) = None"
      using cold by (auto simp: activated_def cold_def reservation_def split: if_splits)
    ultimately show ?thesis
      using core(1,2) start(6) by (simp add: arch_def boot_def) (simp add: activated_def uart UART0_def)
  qed
  moreover have "jump_mask (activated n) = boot_mask p"
    using core(4) start(5) by (simp add: activated_def)
  moreover have "compressed_on (activated n) = ext_c (pf_extensions p)"
    using core(3) start(4) compressed_misa [of "ec_cpu_config (main_config p)"]
    by (simp add: activated_def compressed_on_def main_config_def)
  ultimately show ?thesis using n(1) by blast
qed


text \<open>
  A file with five instructions: \<open>lui x7, 0x10000\<close>, \<open>lbu x5, 0(x7)\<close>, \<open>sb x5, 0(x7)\<close>, \<open>lui x6, 0x80001\<close> and
  \<open>sw x5, 0(x6)\<close>. It reads a byte from the console, prints it and ends with it as its result.
\<close>

definition test_elf :: "u8 list" where
  "test_elf = (replicate 84 0)[18 := 0xF3, 27 := 0x80, 28 := 52, 44 := 1, 52 := 1, 56 := 84, 67 := 0x80, 68 := 20,
     72 := 20] @ [0xB7, 0x03, 0x00, 0x10, 0x83, 0xC2, 0x03, 0x00, 0x23, 0x80, 0x53, 0x00, 0x37, 0x13, 0x00, 0x80,
     0x23, 0x20, 0x53, 0x00]"

lemma test_elf_facts:
  "length test_elf = 104" "file16 test_elf 18 = 0xF3" "file32 test_elf 24 = 0x80000000" "elf_table test_elf = 52"
  "elf_count test_elf = 1"
  "segment_at test_elf 52 = \<lparr>sg_type = 1, sg_offset = 84, sg_paddr = 0x80000000, sg_filesz = 20, sg_memsz = 20\<rparr>"
  by (simp_all add: test_elf_def file16_def file32_def elf_table_def elf_count_def segment_at_def nth_append
      le16_def le32_def)

lemma test_elf_code:
  "map (nth test_elf) [84, 85, 86, 87, 88, 89, 90, 91, 92, 93, 94, 95, 96, 97, 98, 99, 100, 101, 102, 103]
    = [0xB7, 0x03, 0x00, 0x10, 0x83, 0xC2, 0x03, 0x00, 0x23, 0x80, 0x53, 0x00, 0x37, 0x13, 0x00, 0x80,
       0x23, 0x20, 0x53, 0x00]"
  by (simp add: test_elf_def nth_append)

lemma test_elf_ok: "elf_ok test_elf"
  by (simp add: elf_ok_def elf_segments_def test_elf_facts seg_ok_def seg_size_def loadable_def dram_fits_def
      dram_offset_def region_defs)

definition test_profile :: Profile where
  "test_profile = (ec_profile demo_config)\<lparr>pf_platform := BARE_METAL, pf_disk_path := []\<rparr>"

lemma test_profile_facts: "runs_elf test_profile" "pf_dtb_address test_profile = 0" "\<not> ext_c (pf_extensions test_profile)"
  by (simp_all add: test_profile_def runs_elf_def demo_config_def)

definition test_at :: "u32 \<Rightarrow> (u8 \<Rightarrow> u32) \<Rightarrow> u8 list \<Rightarrow> u8 list \<Rightarrow> Arch" where
  "test_at pc regs inp out = \<lparr>ar_pc = pc, ar_regs = regs, ar_mem = elf_image test_elf (\<lambda>_. 0), ar_reserved = None,
     ar_input = inp, ar_output = out\<rparr>"

lemma test_at_simps:
  "ar_pc (test_at pc r inp out) = pc" "ar_regs (test_at pc r inp out) = r" "ar_input (test_at pc r inp out) = inp"
  "ar_output (test_at pc r inp out) = out" "(test_at pc r inp out)\<lparr>ar_pc := pc'\<rparr> = test_at pc' r inp out"
  "(test_at pc r inp out)\<lparr>ar_regs := r'\<rparr> = test_at pc r' inp out"
  "(test_at pc r inp out)\<lparr>ar_input := inp'\<rparr> = test_at pc r inp' out"
  "(test_at pc r inp out)\<lparr>ar_output := out'\<rparr> = test_at pc r inp out'"
  by (simp_all add: test_at_def)

lemma test_memory: "elf_image test_elf (\<lambda>_. 0) x =
    (if x - 0x80000000 < 20 then test_elf ! (84 + unat (x - 0x80000000)) else 0)"
  by (simp add: elf_image_def elf_segments_def test_elf_facts place_def Let_def word_less_nat_alt)

lemma test_halves:
  "isa_half (test_at pc r inp out) 0x80000000 = 0x03B7" "isa_half (test_at pc r inp out) 0x80000002 = 0x1000"
  "isa_half (test_at pc r inp out) 0x80000004 = 0xC283" "isa_half (test_at pc r inp out) 0x80000006 = 0x0003"
  "isa_half (test_at pc r inp out) 0x80000008 = 0x8023" "isa_half (test_at pc r inp out) 0x8000000A = 0x0053"
  "isa_half (test_at pc r inp out) 0x8000000C = 0x1337" "isa_half (test_at pc r inp out) 0x8000000E = 0x8000"
  "isa_half (test_at pc r inp out) 0x80000010 = 0x2023" "isa_half (test_at pc r inp out) 0x80000012 = 0x0053"
  using test_elf_code by (simp_all add: isa_half_def test_at_def test_memory le16_def)

lemma test_fetch:
  "isa_fetch (test_at 0x80000000 r inp out) = (decode 0x100003B7)\<lparr>di_instr_len := 4\<rparr>"
  "isa_fetch (test_at 0x80000004 r inp out) = (decode 0x0003C283)\<lparr>di_instr_len := 4\<rparr>"
  "isa_fetch (test_at 0x80000008 r inp out) = (decode 0x00538023)\<lparr>di_instr_len := 4\<rparr>"
  "isa_fetch (test_at 0x8000000C r inp out) = (decode 0x80001337)\<lparr>di_instr_len := 4\<rparr>"
  "isa_fetch (test_at 0x80000010 r inp out) = (decode 0x00532023)\<lparr>di_instr_len := 4\<rparr>"
  unfolding isa_fetch_def Let_def test_at_simps(1) by (simp_all add: test_halves)

lemma test_decode:
  "di_kind (decode 0x100003B7) = I_LUI \<and> di_rd (decode 0x100003B7) = 7 \<and> di_imm (decode 0x100003B7) = 0x10000000"
  "di_kind (decode 0x0003C283) = I_LBU \<and> di_rd (decode 0x0003C283) = 5
      \<and> di_rs1 (decode 0x0003C283) = 7 \<and> di_imm (decode 0x0003C283) = 0"
  "di_kind (decode 0x00538023) = I_SB \<and> di_rs1 (decode 0x00538023) = 7
      \<and> di_rs2 (decode 0x00538023) = 5 \<and> di_imm (decode 0x00538023) = 0"
  "di_kind (decode 0x80001337) = I_LUI \<and> di_rd (decode 0x80001337) = 6 \<and> di_imm (decode 0x80001337) = 0x80001000"
  "di_kind (decode 0x00532023) = I_SW \<and> di_rs1 (decode 0x00532023) = 6
      \<and> di_rs2 (decode 0x00532023) = 5 \<and> di_imm (decode 0x00532023) = 0"
  by (simp_all add: decode_def decode_alu_imm_def decode_load_def decode_store_def imm_s_def get_bits_def sign_extend_def
      DecodedInstr0_def Let_def)

lemma test_steps:
  "isa_step (isa_fetch (test_at 0x80000000 r inp out)) (test_at 0x80000000 r inp out)
    = test_at 0x80000004 (r(7 := 0x10000000)) inp out"
  "r 7 = 0x10000000 \<Longrightarrow> isa_step (isa_fetch (test_at 0x80000004 r (c # cs) out)) (test_at 0x80000004 r (c # cs) out)
    = test_at 0x80000008 (r(5 := ucast c)) cs out"
  "r 7 = 0x10000000 \<Longrightarrow> isa_step (isa_fetch (test_at 0x80000008 r inp out)) (test_at 0x80000008 r inp out)
    = test_at 0x8000000C r inp (out @ [byte_of 0 (r 5)])"
  "isa_step (isa_fetch (test_at 0x8000000C r inp out)) (test_at 0x8000000C r inp out)
    = test_at 0x80000010 (r(6 := 0x80001000)) inp out"
  by (simp_all add: test_fetch test_decode test_at_simps isa_step_def isa_value_def isa_console_def isa_typed_def
      isa_next_def isa_set_def SERIAL_DATA_def Let_def)


end
