(* ===== verification/Frames.thy ===== *)
theory Frames
  imports Virtqueue
begin

section \<open>Frames through the rings of the network device\<close>

text \<open>
  What \<open>process_tx_queue\<close> and \<open>rx_inject\<close> of the network device do, stated on the descriptor chains
  that the driver laid out in main memory: the frames sent are the contents of the chains in the order
  of the ring, and a frame received is scattered over the buffers of the next chain.
\<close>

unbundle bit_operations_syntax

interpretation netq: virtqueue "\<lambda>m. nq_desc_addr (vn_queues (em_net m) q)"
    "\<lambda>m. nq_used_addr (vn_queues (em_net m) q)" NET_QUEUE_SIZE for q
  by unfold_locales (auto simp: NET_QUEUE_SIZE_def loaded_net)

lemma net_desc_reader: "net_read_desc idx q = desc_reader (\<lambda>m. nq_desc_addr (vn_queues (em_net m) q)) idx"
  by (simp add: net_read_desc_def desc_reader_def get_queue_def get_net_def)

lemma net_used_pusher:
  "push_used w32 q head len = used_pusher (\<lambda>m. nq_used_addr (vn_queues (em_net m) q)) NET_QUEUE_SIZE w32 head len"
  by (simp add: push_used_def used_pusher_def get_queue_def get_net_def)

lemmas net_desc_run = netq.desc_run [folded net_desc_reader]
lemmas push_used_run = netq.used_run [folded net_used_pusher]

subsection \<open>Sending\<close>

text \<open>The frame of a chain: all its bytes but the first twelve of its first buffer, the header.\<close>

fun chain_frame :: "(u32 \<Rightarrow> u8) \<Rightarrow> u32 \<Rightarrow> u16 list \<Rightarrow> u8 list" where
  "chain_frame mem base [] = []"
| "chain_frame mem base (i # is) = drop 12 (buf_bytes mem base i) @ concat (map (buf_bytes mem base) is)"

lemma read_buf:
  assumes "buf_clear W (byte_at m) base idx" "skip = (if first then NET_HDR_SIZE else 0)"
  shows "bus_read_bytes (buf_addr (byte_at m) base idx + skip)
      (unat (if buf_len (byte_at m) base idx > skip then buf_len (byte_at m) base idx - skip else 0)) m
    = Ok (drop (if first then 12 else 0) (buf_bytes (byte_at m) base idx)) m"
proof -
  let ?x = "buf_addr (byte_at m) base idx" and ?n = "unat (buf_len (byte_at m) base idx)"
  have s: "unat skip = (if first then 12 else 0)" "skip = of_nat (if first then 12 else 0)"
    using assms(2) by (simp_all add: NET_HDR_SIZE_def)
  have n: "unat (if buf_len (byte_at m) base idx > skip then buf_len (byte_at m) base idx - skip else 0)
      = ?n - (if first then 12 else 0)"
    using s(1) by (auto simp: word_less_nat_alt unat_sub word_le_nat_alt)
  have "?n = 0 \<or> loadable ?x ?n" using assms(1) by (auto simp: buf_clear_def apart_def)
  then have "?n - k = 0 \<or> loadable (?x + of_nat k) (?n - k)" for k
    using loadable_part [of ?x ?n k "?n - k"] by force
  then show ?thesis unfolding n unfolding s(2) buf_bytes_def drop_bytes_of by (intro read_bytes_of) blast
qed

lemma tx_chain_run:
  assumes "path n (byte_at m) (nq_desc_addr (vn_queues (em_net m) TXQ)) idx = Some is"
    and "list_all (buf_clear W (byte_at m) (nq_desc_addr (vn_queues (em_net m) TXQ))) is"
  shows "tx_chain n idx first pkt m = Ok (pkt @ (if first then chain_frame (byte_at m) (nq_desc_addr (vn_queues (em_net m) TXQ)) is
      else concat (map (buf_bytes (byte_at m) (nq_desc_addr (vn_queues (em_net m) TXQ))) is))) m"
  using assms
proof (induction n arbitrary: idx "is" first pkt)
  case (Suc n)
  let ?b = "nq_desc_addr (vn_queues (em_net m) TXQ)"
  have "idx \<in> set is" using Suc.prems(1) by (auto split: if_splits)
  then have ok: "buf_clear W (byte_at m) ?b idx" using Suc.prems(2) by (simp add: list_all_iff)
  then have "desc_clear W ?b idx" by (simp add: buf_clear_def)
  from net_desc_run [OF this agree_refl] obtain a fl where d: "net_read_desc idx TXQ m
      = Ok (a, buf_len (byte_at m) ?b idx, fl, buf_next (byte_at m) ?b idx) m"
      "ucast a = buf_addr (byte_at m) ?b idx" "fl AND VIRTQ_DESC_F_NEXT = 0 \<longleftrightarrow> \<not> buf_more (byte_at m) ?b idx" by blast
  note rd = read_buf [OF ok refl, of first]
  let ?bytes = "drop (if first then 12 else 0) (buf_bytes (byte_at m) ?b idx)"
  have run: "tx_chain (Suc n) idx first pkt m = (if buf_more (byte_at m) ?b idx
      then tx_chain n (buf_next (byte_at m) ?b idx) False (pkt @ ?bytes) m else Ok (pkt @ ?bytes) m)"
    by (simp only: tx_chain.simps bnd_def d Let_def prod.case result.case rd) (simp add: ret_def)
  show ?case
  proof (cases "buf_more (byte_at m) ?b idx")
    case True
    then obtain js where js: "path n (byte_at m) ?b (buf_next (byte_at m) ?b idx) = Some js" "is = idx # js"
      using Suc.prems(1) by auto
    show ?thesis using Suc.IH [OF js(1)] Suc.prems(2) True unfolding run js(2) by simp
  next
    case False
    then show ?thesis using Suc.prems(1) unfolding run by auto
  qed
qed simp

text \<open>The chain that a position of the ring names.\<close>

abbreviation net_slot :: "NetQueue \<Rightarrow> u16 \<Rightarrow> u32" where
  "net_slot q \<equiv> slot_addr NET_QUEUE_SIZE (nq_avail_addr q)"

abbreviation net_head :: "(u32 \<Rightarrow> u8) \<Rightarrow> NetQueue \<Rightarrow> u16 \<Rightarrow> u16" where
  "net_head mem q \<equiv> slot_head NET_QUEUE_SIZE mem (nq_avail_addr q)"

text \<open>The used ring of the queues of this device.\<close>

abbreviation net_used :: "u32 \<Rightarrow> u32 set" where
  "net_used \<equiv> used_set NET_QUEUE_SIZE"

abbreviation net_put :: "u32 \<Rightarrow> u16 \<Rightarrow> u32 \<Rightarrow> (u32 \<Rightarrow> u8) \<Rightarrow> u32 \<Rightarrow> u8" where
  "net_put \<equiv> used_put NET_QUEUE_SIZE"

definition slot_path :: "(u32 \<Rightarrow> u8) \<Rightarrow> NetQueue \<Rightarrow> u16 \<Rightarrow> u16 list option" where
  "slot_path mem q p = path CHAIN_FUEL mem (nq_desc_addr q) (net_head mem q p)"

definition slot_frame :: "(u32 \<Rightarrow> u8) \<Rightarrow> NetQueue \<Rightarrow> u16 \<Rightarrow> u8 list" where
  "slot_frame mem q p = chain_frame mem (nq_desc_addr q) (the (slot_path mem q p))"

text \<open>It ends, and it and its buffers lie in main memory apart from \<open>W\<close>.\<close>

definition slot_ok :: "u32 set \<Rightarrow> (u32 \<Rightarrow> u8) \<Rightarrow> NetQueue \<Rightarrow> u16 \<Rightarrow> bool" where
  "slot_ok W mem q p \<longleftrightarrow> apart W (net_slot q p) 2 \<and> (case slot_path mem q p of None \<Rightarrow> False
     | Some is \<Rightarrow> list_all (buf_clear W mem (nq_desc_addr q)) is)"

lemma slot_agree:
  assumes "agree W f g" "slot_ok W g q p"
  shows "slot_ok W f q p" "net_head f q p = net_head g q p" "slot_frame f q p = slot_frame g q p"
proof -
  obtain "is" where s: "slot_path g q p = Some is" "list_all (buf_clear W g (nq_desc_addr q)) is"
    using assms(2) by (auto simp: slot_ok_def split: option.splits)
  show h: "net_head f q p = net_head g q p"
    unfolding slot_head_def by (rule agree_words(1) [OF assms(1)]) (use assms(2) in \<open>simp add: slot_ok_def\<close>)
  have "list_all (desc_clear W (nq_desc_addr q)) is"
    using s(2) by (auto simp: list_all_iff buf_clear_def)
  then have p: "slot_path f q p = Some is"
    using s(1) unfolding slot_path_def h by (intro path_agree [OF assms(1)]) simp_all
  have bs: "buf_clear W f (nq_desc_addr q) i" "buf_bytes f (nq_desc_addr q) i = buf_bytes g (nq_desc_addr q) i"
    if "i \<in> set is" for i
    using buf_clear_agree [OF assms(1)] s(2) that by (auto simp: list_all_iff)
  then show "slot_ok W f q p" using assms(2) p by (simp add: slot_ok_def list_all_iff)
  have "chain_frame f (nq_desc_addr q) js = chain_frame g (nq_desc_addr q) js" if "set js \<subseteq> set is" for js
  proof -
    have "map (buf_bytes f (nq_desc_addr q)) js = map (buf_bytes g (nq_desc_addr q)) js"
      using that bs(2) by (intro map_cong refl) blast
    then show ?thesis by (cases js) (simp_all del: map_eq_conv)
  qed
  then show "slot_frame f q p = slot_frame g q p" using p s(1) by (simp add: slot_frame_def)
qed

lemma tx_loop_run:
  assumes "used_ok NET_QUEUE_SIZE (nq_used_addr q)" "vn_queues (em_net m) TXQ = q" "vn_backend (em_net m)"
    and "unat (i - nq_last_avail_idx q) < n"
    and "list_all (slot_ok (net_used (nq_used_addr q)) (byte_at m) q) (pending (nq_last_avail_idx q) i)"
  shows "\<exists>t. tx_loop n (bus_write32_at (Suc d)) i m = Ok () t \<and> em_plic t = em_plic m
    \<and> em_net t = (em_net m)\<lparr>vn_queues := (vn_queues (em_net m))(TXQ := q\<lparr>nq_last_avail_idx := i\<rparr>),
        vn_sent := vn_sent (em_net m)
          @ filter (\<lambda>f. f \<noteq> []) (map (slot_frame (byte_at m) q) (pending (nq_last_avail_idx q) i))\<rparr>
    \<and> byte_at t = fold (\<lambda>p. net_put (nq_used_addr q) (net_head (byte_at m) q p) 0)
        (pending (nq_last_avail_idx q) i) (byte_at m)"
  using assms
proof (induction n arbitrary: m q)
  case (Suc n)
  let ?l = "nq_last_avail_idx q" and ?u = "nq_used_addr q" and ?mem = "byte_at m"
  let ?W = "net_used ?u"
  note q = Suc.prems(2)
  show ?case
  proof (cases "?l = i")
    case True
    have "q\<lparr>nq_last_avail_idx := i\<rparr> = q" using True by (cases q) simp
    moreover have "(vn_queues (em_net m))(TXQ := q) = vn_queues (em_net m)" using q by auto
    ultimately have "em_net m = (em_net m)\<lparr>vn_queues := (vn_queues (em_net m))(TXQ := q\<lparr>nq_last_avail_idx := i\<rparr>),
        vn_sent := vn_sent (em_net m)\<rparr>" by (cases "em_net m") simp
    then show ?thesis using True q
      by (simp add: bnd_def get_queue_def get_net_def reads_def ret_def pending_def del: fun_upd_apply)
  next
    case False
    note pend = pending_Cons [OF False]
    have ok: "slot_ok ?W ?mem q ?l" "list_all (slot_ok ?W ?mem q) (pending (?l + 1) i)"
      using Suc.prems(5) unfolding pend(1) by simp_all
    obtain "is" where path: "slot_path ?mem q ?l = Some is" "list_all (buf_clear ?W ?mem (nq_desc_addr q)) is"
      using ok(1) by (auto simp: slot_ok_def split: option.splits)
    let ?head = "net_head ?mem q ?l" and ?pkt = "slot_frame ?mem q ?l"
    have head: "bus_read16 (net_slot q ?l) m = Ok ?head m"
      using ok(1) by (simp add: slot_ok_def apart_def read_mem(1) slot_head_def)
    have chain: "tx_chain CHAIN_FUEL ?head True [] m = Ok ?pkt m"
      using tx_chain_run [of CHAIN_FUEL m ?head "is" ?W True "[]"] path q by (simp add: slot_path_def slot_frame_def)
    obtain t1 where t1: "push_used (bus_write32_at (Suc d)) TXQ ?head 0 m = Ok () t1"
        "loaded m (net_put ?u ?head 0 ?mem) t1"
      using push_used_run [of m TXQ d ?head 0] Suc.prems(1) unfolding q by blast
    let ?q = "q\<lparr>nq_last_avail_idx := ?l + 1\<rparr>"
    let ?net = "(em_net m)\<lparr>vn_queues := (vn_queues (em_net m))(TXQ := ?q)\<rparr>"
    let ?t = "t1\<lparr>em_net := ?net\<lparr>vn_sent := vn_sent (em_net m) @ (if ?pkt \<noteq> [] then [?pkt] else [])\<rparr>\<rparr>"
    have rest: "andthen (upd_queue TXQ (\<lambda>q. q\<lparr>nq_last_avail_idx := nq_last_avail_idx q + 1\<rparr>))
        (andthen (do_if (?pkt \<noteq> []) (platform_send ?pkt)) p) t1 = p ?t" for p :: "(Machine, unit) prog"
      using loaded_net [OF t1(2)] q Suc.prems(3)
      by (simp add: upd_queue_def upd_net_def platform_send_def prog_simps Let_def)
    have run: "tx_loop (Suc n) (bus_write32_at (Suc d)) i m = tx_loop n (bus_write32_at (Suc d)) i ?t"
      using False q head chain t1(1) unfolding slot_addr_def
      by (simp add: bnd_def andthen_def [of "push_used _ _ _ _"] get_queue_def get_net_def reads_def rest del: bus_write32_at.simps)
    have mem: "byte_at ?t = net_put ?u ?head 0 ?mem"
      using loaded_same(3) [OF t1(2)] by (simp add: byte_at_def fun_eq_iff dram_get_def)
    have agr: "agree ?W (byte_at ?t) ?mem" unfolding mem by (rule used_put_agree [OF netq.qsize])
    have slots: "slot_ok ?W (byte_at ?t) q p" "net_head (byte_at ?t) q p = net_head ?mem q p"
        "slot_frame (byte_at ?t) q p = slot_frame ?mem q p" if "p \<in> set (pending (?l + 1) i)" for p
      using slot_agree [OF agr] ok(2) that by (auto simp: list_all_iff)
    have same: "slot_ok W f ?q = slot_ok W f q" "net_head f ?q = net_head f q" "slot_frame f ?q = slot_frame f q" for W f
      by (simp_all add: fun_eq_iff slot_ok_def slot_head_def slot_frame_def slot_path_def slot_addr_def cong: option.case_cong)
    have "\<exists>t. tx_loop n (bus_write32_at (Suc d)) i ?t = Ok () t \<and> em_plic t = em_plic ?t
      \<and> em_net t = (em_net ?t)\<lparr>vn_queues := (vn_queues (em_net ?t))(TXQ := ?q\<lparr>nq_last_avail_idx := i\<rparr>),
          vn_sent := vn_sent (em_net ?t)
            @ filter (\<lambda>f. f \<noteq> []) (map (slot_frame (byte_at ?t) ?q) (pending (nq_last_avail_idx ?q) i))\<rparr>
      \<and> byte_at t = fold (\<lambda>p. net_put (nq_used_addr ?q) (net_head (byte_at ?t) ?q p) 0)
          (pending (nq_last_avail_idx ?q) i) (byte_at ?t)"
      using Suc.prems pend(2) slots(1) by (intro Suc.IH) (simp_all add: same list_all_iff)
    then obtain t where t: "tx_loop n (bus_write32_at (Suc d)) i ?t = Ok () t" "em_plic t = em_plic t1"
        "em_net t = (em_net ?t)\<lparr>vn_queues := (vn_queues (em_net ?t))(TXQ := q\<lparr>nq_last_avail_idx := i\<rparr>),
          vn_sent := vn_sent (em_net ?t)
            @ filter (\<lambda>f. f \<noteq> []) (map (slot_frame (byte_at ?t) q) (pending (?l + 1) i))\<rparr>"
        "byte_at t = fold (\<lambda>p. net_put ?u (net_head (byte_at ?t) q p) 0) (pending (?l + 1) i) (byte_at ?t)"
      by (auto simp: same)
    have frames: "map (slot_frame (byte_at ?t) q) (pending (?l + 1) i) = map (slot_frame ?mem q) (pending (?l + 1) i)"
      using slots(3) by simp
    have folds: "fold (\<lambda>p. net_put ?u (net_head (byte_at ?t) q p) 0) (pending (?l + 1) i) (byte_at ?t)
        = fold (\<lambda>p. net_put ?u (net_head ?mem q p) 0) (pending (?l + 1) i) (net_put ?u ?head 0 ?mem)"
      using slots(2) unfolding mem [symmetric] by (intro fold_cong) simp_all
    show ?thesis
      using t(1,2) t(3) [unfolded frames] t(4) [unfolded folds] loaded_same(2) [OF t1(2)]
      unfolding run pend(1) by (simp del: fun_upd_apply)
  qed
qed simp

lemma net_notify:
  "bus_write32_at (Suc d) (NET_BASE + VIRTIO_QUEUE_NOTIFY) (of_nat TXQ) m = net_locked (process_tx_queue (bus_write32_at d)) m"
  by (simp add: region_defs TOHOST_def net_write32_def net_write_locked_def virtio_offsets VIRTIO_QUEUE_DESC_LO_def
      VIRTIO_QUEUE_AVAIL_LO_def VIRTIO_QUEUE_USED_LO_def do_if_def)

text \<open>
  C39. A notification of the network device sends every frame that the driver has queued, once and in the order
  of the ring: the contents of each chain of descriptors without its header, whatever its number of buffers; each
  chain is returned in the used ring, nothing else in memory changes, and the interrupt is raised.
\<close>

theorem queued_frames_sent:
  assumes q: "q = vn_queues (em_net m) TXQ" and "\<not> queue_idle q" and "vn_backend (em_net m)"
    and "\<not> vn_locked (em_net m)" and "used_ok NET_QUEUE_SIZE (nq_used_addr q)" and "loadable (nq_avail_addr q + 2) 2"
    and ps: "ps = pending (nq_last_avail_idx q) (mem16 (byte_at m) (nq_avail_addr q + 2))"
    and ok: "list_all (slot_ok (net_used (nq_used_addr q)) (byte_at m) q) ps"
  shows "\<exists>t. bus_write32 (NET_BASE + VIRTIO_QUEUE_NOTIFY) (of_nat TXQ) m = Ok () t
    \<and> vn_sent (em_net t) = vn_sent (em_net m) @ filter (\<lambda>f. f \<noteq> []) (map (slot_frame (byte_at m) q) ps)
    \<and> byte_at t = fold (\<lambda>p. net_put (nq_used_addr q) (net_head (byte_at m) q p) 0) ps (byte_at m)
    \<and> nq_last_avail_idx (vn_queues (em_net t) TXQ) = mem16 (byte_at m) (nq_avail_addr q + 2)
    \<and> bit (vn_interrupt_status (em_net t)) 0 \<and> bit (pl_pending (em_plic t)) 2"
proof -
  define w where "w = bus_write32_at (Suc 6)"
  let ?i = "mem16 (byte_at m) (nq_avail_addr q + 2)"
  let ?m = "m\<lparr>em_net := (em_net m)\<lparr>vn_locked := True\<rparr>\<rparr>"
  have run: "bus_write32 (NET_BASE + VIRTIO_QUEUE_NOTIFY) (of_nat TXQ) m = net_locked (process_tx_queue w) m"
    unfolding bus_write32_def BUS_DEPTH_def using net_notify [of 7] by (simp add: w_def)
  have "unat (?i - nq_last_avail_idx q) < RING_FUEL"
    using unsigned_less [of "?i - nq_last_avail_idx q", where 'a = nat] by (simp add: RING_FUEL_def)
  with tx_loop_run [of q ?m ?i RING_FUEL 6, folded w_def] assms obtain t where t: "tx_loop RING_FUEL w ?i ?m = Ok () t"
      "em_plic t = em_plic m"
      "em_net t = (em_net ?m)\<lparr>vn_queues := (vn_queues (em_net m))(TXQ := q\<lparr>nq_last_avail_idx := ?i\<rparr>),
        vn_sent := vn_sent (em_net m) @ filter (\<lambda>f. f \<noteq> []) (map (slot_frame (byte_at m) q) ps)\<rparr>"
      "byte_at t = fold (\<lambda>p. net_put (nq_used_addr q) (net_head (byte_at m) q p) 0) ps (byte_at m)"
    by (auto simp del: fun_upd_apply)
  have idx: "bus_read16 (nq_avail_addr q + 2) ?m = Ok ?i ?m"
    using read_mem(1) [OF assms(6), of ?m] by simp
  have "process_tx_queue w ?m = net_raise t"
    using assms(2,3) t(1) idx q
    by (simp add: process_tx_queue_def get_queue_def get_net_def bnd_def andthen_def reads_def)
  moreover obtain u where u: "net_raise t = Ok () u" "em_net u = (em_net t)\<lparr>vn_interrupt_status := vn_interrupt_status (em_net t) OR 1\<rparr>"
      "bit (pl_pending (em_plic u)) 2" "byte_at u = byte_at t"
    by (simp add: net_raise_def upd_net_def raise_irq_def prog_simps set_pending_def NET_IRQ_def NUM_SOURCES_def bit_or_iff)
  ultimately have "bus_write32 (NET_BASE + VIRTIO_QUEUE_NOTIFY) (of_nat TXQ) m = Ok () (net_unlock u)"
    using assms(4) unfolding run by (simp add: net_locked_def)
  moreover have "em_plic (net_unlock u) = em_plic u" "byte_at (net_unlock u) = byte_at t"
      "em_net (net_unlock u) = (em_net u)\<lparr>vn_locked := False\<rparr>"
    using u(4) by (simp_all add: net_unlock_def)
  ultimately show ?thesis using t u by (simp add: bit_or_iff)
qed

text \<open>A frame of two bytes in two buffers.\<close>

definition tx_queue :: NetQueue where
  "tx_queue = \<lparr>nq_num = 64, nq_ready = 1, nq_desc_addr = 0x80004000, nq_avail_addr = 0x80003000,
     nq_used_addr = 0x80002000, nq_last_avail_idx = 0\<rparr>"

definition tx_demo :: Machine where
  "tx_demo = demo\<lparr>em_dram := (\<lambda>_. 0)(0x3002 := 1, 0x4001 := 0x50, 0x4003 := 0x80, 0x4008 := 13, 0x400C := 1,
       0x400E := 1, 0x4011 := 0x60, 0x4013 := 0x80, 0x4018 := 1, 0x500C := 0xAA, 0x6000 := 0xBB),
     em_net := (em_net demo)\<lparr>vn_queues := (\<lambda>_. tx_queue), vn_backend := True\<rparr>\<rparr>"

lemma tx_demo_mem:
  "byte_at tx_demo x = ((\<lambda>_. 0)(0x3002 := 1, 0x4001 := 0x50, 0x4003 := 0x80, 0x4008 := 13, 0x400C := 1, 0x400E := 1,
     0x4011 := 0x60, 0x4013 := 0x80, 0x4018 := 1, 0x500C := 0xAA, 0x6000 := 0xBB)) (dram_offset x)"
  by (simp add: byte_at_def dram_get_def tx_demo_def)

lemma tx_demo_desc:
  "buf_addr (byte_at tx_demo) 0x80004000 0 = 0x80005000" "buf_len (byte_at tx_demo) 0x80004000 0 = 13"
  "buf_more (byte_at tx_demo) 0x80004000 0" "buf_next (byte_at tx_demo) 0x80004000 0 = 1"
  "buf_addr (byte_at tx_demo) 0x80004000 1 = 0x80006000" "buf_len (byte_at tx_demo) 0x80004000 1 = 1"
  "\<not> buf_more (byte_at tx_demo) 0x80004000 1"
  by (simp_all add: buf_addr_def buf_len_def buf_more_def buf_next_def desc_at_def mem16_def mem32_def tx_demo_mem
      dram_offset_def DRAM_BASE_def le16_def le32_def VIRTQ_DESC_F_NEXT_def)

lemma tx_demo_slot:
  "net_head (byte_at tx_demo) tx_queue 0 = 0" "slot_path (byte_at tx_demo) tx_queue 0 = Some [0, 1]"
  "slot_frame (byte_at tx_demo) tx_queue 0 = [0xAA, 0xBB]" "slot_ok (net_used 0x80002000) (byte_at tx_demo) tx_queue 0"
proof -
  show h: "net_head (byte_at tx_demo) tx_queue 0 = 0"
    by (simp add: slot_head_def slot_addr_def tx_queue_def mem16_def tx_demo_mem dram_offset_def DRAM_BASE_def le16_def)
  have "path 2 (byte_at tx_demo) 0x80004000 0 = Some [0, 1]"
    by (simp add: numeral_2_eq_2 tx_demo_desc)
  then show p: "slot_path (byte_at tx_demo) tx_queue 0 = Some [0, 1]"
    unfolding slot_path_def h by (intro chain_fuel) (simp add: tx_queue_def)
  show "slot_frame (byte_at tx_demo) tx_queue 0 = [0xAA, 0xBB]"
    unfolding slot_frame_def p
    by (simp add: tx_queue_def buf_bytes_def tx_demo_desc bytes_of_def upt_rec tx_demo_mem dram_offset_def DRAM_BASE_def)
  show "slot_ok (net_used 0x80002000) (byte_at tx_demo) tx_queue 0"
    unfolding slot_ok_def p
    by (simp add: slot_addr_def tx_queue_def buf_clear_def desc_clear_def desc_at_def tx_demo_desc)
      (intro conjI disjI2 apart_used; simp add: loadable_def dram_fits_def dram_offset_def region_defs used_bytes_def
        NET_QUEUE_SIZE_def)
qed

theorem queued_frames_sent_witness:
  "\<exists>t. bus_write32 (NET_BASE + VIRTIO_QUEUE_NOTIFY) (of_nat TXQ) tx_demo = Ok () t
     \<and> vn_sent (em_net t) = [[0xAA, 0xBB]] \<and> bit (pl_pending (em_plic t)) 2"
proof -
  have q: "vn_queues (em_net tx_demo) TXQ = tx_queue" "vn_backend (em_net tx_demo)" "\<not> vn_locked (em_net tx_demo)"
      "vn_sent (em_net tx_demo) = []" "\<not> queue_idle tx_queue" "nq_used_addr tx_queue = 0x80002000"
      "nq_avail_addr tx_queue + 2 = 0x80003002" "nq_last_avail_idx tx_queue = 0"
    by (simp_all add: tx_demo_def demo_defs queue_idle_def tx_queue_def VirtioNet0_def)
  have l: "used_ok NET_QUEUE_SIZE 0x80002000" "loadable 0x80003002 2"
    by (simp_all add: used_okI loadable_def dram_fits_def dram_offset_def region_defs used_bytes_def NET_QUEUE_SIZE_def)
  have ps: "pending 0 (mem16 (byte_at tx_demo) 0x80003002) = [0]"
    by (simp add: pending_def mem16_def tx_demo_mem dram_offset_def DRAM_BASE_def le16_def)
  show ?thesis
    using queued_frames_sent [where m = tx_demo and q = tx_queue, OF _ _ _ _ _ _ refl] q l ps tx_demo_slot
    by auto
qed

end
