(* ===== verification/Receive.thy ===== *)
theory Receive
  imports Frames
begin

section \<open>Receiving a frame\<close>

text \<open>
  \<open>rx_inject\<close> scatters the header and the frame over the buffers of the next chain of the receive queue.
\<close>

unbundle bit_operations_syntax

subsection \<open>Scattering bytes\<close>

fun scatter :: "u32 list \<Rightarrow> u8 list \<Rightarrow> (u32 \<Rightarrow> u8) \<Rightarrow> u32 \<Rightarrow> u8" where
  "scatter (x # xs) (b # bs) mem = scatter xs bs (mem(x := b))"
| "scatter xs bs mem = mem"

lemma scatter_Nil: "scatter xs [] mem = mem"
  by (cases xs) simp_all

lemma scatter_other: "y \<notin> set (take (length bs) xs) \<Longrightarrow> scatter xs bs mem y = mem y"
  by (induction xs bs mem rule: scatter.induct) auto

lemma scatter_gather: "distinct xs \<Longrightarrow> map (scatter xs bs mem) (take (length bs) xs) = take (length xs) bs"
proof (induction xs bs mem rule: scatter.induct)
  case (1 x xs b bs mem)
  have "x \<notin> set (take (length bs) xs)" using 1(2) by (auto dest: in_set_takeD)
  then have "scatter xs bs (mem(x := b)) x = b" by (simp add: scatter_other)
  then show ?case using 1 by (simp del: fun_upd_apply)
qed simp_all

lemma scatter_append: "scatter (xs @ ys) bs mem = scatter ys (drop (length xs) bs) (scatter xs bs mem)"
  by (induction xs bs mem rule: scatter.induct) (simp_all add: scatter_Nil del: fun_upd_apply)

lemma scatter_put: "length bs \<le> n \<Longrightarrow> put_bytes x bs mem = scatter (map (\<lambda>i. x + of_nat i) [0..<n]) bs mem"
proof (induction bs arbitrary: x n mem)
  case Nil
  then show ?case by simp
next
  case (Cons b bs)
  then obtain k where k: "n = Suc k" "length bs \<le> k" by (cases n) simp_all
  have "map (\<lambda>i. x + of_nat i) [0..<n] = x # map (\<lambda>i. (x + 1) + of_nat i) [0..<k]"
    unfolding k(1) by (simp add: upt_conv_Cons map_Suc_upt [symmetric] add.assoc del: upt_Suc)
  then show ?case using Cons.IH [OF k(2), of "x + 1" "mem(x := b)"] by (simp del: fun_upd_apply)
qed

lemma scatter_take: "scatter xs (take (length xs) bs) mem = scatter xs bs mem"
  by (induction xs bs mem rule: scatter.induct) (simp_all del: fun_upd_apply)

lemma put_bytes_append: "put_bytes x (as @ bs) f = put_bytes (x + of_nat (length as)) bs (put_bytes x as f)"
  by (induction as arbitrary: x f) (simp_all add: add.assoc del: fun_upd_apply)

subsection \<open>The buffers of a chain\<close>

definition buf_addrs :: "(u32 \<Rightarrow> u8) \<Rightarrow> u32 \<Rightarrow> u16 \<Rightarrow> u32 list" where
  "buf_addrs mem base idx = map (\<lambda>i. buf_addr mem base idx + of_nat i) [0..<unat (buf_len mem base idx)]"

definition chain_addrs :: "(u32 \<Rightarrow> u8) \<Rightarrow> u32 \<Rightarrow> u16 list \<Rightarrow> u32 list" where
  "chain_addrs mem base is = concat (map (buf_addrs mem base) is)"

lemma length_buf_addrs: "length (buf_addrs mem base idx) = unat (buf_len mem base idx)"
  by (simp add: buf_addrs_def)

lemma scatter_buf:
  "scatter (buf_addrs mem base idx @ rest) bs f = scatter rest (drop (unat (buf_len mem base idx)) bs)
     (put_bytes (buf_addr mem base idx) (take (unat (buf_len mem base idx)) bs) f)"
proof -
  have "put_bytes (buf_addr mem base idx) (take (unat (buf_len mem base idx)) bs) f = scatter (buf_addrs mem base idx) bs f"
    using scatter_take [of "buf_addrs mem base idx" bs f]
    by (simp add: scatter_put [of _ "unat (buf_len mem base idx)"] length_buf_addrs flip: buf_addrs_def)
  then show ?thesis by (simp add: scatter_append length_buf_addrs)
qed

text \<open>A chain whose descriptors and buffers lie in main memory, the descriptors apart from the buffers.\<close>

definition rx_bufs_ok :: "(u32 \<Rightarrow> u8) \<Rightarrow> u32 \<Rightarrow> u32 set \<Rightarrow> u16 list \<Rightarrow> bool" where
  "rx_bufs_ok mem base W is \<longleftrightarrow> list_all (\<lambda>i. desc_clear W base i \<and> set (buf_addrs mem base i) \<subseteq> W
     \<and> (buf_len mem base i = 0 \<or> loadable (buf_addr mem base i) (unat (buf_len mem base i)))) is"

lemma write_buf:
  assumes "buf_len mem base i = 0 \<or> loadable (buf_addr mem base i) (unat (buf_len mem base i))"
    and "k + length bs \<le> unat (buf_len mem base i)"
  shows "\<exists>t. bus_write_bytes (buf_addr mem base i + of_nat k) bs m = Ok () t
    \<and> loaded m (put_bytes (buf_addr mem base i + of_nat k) bs (byte_at m)) t"
proof (rule write_bytes_run)
  show "bs = [] \<or> loadable (buf_addr mem base i + of_nat k) (length bs)"
    using assms loadable_part [of "buf_addr mem base i" "unat (buf_len mem base i)" k "length bs"] by fastforce
qed

lemma put_buf_agree:
  assumes "set (buf_addrs mem base i) \<subseteq> W" "k + length bs \<le> unat (buf_len mem base i)"
  shows "agree W (put_bytes (buf_addr mem base i + of_nat k) bs f) f"
proof (rule put_bytes_agree, intro allI impI)
  fix j assume "j < length bs"
  then have "buf_addr mem base i + of_nat k + of_nat j \<in> set (buf_addrs mem base i)"
    using assms(2) unfolding buf_addrs_def set_map by (intro image_eqI [where x = "k + j"]) (simp_all add: add.assoc)
  then show "buf_addr mem base i + of_nat k + of_nat j \<in> W" using assms(1) by blast
qed

text \<open>The buffers after the first.\<close>

lemma unat_frame: "n < 2 ^ 32 \<Longrightarrow> unat (of_nat n :: u32) = n"
  by (simp add: unsigned_of_nat take_bit_nat_eq_self)

definition rx_len :: "nat \<Rightarrow> nat \<Rightarrow> u32 \<Rightarrow> u32" where
  "rx_len n off d = (let offset = of_nat (12 + off) - NET_HDR_SIZE;
      remaining = (if of_nat n > offset then of_nat n - offset else 0)
    in if remaining < d then remaining else d)"

lemma rx_len:
  assumes "off \<le> n" "n + 12 < 2 ^ 32"
  shows "unat (rx_len n off d) = min (n - off) (unat d)" "unat (of_nat (12 + off) - NET_HDR_SIZE) = off"
proof -
  have o: "of_nat (12 + off) - NET_HDR_SIZE = (of_nat off :: u32)" by (simp add: NET_HDR_SIZE_def)
  have u: "unat (of_nat off :: u32) = off" "unat (of_nat n :: u32) = n" using assms by (simp_all add: unat_frame)
  show "unat (of_nat (12 + off) - NET_HDR_SIZE) = off" unfolding o by (rule u)
  have "unat (if of_nat n > (of_nat off :: u32) then of_nat n - of_nat off else 0 :: u32) = n - off"
    using u assms(1) by (auto simp: word_less_nat_alt unat_sub word_le_nat_alt)
  then show "unat (rx_len n off d) = min (n - off) (unat d)"
    unfolding rx_len_def Let_def o by (auto simp: word_less_nat_alt min_def)
qed

lemma rx_rest:
  assumes "path n mem base idx = Some is" "base = nq_desc_addr (vn_queues (em_net m) RXQ)"
    and "agree W (byte_at m) mem" "rx_bufs_ok mem base W is"
    and "off \<le> length frame" "length frame + 12 < 2 ^ 32"
  shows "\<exists>t. rx_chain n idx False (of_nat (12 + off)) frame m
      = Ok (of_nat (12 + min (length frame) (off + length (chain_addrs mem base is)))) t
    \<and> loaded m (scatter (chain_addrs mem base is) (drop off frame) (byte_at m)) t"
  using assms
proof (induction n arbitrary: idx "is" m off)
  case (Suc n)
  have "idx \<in> set is" using Suc.prems(1) by (auto split: if_splits)
  then have ok: "desc_clear W base idx" "set (buf_addrs mem base idx) \<subseteq> W"
      "buf_len mem base idx = 0 \<or> loadable (buf_addr mem base idx) (unat (buf_len mem base idx))"
    using Suc.prems(4) by (simp_all add: rx_bufs_ok_def list_all_iff)
  let ?d = "unat (buf_len mem base idx)" and ?copy = "rx_len (length frame) off (buf_len mem base idx)"
  note len = rx_len [OF Suc.prems(5,6)]
  let ?bs = "slice frame off (unat ?copy)" and ?off = "off + unat ?copy"
  have bs: "?bs = take ?d (drop off frame)" by (simp add: slice_def len(1)) (simp add: min_def)
  have l: "length ?bs = unat ?copy" "unat ?copy \<le> ?d" "?off \<le> length frame"
    using Suc.prems(5) len(1) [of "buf_len mem base idx"] by (simp_all add: slice_def)
  obtain a fl where d: "net_read_desc idx RXQ m = Ok (a, buf_len mem base idx, fl, buf_next mem base idx) m"
      "ucast a = buf_addr mem base idx" "fl AND VIRTQ_DESC_F_NEXT = 0 \<longleftrightarrow> \<not> buf_more mem base idx"
    using netq.desc_run [of W m RXQ idx mem, folded net_desc_reader] ok(1) Suc.prems(3) unfolding Suc.prems(2) by auto
  obtain t where t: "bus_write_bytes (buf_addr mem base idx) ?bs m = Ok () t"
      "loaded m (put_bytes (buf_addr mem base idx) ?bs (byte_at m)) t"
    using write_buf [OF ok(3), of 0 ?bs m] l by auto
  have w: "(of_nat (12 + off) :: u32) + ?copy = of_nat (12 + ?off)" by simp
  have run: "rx_chain (Suc n) idx False (of_nat (12 + off)) frame m = (if buf_more mem base idx
      then rx_chain n (buf_next mem base idx) False (of_nat (12 + ?off)) frame t else Ok (of_nat (12 + ?off)) t)"
  proof -
    have "(let len = of_nat (length frame); offset = of_nat (12 + off) - NET_HDR_SIZE;
          remaining = (if len > offset then len - offset else 0);
          copy = (if remaining < buf_len mem base idx then remaining else buf_len mem base idx) in
        andthen (bus_write_bytes (buf_addr mem base idx) (slice frame (unat offset) (unat copy)))
          (ret (of_nat (12 + off) + copy))) m = Ok (of_nat (12 + ?off)) t"
      unfolding w [symmetric] using t(1) len(2)
      by (simp only: Let_def rx_len_def [unfolded Let_def, symmetric]) (simp add: andthen_def bnd_def ret_def)
    then show ?thesis by (simp only: rx_chain.simps bnd_def d if_False prod.case result.case) (simp add: ret_def)
  qed
  have drop: "drop ?d (drop off frame) = drop ?off frame"
    using len(1) [of "buf_len mem base idx"] Suc.prems(5) by (auto simp: min_def add.commute)
  show ?case
  proof (cases "buf_more mem base idx")
    case True
    then obtain js where js: "path n mem base (buf_next mem base idx) = Some js" "is = idx # js"
      using Suc.prems(1) by auto
    have "agree W (put_bytes (buf_addr mem base idx) ?bs (byte_at m)) (byte_at m)"
      using put_buf_agree [OF ok(2), of 0 ?bs "byte_at m"] l by simp
    then have "agree W (byte_at t) mem"
      using Suc.prems(3) loaded_same(3) [OF t(2)] agree_trans by metis
    moreover have "base = nq_desc_addr (vn_queues (em_net t) RXQ)"
      using Suc.prems(2) loaded_net [OF t(2)] by simp
    ultimately obtain u where u: "rx_chain n (buf_next mem base idx) False (of_nat (12 + ?off)) frame t
        = Ok (of_nat (12 + min (length frame) (?off + length (chain_addrs mem base js)))) u"
        "loaded t (scatter (chain_addrs mem base js) (drop ?off frame) (byte_at t)) u"
      using Suc.IH [OF js(1), of t ?off] Suc.prems(4,6) l(3) unfolding js(2) by (auto simp: rx_bufs_ok_def)
    have "min (length frame) (?off + length (chain_addrs mem base js))
        = min (length frame) (off + length (chain_addrs mem base is))"
      using len(1) [of "buf_len mem base idx"] Suc.prems(5)
      by (simp add: js(2) chain_addrs_def length_buf_addrs)
    moreover have "scatter (chain_addrs mem base is) (drop off frame) (byte_at m)
        = scatter (chain_addrs mem base js) (drop ?off frame) (byte_at t)"
      using loaded_same(3) [OF t(2)] scatter_buf [of mem base idx "chain_addrs mem base js" "drop off frame"]
      by (simp add: js(2) chain_addrs_def bs drop [unfolded drop_drop])
    ultimately show ?thesis using u(1) loaded_trans [OF t(2) u(2)] True unfolding run by auto
  next
    case False
    then have js: "is = [idx]" using Suc.prems(1) by simp
    have "?off = min (length frame) (off + length (chain_addrs mem base is))"
      using len(1) [of "buf_len mem base idx"] Suc.prems(5) by (simp add: js chain_addrs_def length_buf_addrs)
    moreover have "scatter (chain_addrs mem base is) (drop off frame) (byte_at m)
        = put_bytes (buf_addr mem base idx) ?bs (byte_at m)"
      using scatter_buf [of mem base idx "[]" "drop off frame"] by (simp add: js chain_addrs_def bs)
    ultimately show ?thesis using t(2) False unfolding run by metis
  qed
qed simp

text \<open>The whole chain: the header goes in front of the frame.\<close>

lemma length_rx_header: "length rx_header = 12"
  by (simp add: rx_header_def)

lemma rx_chain_run:
  assumes "path n mem base idx = Some is" "base = nq_desc_addr (vn_queues (em_net m) RXQ)"
    and "byte_at m = mem" "rx_bufs_ok mem base W is" "12 \<le> unat (buf_len mem base idx)" "length frame + 12 < 2 ^ 32"
  shows "\<exists>t. rx_chain n idx True 0 frame m = Ok (of_nat (min (12 + length frame) (length (chain_addrs mem base is)))) t
    \<and> loaded m (scatter (chain_addrs mem base is) (rx_header @ frame) mem) t"
proof (cases n)
  case (Suc k)
  have "idx \<in> set is" using assms(1) Suc by (auto split: if_splits)
  then have ok: "desc_clear W base idx" "set (buf_addrs mem base idx) \<subseteq> W"
      "buf_len mem base idx = 0 \<or> loadable (buf_addr mem base idx) (unat (buf_len mem base idx))"
    using assms(4) by (simp_all add: rx_bufs_ok_def list_all_iff)
  let ?x = "buf_addr mem base idx" and ?d = "unat (buf_len mem base idx)" and ?n = "length frame"
  define copy where "copy = (if of_nat ?n < buf_len mem base idx - NET_HDR_SIZE then of_nat ?n else buf_len mem base idx - NET_HDR_SIZE)"
  have "unat (buf_len mem base idx - NET_HDR_SIZE) = ?d - 12"
    using assms(5) by (simp add: NET_HDR_SIZE_def unat_sub word_le_nat_alt)
  then have copy: "unat copy = min ?n (?d - 12)"
    using assms(6) by (auto simp: copy_def word_less_nat_alt unat_frame)
  let ?bs = "slice frame 0 (unat copy)"
  have bs: "?bs = take (?d - 12) frame" "length ?bs = unat copy" by (simp_all add: slice_def copy min_def)
  have fit: "12 + length ?bs \<le> ?d" unfolding bs(2) using copy assms(5) by simp
  have hdr: "take ?d rx_header = rx_header" using assms(5) by (simp add: length_rx_header)
  obtain a fl where d: "net_read_desc idx RXQ m = Ok (a, buf_len mem base idx, fl, buf_next mem base idx) m"
      "ucast a = ?x" "fl AND VIRTQ_DESC_F_NEXT = 0 \<longleftrightarrow> \<not> buf_more mem base idx"
    using netq.desc_run [of W m RXQ idx mem, folded net_desc_reader] ok(1) assms(3) agree_refl unfolding assms(2) by auto
  obtain t1 where t1: "bus_write_bytes ?x rx_header m = Ok () t1" "loaded m (put_bytes ?x rx_header mem) t1"
    using write_buf [OF ok(3), of 0 rx_header m] assms(3,5) by (auto simp: length_rx_header)
  obtain t where t: "bus_write_bytes (?x + NET_HDR_SIZE) ?bs t1 = Ok () t"
      "loaded t1 (put_bytes (?x + NET_HDR_SIZE) ?bs (byte_at t1)) t"
    using write_buf [OF ok(3) fit, of t1] by (auto simp: NET_HDR_SIZE_def)
  have whole: "put_bytes (?x + NET_HDR_SIZE) ?bs (put_bytes ?x rx_header f) = put_bytes ?x (take ?d (rx_header @ frame)) f" for f
    using put_bytes_append [of ?x rx_header ?bs f] assms(5) by (simp add: NET_HDR_SIZE_def bs(1) length_rx_header)
  have mt: "loaded m (put_bytes ?x (take ?d (rx_header @ frame)) mem) t"
    using loaded_trans [OF t1(2) t(2)] unfolding loaded_same(3) [OF t1(2)] whole .
  have w: "(0 :: u32) + NET_HDR_SIZE + copy = of_nat (12 + unat copy)" by (simp add: NET_HDR_SIZE_def)
  have run: "rx_chain (Suc k) idx True 0 frame m = (if buf_more mem base idx
      then rx_chain k (buf_next mem base idx) False (of_nat (12 + unat copy)) frame t else Ok (of_nat (12 + unat copy)) t)"
  proof -
    have "(let len = of_nat (length frame); space = buf_len mem base idx - NET_HDR_SIZE;
          copy = (if len < space then len else space) in
        andthen (bus_write_bytes ?x (take ?d rx_header))
          (andthen (bus_write_bytes (?x + NET_HDR_SIZE) (slice frame 0 (unat copy)))
            (ret (0 + NET_HDR_SIZE + copy)))) m = Ok (of_nat (12 + unat copy)) t"
      unfolding w [symmetric] hdr Let_def copy_def [symmetric]
      using t1(1) t(1) by (simp add: andthen_def bnd_def ret_def)
    then show ?thesis by (simp only: rx_chain.simps bnd_def d if_True prod.case result.case) (simp add: ret_def)
  qed
  have drop: "drop ?d (rx_header @ frame) = drop (unat copy) frame"
    using assms(5) by (simp add: length_rx_header copy min_def)
  show ?thesis
  proof (cases "buf_more mem base idx")
    case True
    then obtain js where js: "path k mem base (buf_next mem base idx) = Some js" "is = idx # js"
      using assms(1) Suc by auto
    have "agree W (put_bytes (?x + of_nat 0) (take ?d (rx_header @ frame)) mem) mem"
      by (rule put_buf_agree [OF ok(2)]) simp
    then have "agree W (byte_at t) mem" using loaded_same(3) [OF mt] by simp
    moreover have "base = nq_desc_addr (vn_queues (em_net t) RXQ)" using assms(2) loaded_net [OF mt] by simp
    ultimately obtain u where u: "rx_chain k (buf_next mem base idx) False (of_nat (12 + unat copy)) frame t
        = Ok (of_nat (12 + min ?n (unat copy + length (chain_addrs mem base js)))) u"
        "loaded t (scatter (chain_addrs mem base js) (drop (unat copy) frame) (byte_at t)) u"
      using rx_rest [OF js(1), of t W "unat copy" frame] assms(4,6) unfolding js(2) by (auto simp: rx_bufs_ok_def copy)
    have "12 + min ?n (unat copy + length (chain_addrs mem base js)) = min (12 + ?n) (length (chain_addrs mem base is))"
      using assms(5) by (simp add: js(2) chain_addrs_def length_buf_addrs copy)
    moreover have "scatter (chain_addrs mem base is) (rx_header @ frame) mem
        = scatter (chain_addrs mem base js) (drop (unat copy) frame) (byte_at t)"
      using scatter_buf [of mem base idx "chain_addrs mem base js" "rx_header @ frame" mem]
      unfolding drop loaded_same(3) [OF mt] by (simp add: js(2) chain_addrs_def)
    ultimately show ?thesis using u(1) loaded_trans [OF mt u(2)] True unfolding Suc run by auto
  next
    case False
    then have js: "is = [idx]" using assms(1) Suc by simp
    have "12 + unat copy = min (12 + ?n) (length (chain_addrs mem base is))"
      using assms(5) by (simp add: js chain_addrs_def length_buf_addrs copy)
    moreover have "scatter (chain_addrs mem base is) (rx_header @ frame) mem = put_bytes ?x (take ?d (rx_header @ frame)) mem"
      using scatter_buf [of mem base idx "[]" "rx_header @ frame" mem] by (simp add: js chain_addrs_def)
    ultimately show ?thesis using mt False unfolding Suc run by metis
  qed
qed (use assms(1) in simp)

subsection \<open>The frame in memory\<close>

text \<open>
  The receive queue is configured and has a buffer: a chain \<open>is\<close> whose descriptors and buffers lie in main
  memory, the buffers disjoint from each other, from the descriptors and from the used ring, the first with room
  for the header.
\<close>

definition rx_ready :: "Machine \<Rightarrow> u16 list \<Rightarrow> bool" where
  "rx_ready m is \<longleftrightarrow> (let q = vn_queues (em_net m) RXQ; mem = byte_at m; l = nq_last_avail_idx q;
       xs = chain_addrs mem (nq_desc_addr q) is in
     \<not> vn_locked (em_net m) \<and> \<not> queue_idle q \<and> used_ok NET_QUEUE_SIZE (nq_used_addr q) \<and> loadable (nq_avail_addr q + 2) 2
     \<and> mem16 mem (nq_avail_addr q + 2) \<noteq> l \<and> loadable (net_slot q l) 2 \<and> slot_path mem q l = Some is
     \<and> rx_bufs_ok mem (nq_desc_addr q) (set xs) is \<and> distinct xs \<and> set xs \<inter> net_used (nq_used_addr q) = {}
     \<and> 12 \<le> unat (buf_len mem (nq_desc_addr q) (net_head mem q l)))"

text \<open>The end of a reception, and what can then be read from the buffers.\<close>

lemma rx_end:
  "\<exists>u. andthen (upd_queue RXQ (\<lambda>q. q\<lparr>nq_last_avail_idx := nq_last_avail_idx q + 1\<rparr>)) net_raise m = Ok () u
    \<and> nq_last_avail_idx (vn_queues (em_net u) RXQ) = nq_last_avail_idx (vn_queues (em_net m) RXQ) + 1
    \<and> bit (vn_interrupt_status (em_net u)) 0 \<and> bit (pl_pending (em_plic u)) 2 \<and> byte_at u = byte_at m"
  by (simp add: net_raise_def upd_queue_def upd_net_def raise_irq_def prog_simps set_pending_def NET_IRQ_def
      NUM_SOURCES_def bit_or_iff)

lemma gather_frame:
  assumes "distinct xs" "set xs \<inter> net_used u = {}" and w: "w = min (12 + length frame) (length xs)"
  shows "map (net_put u head len (scatter xs (rx_header @ frame) mem)) (take w xs) = take w (rx_header @ frame)"
    (is "map (net_put u head len ?s) _ = _")
proof -
  have "net_put u head len ?s y = ?s y" if "y \<in> set (take w xs)" for y
  proof -
    have "y \<notin> net_used u" using that assms(2) by (auto dest: in_set_takeD)
    then show ?thesis using used_put_agree [OF netq.qsize, of u] unfolding agree_def by blast
  qed
  then have "map (net_put u head len ?s) (take w xs) = map ?s (take w xs)"
    by (intro map_cong refl)
  moreover have "take w xs = take w (take (length (rx_header @ frame)) xs)"
    by (simp add: w length_rx_header)
  ultimately have "map (net_put u head len ?s) (take w xs) = take w (map ?s (take (length (rx_header @ frame)) xs))"
    by (simp only: take_map)
  moreover have "min w (length xs) = w" by (simp add: w)
  ultimately show ?thesis using scatter_gather [OF assms(1), of "rx_header @ frame" mem] by (simp only: take_take)
qed

text \<open>
  C40. A frame from the network reaches the guest: the bytes of the buffers of the next chain, taken in order,
  are the header and then the frame, cut off only where the buffers end; the used ring returns the chain with the
  number of bytes written; nothing else in memory changes; and the interrupt is raised.
\<close>

theorem frame_received:
  assumes ready: "rx_ready m is" and len: "length frame + 12 < 2 ^ 32"
    and q: "q = vn_queues (em_net m) RXQ" and xs: "xs = chain_addrs (byte_at m) (nq_desc_addr q) is"
    and w: "w = min (12 + length frame) (length xs)"
  shows "\<exists>t. rx_inject frame m = Ok () t \<and> map (byte_at t) (take w xs) = take w (rx_header @ frame)
    \<and> byte_at t = net_put (nq_used_addr q) (net_head (byte_at m) q (nq_last_avail_idx q)) (of_nat w)
        (scatter xs (rx_header @ frame) (byte_at m))
    \<and> nq_last_avail_idx (vn_queues (em_net t) RXQ) = nq_last_avail_idx q + 1
    \<and> bit (vn_interrupt_status (em_net t)) 0 \<and> bit (pl_pending (em_plic t)) 2"
proof -
  let ?l = "nq_last_avail_idx q" and ?mem = "byte_at m" and ?u = "nq_used_addr q" and ?b = "nq_desc_addr q"
  let ?head = "net_head ?mem q ?l"
  have r: "\<not> vn_locked (em_net m)" "\<not> queue_idle q" "used_ok NET_QUEUE_SIZE ?u" "loadable (nq_avail_addr q + 2) 2"
      "mem16 ?mem (nq_avail_addr q + 2) \<noteq> ?l" "loadable (net_slot q ?l) 2" "path CHAIN_FUEL ?mem ?b ?head = Some is"
      "rx_bufs_ok ?mem ?b (set xs) is" "distinct xs" "set xs \<inter> net_used ?u = {}" "12 \<le> unat (buf_len ?mem ?b ?head)"
    using ready unfolding rx_ready_def Let_def q [symmetric] xs [symmetric] by (simp_all add: slot_path_def)
  let ?m = "m\<lparr>em_net := (em_net m)\<lparr>vn_locked := True\<rparr>\<rparr>"
  have reads: "bus_read16 (nq_avail_addr q + 2) ?m = Ok (mem16 ?mem (nq_avail_addr q + 2)) ?m"
      "bus_read16 (net_slot q ?l) ?m = Ok ?head ?m"
    using read_mem(1) [OF r(4), of ?m] read_mem(1) [OF r(6), of ?m] by (simp_all add: slot_head_def)
  have base: "nq_desc_addr q = nq_desc_addr (vn_queues (em_net ?m) RXQ)" using q by simp
  obtain t1 where t1: "rx_chain CHAIN_FUEL ?head True 0 frame ?m = Ok (of_nat w) t1"
      "loaded ?m (scatter xs (rx_header @ frame) ?mem) t1"
    using rx_chain_run [OF r(7) base _ r(8,11) len] unfolding w xs by auto
  have net1: "em_net t1 = em_net ?m" by (rule loaded_net [OF t1(2)])
  have used: "used_ok NET_QUEUE_SIZE (nq_used_addr (vn_queues (em_net t1) RXQ))" using r(3) q net1 by simp
  define w32 where "w32 = bus_write32_at (Suc 7)"
  obtain t2 where t2: "push_used w32 RXQ ?head (of_nat w) t1 = Ok () t2"
      "loaded t1 (net_put ?u ?head (of_nat w) (byte_at t1)) t2"
    using push_used_run [OF used, of 7 ?head "of_nat w", folded w32_def] net1 q by auto
  let ?put = "net_put ?u ?head (of_nat w) (scatter xs (rx_header @ frame) ?mem)"
  have mem2: "byte_at t2 = ?put" using loaded_same(3) [OF t2(2)] loaded_same(3) [OF t1(2)] by simp
  have net2: "em_net t2 = em_net ?m" using loaded_net [OF t2(2)] net1 by simp
  obtain u where u: "andthen (upd_queue RXQ (\<lambda>q. q\<lparr>nq_last_avail_idx := nq_last_avail_idx q + 1\<rparr>)) net_raise t2 = Ok () u"
      "nq_last_avail_idx (vn_queues (em_net u) RXQ) = ?l + 1" "bit (vn_interrupt_status (em_net u)) 0"
      "bit (pl_pending (em_plic u)) 2" "byte_at u = ?put"
    using rx_end [of t2] q mem2 net2 by auto
  have "rx_inject_locked w32 frame ?m = Ok () u"
    using r(2,5) reads t1(1) t2(1) u(1) q unfolding slot_addr_def
    by (simp add: rx_inject_locked_def get_queue_def get_net_def bnd_def andthen_def [of "push_used _ _ _ _"] reads_def)
  then have "rx_inject frame m = Ok () (net_unlock u)"
    using r(1) by (simp add: rx_inject_def rx_inject_with_def net_locked_def bus_write32_def BUS_DEPTH_def w32_def)
  moreover have "em_plic (net_unlock u) = em_plic u" "byte_at (net_unlock u) = ?put"
      "em_net (net_unlock u) = (em_net u)\<lparr>vn_locked := False\<rparr>"
    using u(5) by (simp_all add: net_unlock_def)
  moreover have "map ?put (take w xs) = take w (rx_header @ frame)"
    by (rule gather_frame [OF r(9,10) w])
  ultimately show ?thesis using u(2,3,4) by simp
qed

text \<open>A frame of two bytes that arrives in two buffers of thirteen bytes and of one.\<close>

lemma demo_addrs:
  "chain_addrs (byte_at tx_demo) 0x80004000 [0, 1] = map (\<lambda>i. 0x80005000 + of_nat i) [0..<13] @ [0x80006000]"
  by (simp add: chain_addrs_def buf_addrs_def tx_demo_desc)

lemma rx_demo_ready: "rx_ready tx_demo [0, 1]"
proof -
  let ?mem = "byte_at tx_demo"
  have q: "vn_queues (em_net tx_demo) RXQ = tx_queue" "\<not> vn_locked (em_net tx_demo)" "\<not> queue_idle tx_queue"
      "nq_used_addr tx_queue = 0x80002000" "nq_avail_addr tx_queue + 2 = 0x80003002" "nq_last_avail_idx tx_queue = 0"
      "nq_desc_addr tx_queue = 0x80004000" "net_slot tx_queue 0 = 0x80003004"
    by (simp_all add: tx_demo_def demo_defs queue_idle_def tx_queue_def VirtioNet0_def slot_addr_def)
  define xs where "xs = chain_addrs ?mem 0x80004000 [0, 1]"
  have xs: "xs = map (\<lambda>i. 0x80005000 + of_nat i) [0..<13] @ [0x80006000]" by (simp add: xs_def demo_addrs)
  have off: "0x5000 \<le> dram_offset y" if "y \<in> set xs" for y
    using that unfolding xs by (auto simp: upt_rec dram_offset_def DRAM_BASE_def)
  have dram_at: "dram_offset 0x80004000 = 0x4000" "dram_offset 0x80004010 = 0x4010"
    by (simp_all add: dram_offset_def DRAM_BASE_def)
  have o: "\<forall>y \<in> set xs. n \<le> dram_offset y" if "n \<le> 0x5000" for n
    using off that le_trans by blast
  have "dram_offset y < 0x3000" if y: "y \<in> net_used 0x80002000" for y
  proof -
    obtain i where "i < used_bytes NET_QUEUE_SIZE" "y = 0x80002000 + of_nat i" using y unfolding used_set_def by blast
    then show ?thesis
      using loadable_add(1) [of "0x80002000" "used_bytes NET_QUEUE_SIZE" i]
      by (simp add: loadable_def dram_fits_def dram_offset_def region_defs used_bytes_def NET_QUEUE_SIZE_def)
  qed
  then have used: "set xs \<inter> net_used 0x80002000 = {}" using off by fastforce
  have "apart (set xs) 0x80004000 16" "apart (set xs) 0x80004010 16"
    by (rule apart_below; use o in \<open>simp add: loadable_def dram_fits_def region_defs dram_at\<close>)+
  then have bufs: "rx_bufs_ok ?mem 0x80004000 (set xs) [0, 1]"
    by (auto simp: xs_def rx_bufs_ok_def desc_clear_def desc_at_def tx_demo_desc chain_addrs_def loadable_def dram_fits_def
        dram_offset_def region_defs)
  have l: "used_ok NET_QUEUE_SIZE 0x80002000" "loadable 0x80003002 2" "loadable 0x80003004 2"
    by (simp_all add: used_okI loadable_def dram_fits_def dram_offset_def region_defs used_bytes_def NET_QUEUE_SIZE_def)
  have i: "mem16 ?mem 0x80003002 \<noteq> 0"
    by (simp add: mem16_def tx_demo_mem dram_offset_def DRAM_BASE_def le16_def)
  have "distinct xs" by (simp add: xs upt_rec)
  then show ?thesis
    unfolding rx_ready_def Let_def q xs_def [symmetric] tx_demo_slot(1,2) tx_demo_desc using q l i used bufs by simp
qed

theorem frame_received_witness:
  "\<exists>t. rx_inject [0xCC, 0xDD] tx_demo = Ok () t \<and> byte_at t 0x8000500C = 0xCC \<and> byte_at t 0x80006000 = 0xDD
     \<and> bit (pl_pending (em_plic t)) 2"
proof -
  let ?xs = "map (\<lambda>i. 0x80005000 + of_nat i) [0..<13] @ [0x80006000] :: u32 list"
  have "nq_desc_addr (vn_queues (em_net tx_demo) RXQ) = 0x80004000" by (simp add: tx_demo_def tx_queue_def)
  then obtain t where t: "rx_inject [0xCC, 0xDD] tx_demo = Ok () t" "bit (pl_pending (em_plic t)) 2"
      "map (byte_at t) (take 14 ?xs) = take 14 (rx_header @ [0xCC, 0xDD])"
    using frame_received [OF rx_demo_ready, of "[0xCC, 0xDD]", OF _ refl refl refl] by (auto simp: demo_addrs)
  have "map (byte_at t) (take 14 ?xs) ! 12 = byte_at t 0x8000500C" "map (byte_at t) (take 14 ?xs) ! 13 = byte_at t 0x80006000"
    by (simp_all add: upt_rec)
  then show ?thesis using t(1,2) unfolding t(3) by (simp add: rx_header_def)
qed

end
