(* ===== verification/NetBackend.thy ===== *)
theory NetBackend
  imports Bus
begin

section \<open>The network backend\<close>

text \<open>
  src/devices/virtio_net/virtio_net_slirp.cpp. The user-mode network stack (libslirp) and
  \<open>poll\<close> are libraries: their functions are the record \<open>Library\<close>, programs on the state of the poll
  thread, which may call the callbacks defined here. The POSIX variants of the wake-up pipe are
  modelled: it is the number of bytes waiting in it.
\<close>

unbundle bit_operations_syntax

subsection \<open>State\<close>

text \<open>
  A timer: the callback it was created with (a number stands for the function and its argument),
  and when it expires in milliseconds, \<open>-1\<close> when it is not armed. Timers are allocated on the heap;
  an access to one that was freed is undefined.
\<close>

record SlirpTimer =
  tm_cb :: nat
  tm_expire :: int

record SlirpState =
  ss_timers :: "nat list"
  ss_heap :: "nat \<Rightarrow> SlirpTimer option"
  ss_fresh :: nat
  ss_tx_queue :: "u8 list list"
  ss_wakeup_r :: int
  ss_pipe :: nat
  ss_running :: bool

definition SlirpState0 :: SlirpState where
  "SlirpState0 = \<lparr>ss_timers = [], ss_heap = (\<lambda>_. None), ss_fresh = 0, ss_tx_queue = [], ss_wakeup_r = - 1,
     ss_pipe = 0, ss_running = False\<rparr>"

text \<open>What the poll thread works on; \<open>bk_lib\<close> is the state of the library.\<close>

record 'l Backend =
  bk_machine :: Machine
  bk_state :: SlirpState
  bk_lib :: 'l

record sys_pollfd =
  pfd_fd :: int
  pfd_events :: u16
  pfd_revents :: u16

definition upd_state :: "(SlirpState \<Rightarrow> SlirpState) \<Rightarrow> ('l Backend, unit) prog" where
  "upd_state f = updates (\<lambda>b. b\<lparr>bk_state := f (bk_state b)\<rparr>)"

definition get_state :: "(SlirpState \<Rightarrow> 'a) \<Rightarrow> ('l Backend, 'a) prog" where
  "get_state f = reads (\<lambda>b. f (bk_state b))"

definition in_machine :: "(Machine, 'a) prog \<Rightarrow> ('l Backend, 'a) prog" where
  "in_machine p = (\<lambda>b. case p (bk_machine b) of
       Ok a m \<Rightarrow> Ok a (b\<lparr>bk_machine := m\<rparr>)
     | Raise e m \<Rightarrow> Raise e (b\<lparr>bk_machine := m\<rparr>)
     | Undefined \<Rightarrow> Undefined
     | NoFuel \<Rightarrow> NoFuel)"

text \<open>
  The libraries. \<open>lb_flags\<close> lists the event flags of libslirp with those of the system, in the order
  IN, OUT, PRI, ERR, HUP; \<open>lb_fill\<close> answers the sockets to poll, with their events, and the timeout.
\<close>

record 'l Library =
  lb_flags :: "(u32 \<times> u16) list"
  lb_clock_ms :: "('l Backend, int) prog"
  lb_fill :: "u32 \<Rightarrow> ('l Backend, (int \<times> u32) list \<times> u32) prog"
  lb_poll :: "sys_pollfd list \<Rightarrow> u32 \<Rightarrow> ('l Backend, int \<times> sys_pollfd list) prog"
  lb_input :: "u8 list \<Rightarrow> ('l Backend, unit) prog"
  lb_pollfds_poll :: "bool \<Rightarrow> (int \<Rightarrow> u32) \<Rightarrow> ('l Backend, unit) prog"
  lb_fire :: "nat \<Rightarrow> ('l Backend, unit) prog"

subsection \<open>Event flags\<close>

fun slirp_to_sys :: "(u32 \<times> u16) list \<Rightarrow> u32 \<Rightarrow> u16" where
  "slirp_to_sys [] ev = 0"
| "slirp_to_sys ((s, y) # flags) ev = (if ev AND s \<noteq> 0 then y else 0) OR slirp_to_sys flags ev"

fun sys_to_slirp :: "(u32 \<times> u16) list \<Rightarrow> u16 \<Rightarrow> u32" where
  "sys_to_slirp [] revents = 0"
| "sys_to_slirp ((s, y) # flags) revents =
     (if revents AND y \<noteq> 0 then s else 0) OR sys_to_slirp flags revents"

subsection \<open>Timers\<close>

definition timer_at :: "nat \<Rightarrow> ('l Backend, SlirpTimer) prog" where
  "timer_at t = bnd (get_state (\<lambda>s. ss_heap s t)) defined"

definition set_expire :: "nat \<Rightarrow> int \<Rightarrow> ('l Backend, unit) prog" where
  "set_expire t ms = bnd (timer_at t) (\<lambda>tm.
     upd_state (\<lambda>s. s\<lparr>ss_heap := (ss_heap s)(t := Some (tm\<lparr>tm_expire := ms\<rparr>))\<rparr>))"

definition shrink_timeout :: "int \<Rightarrow> int \<Rightarrow> u32 \<Rightarrow> u32" where
  "shrink_timeout now expire timeout =
    (if expire = - 1 then timeout
     else let diff = expire - now; diff = (if diff < 0 then 0 else diff) in
       if (word_of_int diff :: u32) < timeout then word_of_int diff else timeout)"

fun shrink_timeouts :: "int \<Rightarrow> nat list \<Rightarrow> u32 \<Rightarrow> ('l Backend, u32) prog" where
  "shrink_timeouts now [] timeout = ret timeout"
| "shrink_timeouts now (t # ts) timeout =
     bnd (timer_at t) (\<lambda>tm. shrink_timeouts now ts (shrink_timeout now (tm_expire tm) timeout))"

definition update_ra_timeout :: "'l Library \<Rightarrow> u32 \<Rightarrow> ('l Backend, u32) prog" where
  "update_ra_timeout L timeout =
    bnd (lb_clock_ms L) (\<lambda>now.
    bnd (get_state ss_timers) (\<lambda>timers. shrink_timeouts now timers timeout))"

text \<open>The loop runs over a copy of the list: a callback may change the list itself.\<close>

fun fire_timers :: "'l Library \<Rightarrow> int \<Rightarrow> nat list \<Rightarrow> ('l Backend, unit) prog" where
  "fire_timers L now [] = ret ()"
| "fire_timers L now (t # ts) =
    bnd (timer_at t) (\<lambda>tm.
    andthen (do_if (tm_expire tm \<noteq> - 1 \<and> tm_expire tm - now \<le> 0)
        (andthen (set_expire t (- 1)) (lb_fire L (tm_cb tm))))
      (fire_timers L now ts))"

definition check_ra_timeout :: "'l Library \<Rightarrow> ('l Backend, unit) prog" where
  "check_ra_timeout L =
    bnd (lb_clock_ms L) (\<lambda>now.
    bnd (get_state ss_timers) (\<lambda>snapshot. fire_timers L now snapshot))"

subsection \<open>Callbacks\<close>

definition cb_send_packet :: "u8 list \<Rightarrow> ('l Backend, nat) prog" where
  "cb_send_packet pkt = andthen (in_machine (rx_inject pkt)) (ret (length pkt))"

definition cb_timer_new :: "nat \<Rightarrow> ('l Backend, nat) prog" where
  "cb_timer_new cb = bnd (get_state ss_fresh) (\<lambda>t.
     andthen (upd_state (\<lambda>s. s\<lparr>ss_fresh := t + 1,
         ss_heap := (ss_heap s)(t := Some \<lparr>tm_cb = cb, tm_expire = - 1\<rparr>),
         ss_timers := ss_timers s @ [t]\<rparr>))
       (ret t))"

definition cb_timer_free :: "nat \<Rightarrow> ('l Backend, unit) prog" where
  "cb_timer_free t = upd_state (\<lambda>s. s\<lparr>ss_timers := removeAll t (ss_timers s),
     ss_heap := (ss_heap s)(t := None)\<rparr>)"

definition cb_timer_mod :: "nat \<Rightarrow> int \<Rightarrow> ('l Backend, unit) prog" where
  "cb_timer_mod t expire_ms = set_expire t expire_ms"

definition wakeup_write :: "SlirpState \<Rightarrow> SlirpState" where
  "wakeup_write s = s\<lparr>ss_pipe := ss_pipe s + 1\<rparr>"

definition wakeup_drain :: "SlirpState \<Rightarrow> SlirpState" where
  "wakeup_drain s = s\<lparr>ss_pipe := ss_pipe s - 1\<rparr>"

definition cb_notify :: "('l Backend, unit) prog" where
  "cb_notify = upd_state wakeup_write"

subsection \<open>The poll thread\<close>

definition swap_queue :: "('l Backend, u8 list list) prog" where
  "swap_queue = bnd (get_state ss_tx_queue) (\<lambda>local.
     andthen (upd_state (\<lambda>s. s\<lparr>ss_tx_queue := []\<rparr>)) (ret local))"

fun input_frames :: "'l Library \<Rightarrow> u8 list list \<Rightarrow> ('l Backend, unit) prog" where
  "input_frames L [] = ret ()"
| "input_frames L (frame # frames) = andthen (lb_input L frame) (input_frames L frames)"

text \<open>The answer is \<open>had_tx\<close>.\<close>

definition drain_tx :: "'l Library \<Rightarrow> ('l Backend, bool) prog" where
  "drain_tx L =
    andthen (upd_state wakeup_drain)
    (bnd swap_queue (\<lambda>local. andthen (input_frames L local) (ret (local \<noteq> []))))"

definition sys_flag_in :: "'l Library \<Rightarrow> u16" where
  "sys_flag_in L = snd (hd (lb_flags L))"

definition get_revents :: "'l Library \<Rightarrow> sys_pollfd list \<Rightarrow> int \<Rightarrow> u32" where
  "get_revents L pfds idx =
    (if idx < 0 \<or> idx \<ge> int (length pfds) then 0
     else sys_to_slirp (lb_flags L) (pfd_revents (pfds ! nat idx)))"

definition poll_set :: "'l Library \<Rightarrow> int \<Rightarrow> (int \<times> u32) list \<Rightarrow> sys_pollfd list" where
  "poll_set L wakeup_r socks =
    \<lparr>pfd_fd = wakeup_r, pfd_events = sys_flag_in L, pfd_revents = 0\<rparr>
    # map (\<lambda>(sock, ev). \<lparr>pfd_fd = sock, pfd_events = slirp_to_sys (lb_flags L) ev, pfd_revents = 0\<rparr>) socks"

text \<open>One iteration of the loop of \<open>poll_thread_func\<close>.\<close>

definition poll_iteration :: "'l Library \<Rightarrow> ('l Backend, unit) prog" where
  "poll_iteration L =
    bnd (lb_fill L 10) (\<lambda>(socks, timeout_ms).
    bnd (update_ra_timeout L timeout_ms) (\<lambda>timeout_ms.
    bnd (get_state ss_wakeup_r) (\<lambda>wakeup_r.
    bnd (lb_poll L (poll_set L wakeup_r socks) timeout_ms) (\<lambda>(pollrc, pfds).
    bnd (if pfds \<noteq> [] \<and> pfd_revents (pfds ! 0) AND sys_flag_in L \<noteq> 0 then drain_tx L else ret False) (\<lambda>had_tx.
    andthen (lb_pollfds_poll L (had_tx \<or> pollrc \<le> 0) (get_revents L pfds))
      (check_ra_timeout L))))))"

text \<open>The thread for as long as it runs, at most \<open>n\<close> iterations; \<open>False\<close> says that it still runs.\<close>

fun poll_thread :: "nat \<Rightarrow> 'l Library \<Rightarrow> ('l Backend, bool) prog" where
  "poll_thread n L = bnd (get_state ss_running) (\<lambda>running.
     if \<not> running then ret True
     else (case n of 0 \<Rightarrow> ret False | Suc k \<Rightarrow> andthen (poll_iteration L) (poll_thread k L)))"

declare poll_thread.simps [simp del]

subsection \<open>Sending, and starting the backend\<close>

text \<open>
  \<open>VirtioNet::platform_send\<close> on the side of the backend; \<open>platform_send\<close> of the device model keeps
  the list of all frames sent.
\<close>

definition enqueue_frame :: "u8 list \<Rightarrow> SlirpState \<Rightarrow> SlirpState" where
  "enqueue_frame frame s = s\<lparr>ss_tx_queue := ss_tx_queue s @ [frame]\<rparr>"

definition backend_send :: "u8 list \<Rightarrow> ('l Backend, unit) prog" where
  "backend_send frame = bnd (in_machine (get_net vn_backend)) (\<lambda>backend.
     do_if backend (andthen (upd_state (enqueue_frame frame)) (upd_state wakeup_write)))"

text \<open>The configuration; \<open>version_max\<close> is the newest version the library was built with.\<close>

record SlirpConfig =
  sc_version :: nat
  sc_restricted :: bool
  sc_in_enabled :: bool
  sc_in6_enabled :: bool
  sc_vnetwork :: "nat list"
  sc_vnetmask :: "nat list"
  sc_vhost :: "nat list"
  sc_vdhcp_start :: "nat list"
  sc_vnameserver :: "nat list"
  sc_if_mtu :: nat
  sc_if_mru :: nat
  sc_disable_host_loopback :: bool
  sc_enable_emu :: bool

definition config_version :: "nat \<Rightarrow> nat" where
  "config_version version_max = (if version_max \<ge> 6 then 6 else if version_max \<ge> 5 then 5
     else if version_max \<ge> 4 then 4 else if version_max \<ge> 2 then 2 else 1)"

definition slirp_config :: "nat \<Rightarrow> SlirpConfig" where
  "slirp_config version_max = \<lparr>sc_version = config_version version_max, sc_restricted = False,
     sc_in_enabled = True, sc_in6_enabled = False,
     sc_vnetwork = [10, 0, 2, 0], sc_vnetmask = [255, 255, 255, 0], sc_vhost = [10, 0, 2, 2],
     sc_vdhcp_start = [10, 0, 2, 15], sc_vnameserver = [10, 0, 2, 3],
     sc_if_mtu = 1500, sc_if_mru = 1500, sc_disable_host_loopback = False, sc_enable_emu = False\<rparr>"

text \<open>
  \<open>VirtioNet::init\<close>: \<open>pipe\<close> is the read end of the pipe, if it can be created, and \<open>create\<close> is \<open>slirp_new\<close>, which may
  fail.
\<close>

definition backend_init :: "int option \<Rightarrow> (SlirpConfig \<Rightarrow> ('l Backend, bool) prog) \<Rightarrow> nat \<Rightarrow> ('l Backend, unit) prog" where
  "backend_init pipe create version_max = (case pipe of
       None \<Rightarrow> throw (RuntimeError ''[virtio-net] failed to create wakeup pipe'')
     | Some wakeup_r \<Rightarrow>
       andthen (upd_state (\<lambda>_. SlirpState0\<lparr>ss_wakeup_r := wakeup_r\<rparr>))
       (bnd (create (slirp_config version_max)) (\<lambda>ok.
        if \<not> ok then throw (RuntimeError ''[virtio-net] slirp_new() failed'')
        else andthen (in_machine (upd_net (\<lambda>n. n\<lparr>vn_backend := True\<rparr>)))
          (upd_state (\<lambda>s. s\<lparr>ss_running := True\<rparr>)))))"

subsection \<open>Timers\<close>

definition armed :: "SlirpState \<Rightarrow> nat \<Rightarrow> int \<Rightarrow> bool" where
  "armed s t ms \<longleftrightarrow> (\<exists>tm. ss_heap s t = Some tm \<and> tm_expire tm = ms \<and> ms \<noteq> - 1)"

definition due :: "int \<Rightarrow> SlirpState \<Rightarrow> nat \<Rightarrow> bool" where
  "due now s t \<longleftrightarrow> (\<exists>ms. armed s t ms \<and> ms \<le> now)"

definition cb_of :: "SlirpState \<Rightarrow> nat \<Rightarrow> nat" where
  "cb_of s t = tm_cb (the (ss_heap s t))"

text \<open>The state after the timers in \<open>ts\<close> that are due have been disarmed.\<close>

definition disarm :: "int \<Rightarrow> nat list \<Rightarrow> SlirpState \<Rightarrow> SlirpState" where
  "disarm now ts s = s\<lparr>ss_heap := (\<lambda>t. if t \<in> set ts \<and> due now s t
     then map_option (\<lambda>tm. tm\<lparr>tm_expire := - 1\<rparr>) (ss_heap s t) else ss_heap s t)\<rparr>"

lemma disarm_Nil: "disarm now [] s = s"
  by (simp add: disarm_def)

lemma due_iff: "ss_heap s t = Some tm \<Longrightarrow> due now s t \<longleftrightarrow> tm_expire tm \<noteq> - 1 \<and> tm_expire tm - now \<le> 0"
  by (auto simp: due_def armed_def)

lemma disarm_Cons:
  assumes "t \<notin> set ts" "ss_heap s t = Some tm"
  shows "disarm now (t # ts) s = disarm now ts
    (if due now s t then s\<lparr>ss_heap := (ss_heap s)(t := Some (tm\<lparr>tm_expire := - 1\<rparr>))\<rparr> else s)"
proof -
  let ?s1 = "if due now s t then s\<lparr>ss_heap := (ss_heap s)(t := Some (tm\<lparr>tm_expire := - 1\<rparr>))\<rparr> else s"
  have "ss_heap (disarm now (t # ts) s) = ss_heap (disarm now ts ?s1)"
    using assms by (auto simp: disarm_def fun_eq_iff due_def armed_def)
  moreover have "disarm now (t # ts) s = s\<lparr>ss_heap := ss_heap (disarm now (t # ts) s)\<rparr>"
    "disarm now ts ?s1 = s\<lparr>ss_heap := ss_heap (disarm now ts ?s1)\<rparr>"
    by (simp_all add: disarm_def)
  ultimately show ?thesis by metis
qed

lemma fire_timers_run:
  assumes lib: "\<And>cb b. lb_fire L cb b = Ok () (b\<lparr>bk_lib := f cb (bk_lib b)\<rparr>)"
  shows "distinct ts \<Longrightarrow> (\<forall>t \<in> set ts. ss_heap (bk_state b) t \<noteq> None) \<Longrightarrow>
    fire_timers L now ts b = Ok () (b\<lparr>bk_state := disarm now ts (bk_state b),
      bk_lib := fold f (map (cb_of (bk_state b)) (filter (due now (bk_state b)) ts)) (bk_lib b)\<rparr>)"
proof (induction ts arbitrary: b)
  case Nil
  then show ?case by (simp add: ret_def disarm_Nil)
next
  case (Cons t ts)
  let ?s = "bk_state b"
  obtain tm where tm: "ss_heap ?s t = Some tm" using Cons.prems(2) by auto
  let ?s1 = "if due now ?s t then ?s\<lparr>ss_heap := (ss_heap ?s)(t := Some (tm\<lparr>tm_expire := - 1\<rparr>))\<rparr> else ?s"
  let ?b1 = "b\<lparr>bk_state := ?s1, bk_lib := (if due now ?s t then f (tm_cb tm) (bk_lib b) else bk_lib b)\<rparr>"
  have "fire_timers L now (t # ts) b = fire_timers L now ts ?b1"
    using tm due_iff [OF tm, of now]
    by (simp add: timer_at_def get_state_def set_expire_def upd_state_def prog_simps lib)
  also have "\<dots> = Ok () (?b1\<lparr>bk_state := disarm now ts ?s1,
      bk_lib := fold f (map (cb_of ?s1) (filter (due now ?s1) ts)) (bk_lib ?b1)\<rparr>)"
    using Cons.IH [of ?b1] Cons.prems tm by simp
  also have "map (cb_of ?s1) (filter (due now ?s1) ts) = map (cb_of ?s) (filter (due now ?s) ts)"
  proof -
    have "due now ?s1 u = due now ?s u \<and> cb_of ?s1 u = cb_of ?s u" if "u \<in> set ts" for u
    proof -
      have "u \<noteq> t" using Cons.prems(1) that by auto
      then show ?thesis by (simp add: due_def armed_def cb_of_def)
    qed
    then show ?thesis by (intro map_cong filter_cong) auto
  qed
  also have "disarm now ts ?s1 = disarm now (t # ts) ?s"
    using Cons.prems(1) tm by (simp add: disarm_Cons)
  finally show ?case using tm by (simp add: cb_of_def)
qed

text \<open>
  Timers: with callbacks that leave the timers alone, a pass over the timers calls the callback of
  each timer that is due, once and in the order they were created, disarms exactly those, and
  changes nothing else.
\<close>

theorem due_timers_fire:
  assumes "\<And>b. lb_clock_ms L b = Ok now b"
    and "\<And>cb b. lb_fire L cb b = Ok () (b\<lparr>bk_lib := f cb (bk_lib b)\<rparr>)"
    and "distinct (ss_timers (bk_state b))"
    and "\<forall>t \<in> set (ss_timers (bk_state b)). ss_heap (bk_state b) t \<noteq> None"
  shows "\<exists>c. check_ra_timeout L b = Ok () c \<and> bk_machine c = bk_machine b
    \<and> bk_lib c = fold f (map (cb_of (bk_state b)) (filter (due now (bk_state b)) (ss_timers (bk_state b)))) (bk_lib b)
    \<and> (\<forall>t \<in> set (ss_timers (bk_state b)). armed (bk_state c) t = (\<lambda>ms. armed (bk_state b) t ms \<and> ms > now))
    \<and> ss_timers (bk_state c) = ss_timers (bk_state b) \<and> ss_tx_queue (bk_state c) = ss_tx_queue (bk_state b)"
proof -
  let ?s = "bk_state b"
  have "armed (disarm now (ss_timers ?s) ?s) t = (\<lambda>ms. armed ?s t ms \<and> ms > now)"
    if "t \<in> set (ss_timers ?s)" for t
    using that by (auto simp: fun_eq_iff armed_def disarm_def due_def)
  then show ?thesis
    using fire_timers_run [OF assms(2-4), of now]
    by (simp add: check_ra_timeout_def bnd_def assms(1) get_state_def reads_def) (simp add: disarm_def)
qed

text \<open>
  A library that only logs the callbacks, and two timers of which the second is due at time 100.
\<close>

definition log_library :: "nat list Library" where
  "log_library = \<lparr>lb_flags = [(1, 1), (2, 4), (4, 2), (8, 8), (16, 16)], lb_clock_ms = ret 100,
     lb_fill = (\<lambda>timeout. ret ([], timeout)), lb_poll = (\<lambda>pfds timeout. ret (0, pfds)),
     lb_input = (\<lambda>_. ret ()), lb_pollfds_poll = (\<lambda>_ _. ret ()),
     lb_fire = (\<lambda>cb. updates (\<lambda>b. b\<lparr>bk_lib := bk_lib b @ [cb]\<rparr>))\<rparr>"

definition timer_demo :: "nat list Backend" where
  "timer_demo = \<lparr>bk_machine = demo, bk_state = SlirpState0\<lparr>ss_timers := [0, 1],
     ss_heap := [0 \<mapsto> \<lparr>tm_cb = 7, tm_expire = 200\<rparr>, 1 \<mapsto> \<lparr>tm_cb = 8, tm_expire = 100\<rparr>]\<rparr>, bk_lib = []\<rparr>"

theorem due_timers_fire_witness:
  "\<exists>c. check_ra_timeout log_library timer_demo = Ok () c \<and> bk_lib c = [8]"
proof -
  have "\<exists>c. check_ra_timeout log_library timer_demo = Ok () c
      \<and> bk_lib c = fold (\<lambda>cb l. l @ [cb]) (map (cb_of (bk_state timer_demo))
          (filter (due 100 (bk_state timer_demo)) (ss_timers (bk_state timer_demo)))) (bk_lib timer_demo)"
    using due_timers_fire [of log_library 100 "\<lambda>cb l. l @ [cb]" timer_demo]
    by (auto simp: log_library_def ret_def updates_def timer_demo_def)
  then show ?thesis
    by (simp add: timer_demo_def due_def armed_def cb_of_def)
qed

subsection \<open>Frames are not lost\<close>

text \<open>
  The two threads that share the queue, interleaved: the processor thread takes the lock, queues and
  releases it, and only then writes to the pipe; the poll thread is woken when there is something in the
  pipe, reads one byte, swaps the queue out under the lock, and hands the frames over one by one.
  \<open>sy_sent\<close> and \<open>sy_handed\<close> record the frames the device sent and the library received.
\<close>

datatype sender = Idle | Queued

datatype poller = Waiting | Drained | Handing "u8 list list"

record System =
  sy_state :: SlirpState
  sy_sender :: sender
  sy_poller :: poller
  sy_sent :: "u8 list list"
  sy_handed :: "u8 list list"

inductive sends :: "System \<Rightarrow> System \<Rightarrow> bool" where
  enqueue: "sy_sender s = Idle \<Longrightarrow> sends s (s\<lparr>sy_state := enqueue_frame f (sy_state s),
     sy_sent := sy_sent s @ [f], sy_sender := Queued\<rparr>)"
| wake: "sy_sender s = Queued \<Longrightarrow> sends s (s\<lparr>sy_state := wakeup_write (sy_state s), sy_sender := Idle\<rparr>)"

inductive polls :: "System \<Rightarrow> System \<Rightarrow> bool" where
  woken: "sy_poller s = Waiting \<Longrightarrow> ss_pipe (sy_state s) > 0 \<Longrightarrow>
     polls s (s\<lparr>sy_state := wakeup_drain (sy_state s), sy_poller := Drained\<rparr>)"
| swap: "sy_poller s = Drained \<Longrightarrow>
     polls s (s\<lparr>sy_state := (sy_state s)\<lparr>ss_tx_queue := []\<rparr>, sy_poller := Handing (ss_tx_queue (sy_state s))\<rparr>)"
| hand: "sy_poller s = Handing (f # fs) \<Longrightarrow>
     polls s (s\<lparr>sy_handed := sy_handed s @ [f], sy_poller := Handing fs\<rparr>)"
| finish: "sy_poller s = Handing [] \<Longrightarrow> polls s (s\<lparr>sy_poller := Waiting\<rparr>)"

definition backend_start :: System where
  "backend_start = \<lparr>sy_state = SlirpState0, sy_sender = Idle, sy_poller = Waiting, sy_sent = [], sy_handed = []\<rparr>"

inductive backend_reachable :: "System \<Rightarrow> bool" where
  start: "backend_reachable backend_start"
| sent: "backend_reachable s \<Longrightarrow> sends s t \<Longrightarrow> backend_reachable t"
| polled: "backend_reachable s \<Longrightarrow> polls s t \<Longrightarrow> backend_reachable t"

inductive_cases sends_cases: "sends s t"
inductive_cases polls_cases: "polls s t"

definition in_hand :: "System \<Rightarrow> u8 list list" where
  "in_hand s = (case sy_poller s of Handing fs \<Rightarrow> fs | _ \<Rightarrow> [])"

definition frames_ok :: "System \<Rightarrow> bool" where
  "frames_ok s \<longleftrightarrow> sy_sent s = sy_handed s @ in_hand s @ ss_tx_queue (sy_state s)
     \<and> (ss_tx_queue (sy_state s) \<noteq> [] \<longrightarrow>
          sy_sender s = Queued \<or> ss_pipe (sy_state s) > 0 \<or> sy_poller s = Drained)"

lemmas system_defs = frames_ok_def in_hand_def enqueue_frame_def wakeup_write_def wakeup_drain_def

lemma reachable_frames_ok: "backend_reachable s \<Longrightarrow> frames_ok s"
proof (induction rule: backend_reachable.induct)
  case start
  then show ?case by (simp add: system_defs backend_start_def SlirpState0_def)
next
  case (sent s t)
  from sent.hyps(2) sent.IH show ?case
    by (cases rule: sends.cases) (auto simp: system_defs split: poller.splits)
next
  case (polled s t)
  from polled.hyps(2) polled.IH show ?case
    by (cases rule: polls.cases) (auto simp: system_defs)
qed

text \<open>The poll thread on its own: what it has in hand, and then the queue.\<close>

lemma polls_hand: "sy_poller s = Handing fs \<Longrightarrow>
    polls\<^sup>*\<^sup>* s (s\<lparr>sy_handed := sy_handed s @ fs, sy_poller := Waiting\<rparr>)"
proof (induction fs arbitrary: s)
  case Nil
  then show ?case using polls.finish [of s] by (cases s) auto
next
  case (Cons f fs)
  then show ?case
    using polls.hand [OF Cons.prems] Cons.IH [of "s\<lparr>sy_handed := sy_handed s @ [f], sy_poller := Handing fs\<rparr>"]
    by (auto intro: converse_rtranclp_into_rtranclp)
qed

lemma polls_drained:
  assumes "sy_poller s = Drained"
  shows "\<exists>t. polls\<^sup>*\<^sup>* s t \<and> sy_sent t = sy_sent s \<and> sy_handed t = sy_handed s @ ss_tx_queue (sy_state s)"
proof -
  let ?t = "s\<lparr>sy_state := (sy_state s)\<lparr>ss_tx_queue := []\<rparr>, sy_poller := Handing (ss_tx_queue (sy_state s))\<rparr>"
  have "polls s ?t" by (rule polls.swap [OF assms])
  moreover have "polls\<^sup>*\<^sup>* ?t (?t\<lparr>sy_handed := sy_handed ?t @ ss_tx_queue (sy_state s), sy_poller := Waiting\<rparr>)"
    by (rule polls_hand) simp
  ultimately have "polls\<^sup>*\<^sup>* s (?t\<lparr>sy_handed := sy_handed ?t @ ss_tx_queue (sy_state s), sy_poller := Waiting\<rparr>)"
    by (rule converse_rtranclp_into_rtranclp)
  then show ?thesis by (intro exI conjI) (assumption, simp_all)
qed

lemma polls_waiting:
  assumes "frames_ok s" "sy_poller s = Waiting" "sy_sender s = Idle"
  shows "\<exists>t. polls\<^sup>*\<^sup>* s t \<and> sy_sent t = sy_sent s \<and> sy_handed t = sy_sent s"
proof (cases "ss_tx_queue (sy_state s) = []")
  case True
  then show ?thesis using assms by (auto simp: frames_ok_def in_hand_def)
next
  case False
  let ?d = "s\<lparr>sy_state := wakeup_drain (sy_state s), sy_poller := Drained\<rparr>"
  have "polls s ?d" using False assms by (intro polls.woken) (auto simp: frames_ok_def)
  moreover have "sy_handed s @ ss_tx_queue (sy_state ?d) = sy_sent s"
    using assms by (simp add: frames_ok_def in_hand_def wakeup_drain_def)
  moreover obtain t where "polls\<^sup>*\<^sup>* ?d t" "sy_sent t = sy_sent ?d" "sy_handed t = sy_handed ?d @ ss_tx_queue (sy_state ?d)"
    using polls_drained [of ?d] by auto
  ultimately show ?thesis by (intro exI [of _ t]) (simp add: converse_rtranclp_into_rtranclp)
qed

lemma polls_deliver:
  assumes ok: "frames_ok s" and idle: "sy_sender s = Idle"
  shows "\<exists>t. polls\<^sup>*\<^sup>* s t \<and> sy_sent t = sy_sent s \<and> sy_handed t = sy_sent s"
proof (cases "sy_poller s")
  case Waiting
  then show ?thesis by (rule polls_waiting [OF ok _ idle])
next
  case Drained
  then show ?thesis using polls_drained [OF Drained] ok by (fastforce simp: frames_ok_def in_hand_def)
next
  case (Handing fs)
  let ?w = "s\<lparr>sy_handed := sy_handed s @ fs, sy_poller := Waiting\<rparr>"
  have "frames_ok ?w" using ok Handing idle by (auto simp: frames_ok_def in_hand_def)
  then obtain t where "polls\<^sup>*\<^sup>* ?w t" "sy_sent t = sy_sent s" "sy_handed t = sy_sent s"
    using polls_waiting [of ?w] idle by auto
  then show ?thesis using polls_hand [OF Handing] by (meson rtranclp_trans)
qed

text \<open>
  C34. No frame is lost between the threads, however they interleave: the frames the device has sent are
  those the library has received, then those the poll thread has in hand, then those in the queue, in this
  order; whenever the queue is not empty a wake-up is under way; and once the sender has written to the
  pipe, the poll thread on its own hands over everything that was sent.
\<close>

theorem frames_delivered:
  assumes "backend_reachable s"
  shows "sy_sent s = sy_handed s @ in_hand s @ ss_tx_queue (sy_state s)
    \<and> (ss_tx_queue (sy_state s) \<noteq> [] \<longrightarrow>
         sy_sender s = Queued \<or> ss_pipe (sy_state s) > 0 \<or> sy_poller s = Drained)
    \<and> (sy_sender s = Idle \<longrightarrow> (\<exists>t. polls\<^sup>*\<^sup>* s t \<and> sy_sent t = sy_sent s \<and> sy_handed t = sy_sent s))"
proof -
  have ok: "frames_ok s" by (rule reachable_frames_ok [OF assms])
  then show ?thesis using polls_deliver [OF ok] unfolding frames_ok_def by blast
qed

text \<open>A frame that was queued but not announced yet.\<close>

theorem frames_delivered_witness:
  "\<exists>s. backend_reachable s \<and> sy_sent s = [[0x2A]] \<and> sy_handed s = []
     \<and> ss_tx_queue (sy_state s) = [[0x2A]] \<and> ss_pipe (sy_state s) = 0"
proof -
  let ?s = "backend_start\<lparr>sy_state := enqueue_frame [0x2A] (sy_state backend_start),
     sy_sent := sy_sent backend_start @ [[0x2A]], sy_sender := Queued\<rparr>"
  have r: "backend_reachable ?s"
    by (rule backend_reachable.sent [OF start sends.enqueue]) (simp add: backend_start_def)
  then show ?thesis
    using frames_delivered [OF r]
    by (intro exI [of _ ?s]) (simp add: backend_start_def SlirpState0_def enqueue_frame_def in_hand_def)
qed

text \<open>The code and the steps.\<close>

lemma input_frames_run:
  assumes "\<And>f b. lb_input L f b = Ok () (b\<lparr>bk_lib := bk_lib b @ [f]\<rparr>)"
  shows "input_frames L fs b = Ok () (b\<lparr>bk_lib := bk_lib b @ fs\<rparr>)"
  by (induction fs arbitrary: b) (simp_all add: prog_simps assms)


text \<open>A frame sent and then handed over.\<close>

definition frame_library :: "u8 list list Library" where
  "frame_library = \<lparr>lb_flags = [(1, 1), (2, 4), (4, 2), (8, 8), (16, 16)], lb_clock_ms = ret 0,
     lb_fill = (\<lambda>timeout. ret ([], timeout)), lb_poll = (\<lambda>pfds timeout. ret (0, pfds)),
     lb_input = (\<lambda>f. updates (\<lambda>b. b\<lparr>bk_lib := bk_lib b @ [f]\<rparr>)),
     lb_pollfds_poll = (\<lambda>_ _. ret ()), lb_fire = (\<lambda>_. ret ())\<rparr>"


end
