(* ===== verification/Pmp.thy ===== *)
theory Pmp
  imports Csr
begin

section \<open>Physical memory protection\<close>

text \<open>
  The rule by which the privileged architecture decides an access under physical memory protection, over
  regions of byte addresses as numbers, and \<open>pmp_check\<close> of src/cpu/csr.cpp, which follows it as long as no
  region wraps around and none is given as a power of two (\<open>NAPOT\<close>), save the one of all addresses: for the
  others the mask and the range that the code computes are wrong, as \<open>napot_misjudged\<close> shows.
\<close>

unbundle bit_operations_syntax

subsection \<open>The rule\<close>

definition cfg_byte :: "CPU \<Rightarrow> nat \<Rightarrow> u8" where
  "cfg_byte c i = byte_of (i mod 4) (cpu_csrs c (PMPCFG0 + of_nat (i div 4)))"

definition pmpaddr :: "CPU \<Rightarrow> nat \<Rightarrow> nat" where
  "pmpaddr c i = unat (cpu_csrs c (PMPADDR0 + of_nat i))"

text \<open>The address-matching mode of an entry.\<close>

datatype Matching = OFF | TOR | NA4 | NAPOT

definition matching :: "u8 \<Rightarrow> Matching" where
  "matching cfg = (if bit cfg 4 then (if bit cfg 3 then NAPOT else NA4) else if bit cfg 3 then TOR else OFF)"

text \<open>The ones below the lowest zero bit of a number.\<close>

function trailing_ones :: "nat \<Rightarrow> nat" where
  "trailing_ones n = (if odd n then Suc (trailing_ones (n div 2)) else 0)"
  by pat_completeness auto

termination
  by (relation "measure id") (auto elim: oddE)

declare trailing_ones.simps [simp del]

lemma trailing_ones_mask: "trailing_ones (2 ^ k - 1) = k"
proof (induction k)
  case 0
  then show ?case by (simp add: trailing_ones.simps)
next
  case (Suc k)
  have "(2 ^ Suc k - 1) div 2 = (2 ^ k - 1 :: nat)" by (simp add: div_nat_eqI)
  then show ?case using Suc by (subst trailing_ones.simps) simp
qed

definition entry_region :: "CPU \<Rightarrow> nat \<Rightarrow> nat set" where
  "entry_region c i = (let a = pmpaddr c i in case matching (cfg_byte c i) of
       OFF \<Rightarrow> {}
     | TOR \<Rightarrow> {4 * (if i = 0 then 0 else pmpaddr c (i - 1)) ..< 4 * a}
     | NA4 \<Rightarrow> {4 * a ..< 4 * a + 4}
     | NAPOT \<Rightarrow> (let size = 2 ^ (trailing_ones a + 3) in {4 * a div size * size ..< 4 * a div size * size + size}))"

definition entry_permits :: "u8 \<Rightarrow> AccessType \<Rightarrow> bool" where
  "entry_permits cfg access = bit cfg (case access of LOAD \<Rightarrow> 0 | STORE \<Rightarrow> 1 | FETCH \<Rightarrow> 2)"

text \<open>
  The first entry whose region has the address decides: in machine mode it binds only if it is locked.
  Without one the access is for machine mode alone.
\<close>

definition pmp_allows :: "CPU \<Rightarrow> u32 \<Rightarrow> AccessType \<Rightarrow> PrivilegeLevel \<Rightarrow> bool" where
  "pmp_allows c pa access priv =
    (case find (\<lambda>i. unat pa \<in> entry_region c i) [0..<16] of
       None \<Rightarrow> priv = MACHINE
     | Some i \<Rightarrow> priv = MACHINE \<and> \<not> bit (cfg_byte c i) 7 \<or> entry_permits (cfg_byte c i) access)"

subsection \<open>The code\<close>

text \<open>The entries on which the code follows the rule.\<close>

definition plain_entry :: "CPU \<Rightarrow> nat \<Rightarrow> bool" where
  "plain_entry c i = (case matching (cfg_byte c i) of
       OFF \<Rightarrow> True
     | TOR \<Rightarrow> 4 * pmpaddr c i < 2 ^ 32 \<and> (i = 0 \<or> 4 * pmpaddr c (i - 1) < 2 ^ 32)
     | NA4 \<Rightarrow> 4 * pmpaddr c i + 4 < 2 ^ 32
     | NAPOT \<Rightarrow> pmpaddr c i = 2 ^ 32 - 1)"

lemma sixteen: "[0..<16] = [0, 1, 2, 3, 4, 5, 6, 7, 8, 9, 10, 11, 12, 13, 14, 15]"
  by (simp add: upt_rec)

lemma entry_numbers:
  assumes "(i :: nat) < 16"
  shows "i \<in> {0, 1, 2, 3, 4, 5, 6, 7, 8, 9, 10, 11, 12, 13, 14, 15}"
proof -
  have "i \<in> set [0..<16]" using assms by simp
  then show ?thesis unfolding sixteen by simp
qed

lemma pmp_cfg_byte:
  assumes "i < 16"
  shows "pmp_cfg c (of_nat i) = cfg_byte c i"
proof -
  have "ucast (drop_bit (8 * k) v AND 0xFF :: u32) = byte_of k v" for k and v :: u32
  proof -
    have m: "(0xFF :: u32) = mask 8" by (simp add: mask_numeral)
    show ?thesis unfolding m by (rule bit_word_eqI) (simp add: byte_of_def bit_simps ac_simps)
  qed
  then show ?thesis using entry_numbers [OF assms]
    by (auto simp: pmp_cfg_def cfg_byte_def csr_numbers Let_def mult.commute)
qed

lemma mode_bits: "matching cfg = (let A = drop_bit 3 cfg AND 0x3 in
    if A = 0 then OFF else if A = 1 then TOR else if A = 2 then NA4 else NAPOT)"
proof -
  have m: "drop_bit 3 cfg AND 0x3 = take_bit (Suc (Suc 0)) (drop_bit 3 cfg)"
    by (simp add: take_bit_eq_mask mask_Suc_double)
  have t: "take_bit (Suc (Suc 0)) (drop_bit 3 cfg) = 2 * of_bool (bit cfg 4) + of_bool (bit cfg 3)"
    by (simp add: take_bit_Suc mod_2_eq_odd bit_iff_odd_drop_bit drop_bit_Suc [of 3, simplified] flip: drop_bit_half)
  show ?thesis unfolding Let_def m t by (cases "bit cfg 4"; cases "bit cfg 3"; simp add: matching_def)
qed

lemma word_address:
  assumes "4 * unat v < 2 ^ 32"
  shows "unat (push_bit 2 (v :: u32)) = 4 * unat v"
  using assms by (simp add: push_bit_eq_mult unat_word_ariths(2))

lemma match_iff_region:
  assumes i: "i < 16" and p: "plain_entry c i" and on: "matching (cfg_byte c i) \<noteq> OFF"
  shows "pmp_match c (of_nat i) (drop_bit 3 (cfg_byte c i) AND 0x3) pa \<longleftrightarrow> unat pa \<in> entry_region c i"
proof -
  let ?A = "drop_bit 3 (cfg_byte c i) AND 0x3"
  have i0: "(of_nat i :: u16) = 0 \<longleftrightarrow> i = 0" using entry_numbers [OF i] by auto
  show ?thesis
  proof (cases "matching (cfg_byte c i)")
    case OFF
    then show ?thesis using on by simp
  next
    case TOR
    then have A: "?A = 1" by (auto simp: mode_bits Let_def split: if_splits)
    show ?thesis using TOR p
      by (auto simp: A pmp_match_def entry_region_def plain_entry_def i0 Let_def word_less_nat_alt word_le_nat_alt
          word_address pmpaddr_def add_diff_eq)
  next
    case NA4
    then have A: "?A = 2" by (auto simp: mode_bits Let_def split: if_splits)
    have s: "unat (push_bit 2 v + 4) = 4 * unat v + 4" if "4 * unat v + 4 < 2 ^ 32" for v :: u32
      using unat_add_of_nat [of "push_bit 2 v" 4] word_address [of v] that by simp
    show ?thesis using NA4 p
      by (auto simp: A pmp_match_def entry_region_def plain_entry_def Let_def word_less_nat_alt word_le_nat_alt
          word_address s pmpaddr_def)
  next
    case NAPOT
    then have A: "?A \<noteq> 1" "?A \<noteq> 2" by (auto simp: mode_bits Let_def split: if_splits)
    have a: "pmpaddr c i = 2 ^ 32 - 1" using NAPOT p by (simp add: plain_entry_def)
    then have "cpu_csrs c (PMPADDR0 + of_nat i) = 0xFFFFFFFF"
      unfolding pmpaddr_def word_unat_eq_iff by simp
    moreover have pa: "unat pa < 2 ^ 32" using unsigned_less [of pa] by simp
    moreover have "unat pa \<in> entry_region c i"
      using NAPOT pa unfolding entry_region_def a Let_def trailing_ones_mask by simp
    ultimately show ?thesis using A by (simp add: pmp_match_def)
  qed
qed

text \<open>The answer for the entries that remain to be looked at.\<close>

lemma loop_decides:
  assumes "\<forall>i \<in> set is. i < 16 \<and> plain_entry c i"
  shows "pmp_loop c pa access (priv = MACHINE) (map of_nat is) \<longleftrightarrow>
    (case find (\<lambda>i. unat pa \<in> entry_region c i) is of
       None \<Rightarrow> priv = MACHINE
     | Some i \<Rightarrow> priv = MACHINE \<and> \<not> bit (cfg_byte c i) 7 \<or> entry_permits (cfg_byte c i) access)"
  using assms
proof (induction "is")
  case Nil
  then show ?case by simp
next
  case (Cons i "is")
  then have i: "i < 16" "plain_entry c i" by simp_all
  have locked: "cfg_byte c i AND 0x80 = 0 \<longleftrightarrow> \<not> bit (cfg_byte c i) 7"
    using and_exp_eq_0_iff_not_bit [of "cfg_byte c i" 7] by simp
  have off: "drop_bit 3 (cfg_byte c i) AND 0x3 = 0 \<longleftrightarrow> matching (cfg_byte c i) = OFF"
    by (auto simp: mode_bits Let_def)
  have none: "matching (cfg_byte c i) = OFF \<Longrightarrow> unat pa \<notin> entry_region c i" by (simp add: entry_region_def)
  show ?case
    using Cons match_iff_region [OF i, of pa] none
    by (cases access) (auto simp: pmp_cfg_byte [OF i(1)] Let_def off locked entry_permits_def)
qed


text \<open>
  Entry 0 is a locked range of one page that may be read, entry 1 a word that may be written, and entry 2 lets
  anything else through.
\<close>

definition pmp_demo :: CPU where
  "pmp_demo = (em_cpu demo)\<lparr>cpu_csrs := (\<lambda>_. 0)(PMPCFG0 := 0x1F1289, PMPADDR0 := 0x400, PMPADDR0 + 1 := 0x800,
     PMPADDR0 + 2 := 0xFFFFFFFF)\<rparr>"


text \<open>
  A region of eight bytes, the smallest power of two: the rule lets user mode in at its bytes only, the code
  at the next eight as well.
\<close>

definition napot_demo :: CPU where
  "napot_demo = (em_cpu demo)\<lparr>cpu_csrs := (\<lambda>_. 0)(PMPCFG0 := 0x1F, PMPADDR0 := 0x400)\<rparr>"

lemma napot_misjudged: "pmp_check 0x1008 LOAD USER napot_demo \<and> \<not> pmp_allows napot_demo 0x1008 LOAD USER"
proof -
  have cfg: "cfg_byte napot_demo 0 = 0x1F" by (simp add: cfg_byte_def napot_demo_def csr_numbers byte_of_def)
  have addr: "pmpaddr napot_demo 0 = 0x400" by (simp add: pmpaddr_def napot_demo_def csr_numbers)
  have off: "cfg_byte napot_demo i = 0" if "1 \<le> i" "i < 16" for i
    using entry_numbers [OF that(2)] that(1) by (auto simp: cfg_byte_def napot_demo_def csr_numbers byte_of_def)
  have trailing: "trailing_ones 0x400 = 0" by (subst trailing_ones.simps) simp
  have "entry_region napot_demo 0 = {0x1000 ..< 0x1008}"
    by (simp add: entry_region_def cfg matching_def addr Let_def trailing)
  moreover have "entry_region napot_demo i = {}" if "1 \<le> i" "i < 16" for i
    using off [OF that] by (simp add: entry_region_def matching_def)
  ultimately have "unat (0x1008 :: u32) \<notin> entry_region napot_demo i" if "i < 16" for i
    using that by (cases "i = 0") simp_all
  then have none: "find (\<lambda>i. unat (0x1008 :: u32) \<in> entry_region napot_demo i) [0..<16] = None"
    by (simp add: find_None_iff)
  have "pmp_match napot_demo 0 3 0x1008"
    by (simp add: pmp_match_def napot_demo_def csr_numbers)
  then have "pmp_loop napot_demo 0x1008 LOAD False (0 # rest)" for rest
    using pmp_cfg_byte [of 0 napot_demo] by (simp add: cfg)
  then have "pmp_check 0x1008 LOAD USER napot_demo"
    unfolding pmp_check_def sixteen by simp
  then show ?thesis unfolding pmp_allows_def none by simp
qed

end
