(* ===== verification/Sbi.thy ===== *)
theory Sbi
  imports Live
begin

section \<open>Calls to the firmware\<close>

text \<open>
  The SBI calls of a supervisor (\<open>handleSBI\<close> of src/cpu/trap.cpp, behind \<open>execECALL\<close>): what a call may
  change, what the probe promises, and when a timer set by a call raises the supervisor's interrupt.
\<close>

unbundle bit_operations_syntax

subsection \<open>What a call leaves alone\<close>

text \<open>A supervisor whose calls the emulator answers itself, in place of a firmware image.\<close>

definition sbi_caller :: "Machine \<Rightarrow> bool" where
  "sbi_caller m \<longleftrightarrow> cpu_privilege_level (em_cpu m) = SUPERVISOR
     \<and> pf_opensbi_path (ec_profile (em_config m)) \<noteq> []
     \<and> cc_mode (ec_cpu_config (em_config m)) \<noteq> BARE_METAL_MODE"

definition arg :: "Machine \<Rightarrow> u8 \<Rightarrow> u32" where
  "arg m r = cpu_regs (em_cpu m) r"

definition cpu_kept :: "CPU \<Rightarrow> CPU \<Rightarrow> bool" where
  "cpu_kept c d \<longleftrightarrow> cpu_pc d = cpu_pc c \<and> cpu_privilege_level d = cpu_privilege_level c
     \<and> cpu_trap_occurred d = cpu_trap_occurred c \<and> cpu_tlb d = cpu_tlb c \<and> cpu_icache d = cpu_icache c
     \<and> cpu_decoded_cache d = cpu_decoded_cache c \<and> cpu_current_epoch d = cpu_current_epoch c
     \<and> cpu_reservation_valid d = cpu_reservation_valid c \<and> cpu_reservation_addr d = cpu_reservation_addr c
     \<and> (\<forall>r. r = 10 \<or> r = 11 \<or> cpu_regs d r = cpu_regs c r)
     \<and> (\<forall>a. a = MIP \<or> cpu_csrs d a = cpu_csrs c a)
     \<and> (\<forall>k. k = 1 \<or> k = 5 \<or> k = 7 \<or> bit (cpu_csrs d MIP) k = bit (cpu_csrs c MIP) k)"

definition sbi_kept :: "Machine \<Rightarrow> Machine \<Rightarrow> bool" where
  "sbi_kept m n \<longleftrightarrow> em_config n = em_config m \<and> em_dram n = em_dram m \<and> em_blk n = em_blk m \<and> em_net n = em_net m
     \<and> em_framebuffer n = em_framebuffer m \<and> em_input n = em_input m
     \<and> em_deferred_uart_input n = em_deferred_uart_input m \<and> cpu_kept (em_cpu m) (em_cpu n)"

definition call_over :: "Machine \<Rightarrow> Machine \<Rightarrow> bool" where
  "call_over m n \<longleftrightarrow> cpu_state (em_cpu n) = HALTED
     \<or> cpu_set_next_pc (em_cpu n) \<and> cpu_next_pc (em_cpu n) = cpu_pc (em_cpu m) + 4"

lemma ecall_sbi: "sbi_caller m \<Longrightarrow> execECALL i m = bnd handleSBI (\<lambda>handled. if handled then ret () else trap_ecall) m"
  by (simp add: sbi_caller_def execECALL_def mach_simps)

definition without_bit :: "nat \<Rightarrow> u32 \<Rightarrow> u32" where
  "without_bit n v = v AND NOT (push_bit n 1)"

lemma without_bit: "bit (without_bit n v) k \<longleftrightarrow> bit v k \<and> k \<noteq> n"
  by (cases "k < 32") (auto simp: without_bit_def bit_simps bit_1_iff dest: bit_imp_le_length)

lemma clear_mip_run: "clear_mip n m = Ok () (m\<lparr>em_cpu := (em_cpu m)\<lparr>cpu_csrs :=
    (cpu_csrs (em_cpu m))(MIP := without_bit n (cpu_csrs (em_cpu m) MIP))\<rparr>\<rparr>)"
  by (simp add: clear_mip_def mach_simps without_bit_def)

lemma putchar_run: "\<exists>pl ua. irq_uart (uart_write8 THR b) m = Ok () (m\<lparr>em_uart := ua, em_plic := pl\<rparr>)"
proof -
  obtain ua irq where "uart_write8 THR b (em_uart m) = (ua, irq)" by force
  then have "irq_uart (uart_write8 THR b) m = Ok () (m\<lparr>em_uart := ua,
      em_plic := (if irq then set_pending UART_IRQ (em_plic m) else em_plic m)\<rparr>)"
    by (cases irq) (simp_all add: irq_uart_def state_uart_def raise_irq_def do_if_def mach_simps)
  then show ?thesis by blast
qed

lemmas sbi_simps = mach_simps sbi_done_def sbi_result_def clear_mip_run sbi_set_mtimecmp_def

text \<open>The parts of a call.\<close>

lemma base_run: "\<exists>e v. sbi_base fid m = sbi_result e v m"
  by (auto simp: sbi_base_def mach_simps)

lemma handle_run: "\<exists>n. handleSBI m = Ok True n \<and> sbi_kept m n \<and> call_over m n"
proof -
  obtain e v where base: "sbi_base (arg m 16) m = sbi_result e v m" using base_run by blast
  obtain pl ua where put: "irq_uart (uart_write8 THR (ucast (arg m 10 AND 0xFF))) m
      = Ok () (m\<lparr>em_uart := ua, em_plic := pl\<rparr>)" using putchar_run by blast
  show ?thesis
    using base put
    by (simp add: handleSBI_def sbi_simps sbi_hsm_def sbi_kept_def cpu_kept_def call_over_def without_bit arg_def) auto
qed

text \<open>An extension is supported if some call of it does something else than answer that it is not.\<close>

definition sbi_supported :: "u32 \<Rightarrow> bool" where
  "sbi_supported e \<longleftrightarrow> (\<exists>m n. arg m 17 = e \<and> handleSBI m = Ok True n
     \<and> (arg n 10 \<noteq> SBI_ERR_NOT_SUPPORTED \<or> cpu_state (em_cpu n) \<noteq> cpu_state (em_cpu m)))"

definition calling :: "u32 \<Rightarrow> u32 \<Rightarrow> Machine" where
  "calling e fid = demo\<lparr>em_cpu := (em_cpu demo)\<lparr>cpu_regs := (\<lambda>_. 0)(17 := e, 16 := fid)\<rparr>\<rparr>"

lemma unsupported_run:
  assumes "\<not> sbi_probe (arg m 17)"
  shows "\<exists>n. handleSBI m = Ok True n \<and> arg n 10 = SBI_ERR_NOT_SUPPORTED \<and> cpu_state (em_cpu n) = cpu_state (em_cpu m)"
  using assms by (simp add: handleSBI_def sbi_simps sbi_probe_def arg_def)

lemma supported_probe: "sbi_supported e \<longleftrightarrow> sbi_probe e"
proof
  assume "sbi_supported e"
  then show "sbi_probe e" using unsupported_run unfolding sbi_supported_def by fastforce
next
  assume "sbi_probe e"
  then have "\<exists>fid. \<exists>n. handleSBI (calling e fid) = Ok True n \<and> arg n 10 \<noteq> SBI_ERR_NOT_SUPPORTED"
  proof (cases "e = 0x01")
    case True
    obtain pl ua where "irq_uart (uart_write8 THR 0) (calling e 0) = Ok () (calling e 0\<lparr>em_uart := ua, em_plic := pl\<rparr>)"
      using putchar_run by blast
    then show ?thesis using True
      by (intro exI [of _ 0]) (simp add: handleSBI_def sbi_simps calling_def arg_def SBI_ERR_NOT_SUPPORTED_def)
  next
    case False
    have "\<exists>n. handleSBI (calling e (if e = 0x48534D then 2 else 0)) = Ok True n \<and> arg n 10 \<noteq> SBI_ERR_NOT_SUPPORTED"
      using \<open>sbi_probe e\<close> False unfolding sbi_probe_def
      by (elim disjE) (simp_all add: handleSBI_def sbi_simps sbi_base_def sbi_hsm_def calling_def arg_def
          SBI_ERR_NOT_SUPPORTED_def)
    then show ?thesis by blast
  qed
  moreover have "arg (calling e fid) 17 = e" for fid by (simp add: calling_def arg_def)
  ultimately show "sbi_supported e" unfolding sbi_supported_def by blast
qed


text \<open>A fresh machine in supervisor mode that probes for an extension.\<close>

definition sbi_demo :: "(u8 \<Rightarrow> u32) \<Rightarrow> Machine" where
  "sbi_demo regs = demo\<lparr>em_config := (em_config demo)\<lparr>ec_profile := (ec_profile (em_config demo))\<lparr>pf_opensbi_path := ''fw''\<rparr>,
       ec_cpu_config := (ec_cpu_config (em_config demo))\<lparr>cc_mode := SYSTEM_MODE\<rparr>\<rparr>,
     em_cpu := (em_cpu demo)\<lparr>cpu_privilege_level := SUPERVISOR, cpu_regs := regs,
       cpu_csrs := (cpu_csrs (em_cpu demo))(MIDELEG := 0x20, MIP := 0x20)\<rparr>\<rparr>"

lemma sbi_demo_facts: "sbi_caller (sbi_demo regs)" "arg (sbi_demo regs) r = regs r"
  "cpu_csrs (em_cpu (sbi_demo regs)) MIDELEG = 0x20"
  by (simp_all add: sbi_demo_def sbi_caller_def arg_def csr_numbers)


subsection \<open>The supervisor's timer\<close>

text \<open>The processor's view of the clock, brought up to date at a sequence of readings of the host's.\<close>

fun clock :: "u64 list \<Rightarrow> (Machine, unit) prog" where
  "clock [] = ret ()"
| "clock (e # es) = andthen (updateCycle e) (clock es)"

definition ticks :: "u64 \<Rightarrow> u64" where
  "ticks e = e * 10000000 div 1000000"

lemma timer_lines_delegated:
  assumes "bit mideleg 5"
  shows "bit (timer_lines expired mideleg mip) 5 \<longleftrightarrow> expired \<or> bit mip 5"
    and "\<not> bit (timer_lines expired mideleg mip) 7"
  using assms by (auto simp: timer_lines_def bit_simps bit_1_iff)

lemma update_delegated:
  assumes "bit (cpu_csrs (em_cpu m) MIDELEG) 5"
  shows "\<exists>n. updateCycle e m = Ok () n \<and> cl_mtimecmp (em_clint n) = cl_mtimecmp (em_clint m)
    \<and> cpu_csrs (em_cpu n) MIDELEG = cpu_csrs (em_cpu m) MIDELEG \<and> \<not> bit (cpu_csrs (em_cpu n) MIP) 7
    \<and> (bit (cpu_csrs (em_cpu n) MIP) 5 \<longleftrightarrow> cl_mtimecmp (em_clint m) \<le> ticks e \<or> bit (cpu_csrs (em_cpu m) MIP) 5)"
proof -
  have n: "MIP \<noteq> a \<and> MIDELEG \<noteq> a" if "a \<in> {MCYCLE, MCYCLEH, CYCLE, CYCLEH, TIME, TIMEH}" for a
    using that by (auto simp: csr_numbers)
  have "MIDELEG \<noteq> MIP" by (simp add: csr_numbers)
  then show ?thesis using assms n
    by (simp add: updateCycle_def updates_def andthen_def bnd_def updateCycle_cpu_def Let_def set_mip_bit
        timer_lines_delegated clint_updateMtime_def ticks_def)
qed

lemma clock_delegated:
  assumes "bit (cpu_csrs (em_cpu m) MIDELEG) 5"
  shows "\<exists>n. clock es m = Ok () n \<and> (bit (cpu_csrs (em_cpu n) MIP) 7 \<longrightarrow> es = [])
    \<and> (bit (cpu_csrs (em_cpu n) MIP) 5 \<longleftrightarrow>
        (\<exists>e \<in> set es. cl_mtimecmp (em_clint m) \<le> ticks e) \<or> bit (cpu_csrs (em_cpu m) MIP) 5)"
  using assms
proof (induction es arbitrary: m)
  case Nil
  then show ?case by (simp add: ret_def)
next
  case (Cons e es)
  obtain n where n: "updateCycle e m = Ok () n" "cl_mtimecmp (em_clint n) = cl_mtimecmp (em_clint m)"
      "cpu_csrs (em_cpu n) MIDELEG = cpu_csrs (em_cpu m) MIDELEG" "\<not> bit (cpu_csrs (em_cpu n) MIP) 7"
      "bit (cpu_csrs (em_cpu n) MIP) 5 \<longleftrightarrow> cl_mtimecmp (em_clint m) \<le> ticks e \<or> bit (cpu_csrs (em_cpu m) MIP) 5"
    using update_delegated [OF Cons.prems, of e] by blast
  have mideleg: "bit (cpu_csrs (em_cpu n) MIDELEG) 5" using n(3) Cons.prems by simp
  show ?case
  proof (cases es)
    case Nil
    then show ?thesis using n by (auto simp: andthen_def bnd_def ret_def)
  next
    case (Cons e' es')
    then show ?thesis using Cons.IH [OF mideleg] n by (force simp: andthen_def bnd_def)
  qed
qed

definition deadline :: "Machine \<Rightarrow> nat" where
  "deadline m = unat (arg m 11) * 2 ^ 32 + unat (arg m 10)"

lemma deadline_word: "unat (push_bit 32 (ucast hi) OR ucast lo :: u64) = unat (hi :: u32) * 2 ^ 32 + unat (lo :: u32)"
proof -
  have "push_bit 32 (ucast hi) OR ucast lo = (push_bit 32 (ucast hi) + ucast lo :: u64)"
    by (rule disjunctive_add [symmetric]) (auto simp: bit_simps dest: bit_imp_le_length)
  moreover have "unat hi < 2 ^ 32" "unat lo < 2 ^ 32" using unsigned_less [of hi] unsigned_less [of lo] by simp_all
  ultimately show ?thesis
    by (simp add: push_bit_eq_mult unat_word_ariths unsigned_ucast_eq take_bit_nat_eq_self)
qed

text \<open>
  C19. A timer set through the firmware interrupts the supervisor when its deadline has passed, and not before:
  with the supervisor timer delegated, the call clears the pending bit and returns success, and after the
  clock has been read any number of times the supervisor's timer interrupt is pending exactly if the
  time at one of the readings had reached the 64-bit deadline passed in a0 and a1; the machine timer
  interrupt is not pending.
\<close>

theorem sbi_timer_fires:
  assumes "sbi_caller m" and "arg m 17 = 0x54494D45" and "arg m 16 = 0" and "bit (cpu_csrs (em_cpu m) MIDELEG) 5"
  shows "\<exists>n w. execECALL i m = Ok () n \<and> arg n 10 = 0 \<and> \<not> bit (cpu_csrs (em_cpu n) MIP) 5
    \<and> clock es n = Ok () w \<and> \<not> bit (cpu_csrs (em_cpu w) MIP) 7
    \<and> (bit (cpu_csrs (em_cpu w) MIP) 5 \<longleftrightarrow> (\<exists>e \<in> set es. deadline m \<le> unat (ticks e)))"
proof -
  have d: "MIDELEG \<noteq> MIP" by (simp add: csr_numbers)
  obtain n where n: "handleSBI m = Ok True n" "arg n 10 = 0" "\<not> bit (cpu_csrs (em_cpu n) MIP) 5"
      "\<not> bit (cpu_csrs (em_cpu n) MIP) 7" "bit (cpu_csrs (em_cpu n) MIDELEG) 5"
      "unat (cl_mtimecmp (em_clint n)) = deadline m"
    using assms(2-4) d
    by (simp add: handleSBI_def sbi_simps arg_def without_bit deadline_def deadline_word)
  obtain w where w: "clock es n = Ok () w" "bit (cpu_csrs (em_cpu w) MIP) 7 \<longrightarrow> es = []"
      "bit (cpu_csrs (em_cpu w) MIP) 5 \<longleftrightarrow> (\<exists>e \<in> set es. deadline m \<le> unat (ticks e))"
    using clock_delegated [OF n(5), of es] n(3,6) by (auto simp: word_le_nat_alt)
  have "\<not> bit (cpu_csrs (em_cpu w) MIP) 7" using w n(4) by (cases es) (auto simp: ret_def)
  then show ?thesis using n w(1,3) ecall_sbi [OF assms(1)] by (auto simp: mach_simps)
qed

text \<open>A deadline of 50 ticks: pending after seven microseconds, not after three.\<close>

theorem sbi_timer_fires_witness:
  "\<exists>n w. execECALL DecodedInstr0 (sbi_demo ((\<lambda>_. 0)(17 := 0x54494D45, 10 := 50))) = Ok () n \<and> clock [3, 7] n = Ok () w
     \<and> bit (cpu_csrs (em_cpu w) MIP) 5"
proof -
  let ?r = "(\<lambda>_. 0)(17 := 0x54494D45, 10 := 50) :: u8 \<Rightarrow> u32"
  have a: "arg (sbi_demo ?r) 17 = 0x54494D45" "arg (sbi_demo ?r) 16 = 0" "bit (cpu_csrs (em_cpu (sbi_demo ?r)) MIDELEG) 5"
    by (simp_all add: sbi_demo_facts)
  have "deadline (sbi_demo ?r) \<le> unat (ticks 7)" by (simp add: deadline_def sbi_demo_facts ticks_def)
  then show ?thesis using sbi_timer_fires [OF sbi_demo_facts(1) a, of DecodedInstr0 "[3, 7]"] by auto
qed

text \<open>The older call that sets the timer clears the bit of the machine timer alone.\<close>

lemma legacy_timer_keeps_stip:
  assumes "sbi_caller m" "arg m 17 = 0" "bit (cpu_csrs (em_cpu m) MIP) 5"
  shows "\<exists>n. execECALL i m = Ok () n \<and> bit (cpu_csrs (em_cpu n) MIP) 5"
  using assms(2,3) unfolding ecall_sbi [OF assms(1)]
  by (simp add: handleSBI_def sbi_simps arg_def without_bit)

end
