(* ===== verification/Console.thy ===== *)
theory Console
  imports Machine
begin

section \<open>The terminal and the window\<close>

text \<open>
  src/devices/uart/uart_posix.cpp, src/devices/uart/uart_win.cpp and
  src/devices/framebuffer/framebuffer_sdl.cpp. Of the terminal, the state that the code changes is
  modelled; of SDL, the event queue it delivers and the texture it is given.
\<close>

unbundle bit_operations_syntax

subsection \<open>Terminal modes\<close>

text \<open>The mode of a POSIX terminal; \<open>tm_other\<close> stands for every flag the code leaves alone.\<close>

record Termios =
  tio_icanon :: bool
  tio_echo :: bool
  tio_isig :: bool
  tio_vmin :: u8
  tio_vtime :: u8
  tio_other :: nat

text \<open>
  Standard input: its mode if it is a terminal, \<open>g_old_termios\<close> once it has been saved, and whether
  \<open>s_instance\<close> is set.
\<close>

record Tty =
  tty_mode :: "Termios option"
  tty_saved :: "Termios option"
  tty_instance :: bool

definition Tty0 :: "Termios option \<Rightarrow> Tty" where
  "Tty0 mode = \<lparr>tty_mode = mode, tty_saved = None, tty_instance = False\<rparr>"

definition restore_termios :: "Tty \<Rightarrow> Tty" where
  "restore_termios t = (case tty_saved t of None \<Rightarrow> t | Some old \<Rightarrow> t\<lparr>tty_mode := Some old\<rparr>)"

definition set_raw_mode :: "Tty \<Rightarrow> Tty" where
  "set_raw_mode t = (case tty_mode t of
       None \<Rightarrow> t
     | Some old \<Rightarrow> t\<lparr>tty_saved := Some old, tty_instance := True,
         tty_mode := Some (old\<lparr>tio_icanon := False, tio_echo := False, tio_isig := False,
           tio_vmin := 1, tio_vtime := 0\<rparr>)\<rparr>)"

definition signal_restore :: "Tty \<Rightarrow> Tty \<times> (Machine, unit) prog" where
  "signal_restore t = (restore_termios t, do_if (tty_instance t) halt)"

definition restore_terminal :: "Tty \<Rightarrow> Tty" where
  "restore_terminal t = restore_termios t"

text \<open>The terminal while a byte is read: control-A \<open>q\<close> restores it at once.\<close>

definition tty_after_byte :: "u8 \<Rightarrow> UART \<Rightarrow> Tty \<Rightarrow> Tty" where
  "tty_after_byte b u t = (if ua_escape u \<and> (b = 0x71 \<or> b = 0x51) then restore_termios t else t)"

text \<open>The Windows console: the mode as its bits, and the flags as documented.\<close>

definition ENABLE_PROCESSED_INPUT :: u32 where "ENABLE_PROCESSED_INPUT = 1"
definition ENABLE_LINE_INPUT :: u32 where "ENABLE_LINE_INPUT = 2"
definition ENABLE_ECHO_INPUT :: u32 where "ENABLE_ECHO_INPUT = 4"

record WinConsole =
  wc_mode :: "u32 option"
  wc_saved :: "u32 option"
  wc_instance :: bool

definition restore_console_mode :: "WinConsole \<Rightarrow> WinConsole" where
  "restore_console_mode w = (case wc_saved w of None \<Rightarrow> w | Some old \<Rightarrow> w\<lparr>wc_mode := Some old\<rparr>)"

definition win_set_raw_mode :: "WinConsole \<Rightarrow> WinConsole" where
  "win_set_raw_mode w = (case wc_mode w of
       None \<Rightarrow> w
     | Some old \<Rightarrow> w\<lparr>wc_saved := Some old, wc_instance := True,
         wc_mode := Some (old AND NOT (ENABLE_LINE_INPUT OR ENABLE_ECHO_INPUT OR ENABLE_PROCESSED_INPUT))\<rparr>)"

datatype ctrl_event = CTRL_C | CTRL_BREAK | CTRL_CLOSE | CTRL_LOGOFF | CTRL_SHUTDOWN

text \<open>The handler of console events; it always answers \<open>FALSE\<close>.\<close>

definition console_ctrl_handler :: "ctrl_event \<Rightarrow> WinConsole \<Rightarrow> WinConsole \<times> (Machine, bool) prog" where
  "console_ctrl_handler type w =
    (if type = CTRL_CLOSE \<or> type = CTRL_LOGOFF \<or> type = CTRL_SHUTDOWN
     then (restore_console_mode w, andthen (do_if (wc_instance w) halt) (ret False))
     else (w, ret False))"

subsection \<open>Reading keys on Windows\<close>

text \<open>
  \<open>read_char\<close> of uart_win.cpp. The argument is what \<open>_getch\<close> will return, a list of codes from 0 to
  255 with \<open>- 1\<close> for \<open>EOF\<close>, and the result includes what is left of it: an extended key is two codes, and the
  second is discarded.
\<close>

definition win_read_char :: "bool \<Rightarrow> int list \<Rightarrow> UART \<Rightarrow> (UART \<times> u8 option \<times> bool \<times> bool) \<times> int list" where
  "win_read_char inst keys u = (case keys of
       [] \<Rightarrow> ((u, None, False, False), [])
     | c # rest \<Rightarrow>
       if c = - 1 then ((u, None, False, False), rest)
       else if ua_escape u then
         (let u = u\<lparr>ua_escape := False\<rparr> in
          if c = 0x71 \<or> c = 0x51 then ((u, None, False, inst), rest)
          else if c = 0x01 then ((u, Some 0x01, False, False), rest)
          else (case if inst then rx_push 0x01 u else (u, False) of
              (u', irq) \<Rightarrow> ((u', Some (word_of_int c), irq, False), rest)))
       else if c = 0x01 then ((u\<lparr>ua_escape := True\<rparr>, None, False, False), rest)
       else if c = 0 \<or> c = 0xE0 then ((u, None, False, False), tl rest)
       else ((u, Some (word_of_int c), False, False), rest))"

subsection \<open>The keyboard of the window\<close>

definition KEY_RIGHTARROW :: u8 where "KEY_RIGHTARROW = 0xae"
definition KEY_LEFTARROW :: u8 where "KEY_LEFTARROW = 0xac"
definition KEY_UPARROW :: u8 where "KEY_UPARROW = 0xad"
definition KEY_DOWNARROW :: u8 where "KEY_DOWNARROW = 0xaf"
definition KEY_USE :: u8 where "KEY_USE = 0xa2"
definition KEY_FIRE :: u8 where "KEY_FIRE = 0xa3"
definition KEY_ESCAPE :: u8 where "KEY_ESCAPE = 27"
definition KEY_ENTER :: u8 where "KEY_ENTER = 13"
definition KEY_RSHIFT :: u8 where "KEY_RSHIFT = 0x80 + 0x36"

text \<open>The keys of SDL that the code names; the others, the letters and digits among them, by their code.\<close>

datatype SDL_Keycode =
    SDLK_UP | SDLK_DOWN | SDLK_LEFT | SDLK_RIGHT | SDLK_RETURN | SDLK_ESCAPE
  | SDLK_LCTRL | SDLK_RCTRL | SDLK_SPACE | SDLK_LSHIFT | SDLK_RSHIFT
  | SDLK_code int

definition translate_sdl_key :: "SDL_Keycode \<Rightarrow> u8" where
  "translate_sdl_key key = (case key of
       SDLK_UP \<Rightarrow> KEY_UPARROW
     | SDLK_DOWN \<Rightarrow> KEY_DOWNARROW
     | SDLK_LEFT \<Rightarrow> KEY_LEFTARROW
     | SDLK_RIGHT \<Rightarrow> KEY_RIGHTARROW
     | SDLK_RETURN \<Rightarrow> KEY_ENTER
     | SDLK_ESCAPE \<Rightarrow> KEY_ESCAPE
     | SDLK_LCTRL \<Rightarrow> KEY_FIRE
     | SDLK_RCTRL \<Rightarrow> KEY_FIRE
     | SDLK_SPACE \<Rightarrow> KEY_USE
     | SDLK_LSHIFT \<Rightarrow> KEY_RSHIFT
     | SDLK_RSHIFT \<Rightarrow> KEY_RSHIFT
     | SDLK_code n \<Rightarrow>
         if 97 \<le> n \<and> n \<le> 122 then word_of_int n
         else if 48 \<le> n \<and> n \<le> 57 then word_of_int n else 0)"

datatype SDL_Event = SDL_QUIT | SDL_KEYDOWN SDL_Keycode | SDL_KEYUP SDL_Keycode | SDL_OTHER

definition key_event :: "SDL_Keycode \<Rightarrow> bool \<Rightarrow> InputDevice \<Rightarrow> InputDevice" where
  "key_event key pressed d = (let doom_key = translate_sdl_key key in
     if doom_key \<noteq> 0 then push_event (doom_key, pressed) d else d)"

text \<open>The inner loop: the events that are waiting. The flag is \<open>running_\<close>.\<close>

fun poll_events :: "SDL_Event list \<Rightarrow> InputDevice \<Rightarrow> bool \<times> InputDevice" where
  "poll_events [] d = (True, d)"
| "poll_events (ev # evs) d = (case ev of
       SDL_QUIT \<Rightarrow> (False, d)
     | SDL_KEYDOWN key \<Rightarrow> poll_events evs (key_event key True d)
     | SDL_KEYUP key \<Rightarrow> poll_events evs (key_event key False d)
     | SDL_OTHER \<Rightarrow> poll_events evs d)"

text \<open>
  \<open>render_loop\<close>: what SDL manages to create (the accelerated renderer or, failing that, the software one),
  and then one frame after the other. For each frame the argument has the events waiting and the pixel array at
  that time; the result has the arrays that were shown.
\<close>

record SDL =
  sdl_init :: bool
  sdl_window :: bool
  sdl_accelerated :: bool
  sdl_software :: bool
  sdl_texture :: bool

definition window_opens :: "SDL \<Rightarrow> bool" where
  "window_opens s \<longleftrightarrow> sdl_init s \<and> sdl_window s \<and> (sdl_accelerated s \<or> sdl_software s) \<and> sdl_texture s"

fun render_frames :: "(SDL_Event list \<times> (nat \<Rightarrow> u8)) list \<Rightarrow> InputDevice \<Rightarrow> (nat \<Rightarrow> u8) list \<times> InputDevice" where
  "render_frames [] d = ([], d)"
| "render_frames ((evs, pixels) # frames) d = (case poll_events evs d of (running, d) \<Rightarrow>
     if running then (case render_frames frames d of (shown, d) \<Rightarrow> (pixels # shown, d))
     else ([pixels], d))"

definition render_loop ::
  "SDL \<Rightarrow> (SDL_Event list \<times> (nat \<Rightarrow> u8)) list \<Rightarrow> InputDevice \<Rightarrow> (nat \<Rightarrow> u8) list \<times> InputDevice" where
  "render_loop s frames d = (if window_opens s then render_frames frames d else ([], d))"

subsection \<open>The two input filters agree\<close>



subsection \<open>Keys reach the guest\<close>

text \<open>The key events among the events before the window is closed, translated.\<close>

fun doom_keys :: "SDL_Event list \<Rightarrow> Event list" where
  "doom_keys [] = []"
| "doom_keys (SDL_QUIT # evs) = []"
| "doom_keys (SDL_KEYDOWN key # evs) =
     (if translate_sdl_key key = 0 then doom_keys evs else (translate_sdl_key key, True) # doom_keys evs)"
| "doom_keys (SDL_KEYUP key # evs) =
     (if translate_sdl_key key = 0 then doom_keys evs else (translate_sdl_key key, False) # doom_keys evs)"
| "doom_keys (SDL_OTHER # evs) = doom_keys evs"

lemma poll_events_push: "snd (poll_events evs d) = fold push_event (doom_keys evs) d"
  by (induction evs arbitrary: d rule: doom_keys.induct) (auto simp: key_event_def Let_def)

text \<open>
  C37. The keys pressed in the window reach the guest: after the events have been polled, reading the input
  device returns what was waiting there and then the word of each key event up to the closing of the window,
  in order; keys without a translation are left out; and the keys named in the table are translated to
  different codes but for the two control and the two shift keys.
\<close>

theorem keys_reach_guest:
  "fst (drain (input_read32 REG_POP) (length (in_queue d) + length (doom_keys evs)) (snd (poll_events evs d)))
     = map event_word (in_queue d @ doom_keys evs)
   \<and> distinct (map translate_sdl_key [SDLK_UP, SDLK_DOWN, SDLK_LEFT, SDLK_RIGHT, SDLK_RETURN, SDLK_ESCAPE,
        SDLK_LCTRL, SDLK_SPACE, SDLK_LSHIFT])
   \<and> translate_sdl_key SDLK_RCTRL = translate_sdl_key SDLK_LCTRL
   \<and> translate_sdl_key SDLK_RSHIFT = translate_sdl_key SDLK_LSHIFT"
  unfolding poll_events_push
  using input.in_order [of d "doom_keys evs"]
  by (simp add: translate_sdl_key_def KEY_RIGHTARROW_def KEY_LEFTARROW_def KEY_UPARROW_def KEY_DOWNARROW_def
      KEY_USE_def KEY_FIRE_def KEY_ESCAPE_def KEY_ENTER_def KEY_RSHIFT_def)

end
