(* ===== verification/Display.thy ===== *)
theory Display
  imports Coherence Console
begin

section \<open>The picture on the screen\<close>

text \<open>
  From the bus to the window: words stored to the frame buffer of src/bus/bus.cpp and
  src/devices/framebuffer/framebuffer.cpp are the pixels that \<open>render_loop\<close> of framebuffer_sdl.cpp shows.
\<close>

subsection \<open>Drawing\<close>

text \<open>A stroke colours the pixel in a column and a row.\<close>

type_synonym Stroke = "nat \<times> nat \<times> u32"

definition on_screen :: "Stroke \<Rightarrow> bool" where
  "on_screen p = (case p of (x, y, c) \<Rightarrow> x < 640 \<and> y < 400)"

definition pixel_index :: "nat \<Rightarrow> nat \<Rightarrow> nat" where
  "pixel_index x y = 4 * (640 * y + x)"

fun draw :: "Stroke list \<Rightarrow> (Machine, unit) prog" where
  "draw [] = ret ()"
| "draw ((x, y, c) # ps) = andthen (bus_write32 (FB_BASE + of_nat (pixel_index x y)) c) (draw ps)"

text \<open>The specification: a picture is a function of column and row, and the last stroke on a pixel counts.\<close>

fun painted :: "Stroke list \<Rightarrow> (nat \<Rightarrow> nat \<Rightarrow> u32) \<Rightarrow> nat \<Rightarrow> nat \<Rightarrow> u32" where
  "painted [] pic = pic"
| "painted ((x, y, c) # ps) pic = painted ps (pic(x := (pic x)(y := c)))"

definition picture :: "(nat \<Rightarrow> u8) \<Rightarrow> nat \<Rightarrow> nat \<Rightarrow> u32" where
  "picture pixels x y = (let i = pixel_index x y in
     le32 (pixels i) (pixels (i + 1)) (pixels (i + 2)) (pixels (i + 3)))"

lemma painted_cong:
  assumes "\<And>y. pic x y = pic' x y"
  shows "painted ps pic x y = painted ps pic' x y"
  using assms
proof (induction ps arbitrary: pic pic')
  case (Cons p ps)
  obtain x' y' c where p: "p = (x', y', c)" by (cases p)
  show ?case unfolding p painted.simps by (rule Cons.IH) (use Cons.prems in \<open>cases "x' = x"; simp\<close>)
qed simp

subsection \<open>One word\<close>

lemma pixel_index_bound: "x < 640 \<Longrightarrow> y < 400 \<Longrightarrow> pixel_index x y + 4 \<le> 1024000"
  by (simp add: pixel_index_def)

lemma pixel_apart:
  assumes "x < 640" "x' < 640" "(x, y) \<noteq> (x', y')"
  shows "pixel_index x y + 4 \<le> pixel_index x' y' \<or> pixel_index x' y' + 4 \<le> pixel_index x y"
proof -
  have "640 * y + x \<noteq> 640 * y' + x'"
  proof
    assume e: "640 * y + x = 640 * y' + x'"
    have "(640 * y + x) div 640 = y" "(640 * y' + x') div 640 = y'" using assms(1,2) by simp_all
    then show False using e assms(3) by simp
  qed
  then show ?thesis by (auto simp: pixel_index_def)
qed

lemma fb_only:
  assumes "in_fb a"
  shows "a \<noteq> TOHOST" "\<not> in_clint a" "\<not> in_plic a" "\<not> in_dram a" "\<not> in_blk a" "\<not> in_net a"
  using assms by (auto simp: region_defs word_le_nat_alt word_less_nat_alt TOHOST_def)

lemma draw_word:
  assumes "i + 4 \<le> 1024000"
  shows "\<exists>f. bus_write32 (FB_BASE + of_nat i) c m = Ok () (m\<lparr>em_framebuffer := f\<rparr>)
    \<and> (\<forall>k. fb_pixels f k = (if k = i then byte_of 0 c else if k = i + 1 then byte_of 1 c
        else if k = i + 2 then byte_of 2 c else if k = i + 3 then byte_of 3 c
        else fb_pixels (em_framebuffer m) k))"
proof -
  let ?f = "fb_set (i + 3) (byte_of 3 c) (fb_set (i + 2) (byte_of 2 c)
      (fb_set (i + 1) (byte_of 1 c) (fb_set i (byte_of 0 c) (em_framebuffer m))))"
  have i: "unat (of_nat i :: u32) = i" using assms by (simp add: unat_of_nat take_bit_nat_eq_self)
  have w: "fb_write32 (of_nat i) c (em_framebuffer m) = Some ?f"
    using assms fb_bounds [of "of_nat i"]
    by (simp add: fb_write32_def fb_in_bounds_def i FB_SIZE_def word_less_nat_alt Let_def)
  have fb: "in_fb (FB_BASE + of_nat i)"
    using assms unat_add_of_nat [of FB_BASE i]
    by (simp add: region_defs word_le_nat_alt word_less_nat_alt)
  obtain d where d: "bus_write32 = bus_write32_at (Suc d)" using bus_depth by blast
  have "bus_write32 (FB_BASE + of_nat i) c m = Ok () (m\<lparr>em_framebuffer := ?f\<rparr>)"
    using fb_only [OF fb] fb w unfolding d by (simp add: prog_simps)
  then show ?thesis by (auto simp: fb_set_def)
qed

lemma draw_pixel:
  assumes "on_screen (x, y, c)"
  shows "\<exists>f. bus_write32 (FB_BASE + of_nat (pixel_index x y)) c m = Ok () (m\<lparr>em_framebuffer := f\<rparr>)
    \<and> (\<forall>x' < 640. \<forall>y'. picture (fb_pixels f) x' y'
        = (if x' = x \<and> y' = y then c else picture (fb_pixels (em_framebuffer m)) x' y'))"
proof -
  let ?i = "pixel_index x y"
  have xy: "x < 640" "y < 400" using assms by (simp_all add: on_screen_def)
  obtain f where f: "bus_write32 (FB_BASE + of_nat ?i) c m = Ok () (m\<lparr>em_framebuffer := f\<rparr>)"
    and px: "\<And>k. fb_pixels f k = (if k = ?i then byte_of 0 c else if k = ?i + 1 then byte_of 1 c
        else if k = ?i + 2 then byte_of 2 c else if k = ?i + 3 then byte_of 3 c
        else fb_pixels (em_framebuffer m) k)"
    using draw_word [OF pixel_index_bound [OF xy]] by blast
  have "picture (fb_pixels f) x' y' = (if x' = x \<and> y' = y then c else picture (fb_pixels (em_framebuffer m)) x' y')"
    if "x' < 640" for x' y'
    using pixel_apart [OF xy(1) that, of y y']
    by (cases "x' = x \<and> y' = y") (auto simp: picture_def px Let_def)
  then show ?thesis using f by blast
qed

lemma draw_strokes:
  assumes "list_all on_screen ps"
  shows "\<exists>f. draw ps m = Ok () (m\<lparr>em_framebuffer := f\<rparr>)
    \<and> (\<forall>x < 640. \<forall>y. picture (fb_pixels f) x y = painted ps (picture (fb_pixels (em_framebuffer m))) x y)"
  using assms
proof (induction ps arbitrary: m)
  case Nil
  show ?case by (rule exI [of _ "em_framebuffer m"]) (simp add: ret_def)
next
  case (Cons p ps)
  obtain x y c where p: "p = (x, y, c)" by (cases p)
  obtain f where f: "bus_write32 (FB_BASE + of_nat (pixel_index x y)) c m = Ok () (m\<lparr>em_framebuffer := f\<rparr>)"
      "\<And>x' y'. x' < 640 \<Longrightarrow> picture (fb_pixels f) x' y'
        = (if x' = x \<and> y' = y then c else picture (fb_pixels (em_framebuffer m)) x' y')"
    using draw_pixel [of x y c m] Cons.prems by (auto simp: p)
  obtain g where g: "draw ps (m\<lparr>em_framebuffer := f\<rparr>) = Ok () (m\<lparr>em_framebuffer := g\<rparr>)"
      "\<And>x y. x < 640 \<Longrightarrow> picture (fb_pixels g) x y = painted ps (picture (fb_pixels f)) x y"
    using Cons.IH [of "m\<lparr>em_framebuffer := f\<rparr>"] Cons.prems by auto
  have "painted ps (picture (fb_pixels f)) x' y'
      = painted ps ((picture (fb_pixels (em_framebuffer m)))(x := (picture (fb_pixels (em_framebuffer m)) x)(y := c))) x' y'"
    if "x' < 640" for x' y'
    using that f(2) by (intro painted_cong) auto
  then show ?case using g f(1) by (auto simp: p andthen_def bnd_def)
qed

subsection \<open>The window\<close>

lemma poll_running: "SDL_QUIT \<notin> set evs \<Longrightarrow> fst (poll_events evs d)"
  by (induction evs arbitrary: d) (auto split: SDL_Event.splits)

lemma render_step: "SDL_QUIT \<notin> set evs \<Longrightarrow> fst (render_frames ((evs, pixels) # frames) d)
    = pixels # fst (render_frames frames (snd (poll_events evs d)))"
  using poll_running [of evs d]
  by (cases "poll_events evs d"; cases "render_frames frames (snd (poll_events evs d))") simp

lemma render_last:
  assumes "\<forall>(evs, pixels) \<in> set frames. SDL_QUIT \<notin> set evs"
  shows "\<exists>shown. fst (render_frames (frames @ [(evs, pixels)]) d) = shown @ [pixels]"
  using assms
proof (induction frames arbitrary: d)
  case Nil
  then show ?case by (simp split: prod.split)
next
  case (Cons fr frames)
  obtain e px where fr: "fr = (e, px)" by (cases fr)
  obtain shown where "fst (render_frames (frames @ [(evs, pixels)]) (snd (poll_events e d))) = shown @ [pixels]"
    using Cons by fastforce
  then show ?case using render_step [of e px "frames @ [(evs, pixels)]" d] Cons.prems by (auto simp: fr)
qed

text \<open>
  C21. What the guest draws is what the window shows: after any sequence of pixels has been stored to the frame
  buffer through the bus, in any order and any number of times each, the frame rendered next shows at every
  point of the screen the colour stored there last, and at a point not drawn on the colour that was there; the
  stores change nothing else in the machine.
\<close>

theorem picture_shown:
  assumes "list_all on_screen ps" and "window_opens s"
    and "\<forall>(evs, pixels) \<in> set before. SDL_QUIT \<notin> set evs"
  shows "\<exists>f shown. draw ps m = Ok () (m\<lparr>em_framebuffer := f\<rparr>)
    \<and> fst (render_loop s (before @ [(evs, fb_pixels f)]) d) = shown @ [fb_pixels f]
    \<and> (\<forall>x < 640. \<forall>y. picture (fb_pixels f) x y = painted ps (picture (fb_pixels (em_framebuffer m))) x y)"
proof -
  obtain f where f: "draw ps m = Ok () (m\<lparr>em_framebuffer := f\<rparr>)"
      "\<forall>x < 640. \<forall>y. picture (fb_pixels f) x y = painted ps (picture (fb_pixels (em_framebuffer m))) x y"
    using draw_strokes [OF assms(1)] by blast
  then show ?thesis using render_last [OF assms(3)] assms(2) unfolding render_loop_def by fastforce
qed

text \<open>The two ends of the screen, the first drawn twice; the window closes afterwards.\<close>

theorem picture_shown_witness:
  "\<exists>f shown. draw [(0, 0, 1), (639, 399, 2), (0, 0, 3)] demo = Ok () (demo\<lparr>em_framebuffer := f\<rparr>)
    \<and> fst (render_loop \<lparr>sdl_init = True, sdl_window = True, sdl_accelerated = False, sdl_software = True,
        sdl_texture = True\<rparr> [([SDL_OTHER], \<lambda>_. 0), ([SDL_QUIT], fb_pixels f)] \<lparr>in_queue = []\<rparr>) = shown @ [fb_pixels f]
    \<and> picture (fb_pixels f) 0 0 = 3 \<and> picture (fb_pixels f) 639 399 = 2 \<and> picture (fb_pixels f) 0 1 = 0"
proof -
  let ?s = "\<lparr>sdl_init = True, sdl_window = True, sdl_accelerated = False, sdl_software = True, sdl_texture = True\<rparr>"
  have p: "list_all on_screen [(0, 0, 1), (639, 399, 2), (0, 0, 3)]" by (simp add: on_screen_def)
  have s: "window_opens ?s" by (simp add: window_opens_def)
  have q: "\<forall>(evs, pixels) \<in> set [([SDL_OTHER], \<lambda>_. 0 :: u8)]. SDL_QUIT \<notin> set evs" by simp
  have "picture (fb_pixels (em_framebuffer demo)) 0 1 = 0"
    by (simp add: demo_defs FrameBuffer0_def picture_def le32_def)
  then show ?thesis
    using picture_shown [OF p s q, of demo "[SDL_QUIT]" "\<lparr>in_queue = []\<rparr>"] by auto
qed

end
