(* ===== verification/Spec2Isabelle.thy ===== *)
theory Spec2Isabelle
  imports RvcSpec Memory Errors Sv32 Ring Atomic Arith TrapReturn Live Trace ProfileLoader BaseIsa Block Program Receive NetBackend Pmp Sbi Display
begin

text \<open>
  A model of the RV32IMAC emulator of this repository, and what has been proved of it.

  \<^bold>\<open>The program.\<close> \<open>main\<close> (src/main.cpp) reads a profile, builds an \<open>Emulator\<close> (src/emulator.cpp),
  loads images (src/elf) and runs \<open>CPU::run\<close> (src/cpu/cpu.cpp). A step of the processor takes a pending
  interrupt (src/cpu/trap.cpp), or fetches through the MMU and the instruction cache (src/mmu,
  src/cache), decodes (src/cpu/decode.cpp, src/cpu/compressed.cpp) behind a cache of decoded
  instructions, and runs a handler (src/cpu/execute.cpp), which accesses control registers
  (src/cpu/csr.cpp) and, through the MMU, the bus (src/bus). The bus routes an access to main memory or
  to a device: CLINT, PLIC, UART, frame buffer, input, virtio block and virtio network. Devices raise
  interrupts by setting a bit of the PLIC; every 1024 steps \<open>updateCycle\<close> copies the lines into
  \<open>mip\<close>. Stores tell the processor, which drops its reservation and invalidates the caches.

  \<^bold>\<open>The model.\<close> A statement that may throw is a program \<open>('s, 'a) prog\<close> (theory Prelude): from a state it
  returns a value and a state, raises an exception with the state at that point, is undefined
  behaviour of C++, or runs out of fuel. The state is the record \<open>Machine\<close>, with one field per member
  of \<open>Emulator\<close> and \<open>Bus\<close>; machine integers are words of their width.

  \<^item> Prelude: results, combinators, the preservation calculus \<open>keeps\<close>, C++ arithmetic, little-endian bytes.
  \<^item> Isa, Decode: inc/isa/isa.hpp and src/cpu/decode.cpp. Encoders of the instruction formats are
    inverse to the decoder.
  \<^item> Compressed, RvcSpec: src/cpu/compressed.cpp, and the tables of the C extension as a specification
    that the expansion refines.
  \<^item> Memory, Clint, Plic, Uart (over Fifo), Frame, Tlb: src/memory, src/clint, src/plic, src/devices/uart,
    src/devices/framebuffer and input.cpp, src/mmu/tlb.cpp, each a component with a state of its own.
    \<open>byte_store\<close> and \<open>fifo\<close> are the interfaces shared by the stores and queues among them.
  \<^item> Machine: the state (inc/core/state.hpp, inc/cpu/cpu.hpp, inc/emulator.hpp), its construction, and
    the operations on the processor that other components call.
  \<^item> Trap, Csr: src/cpu/trap.cpp with the SBI calls, and src/cpu/csr.cpp with the memory protection.
  \<^item> BusRead, VirtioBlk, VirtioNet, Bus: src/bus/bus.cpp and the two virtio devices. The devices access
    memory through the bus that routes to them, so the word write is stratified by a depth,
    \<open>BUS_DEPTH\<close>: a device may write a register of a device only that deep.
  \<^item> ICache, Mmu, Execute, Cpu: src/cache/icache.cpp, src/mmu/mmu.cpp, src/cpu/execute.cpp, src/cpu/cpu.cpp.
  \<^item> NetBackend: virtio_net_slirp.cpp, with the interleaving of its thread and the processor's as a step
    relation. Console: the terminal modes, the input filter on Windows, the window and its keyboard.
  \<^item> Loader: src/elf, src/emulator.cpp, src/main.cpp on a profile. ProfileLoader: src/profile/profile.cpp and
    \<open>main\<close> on its arguments. Trace: src/cpu/trace.cpp, with text as strings.
  \<^item> BusFrame, Hart: the locales \<open>device_frame\<close> and \<open>hart_frame\<close> state what a property must not depend on
    to survive a bus access, or a step; they prove it kept by every operation, and are interpreted
    for the properties of this development.
  \<^item> System: the program as a transition system (iterations of the loop interleaved with what the other
    threads do) and the invariant of its reachable machines.
  \<^item> Errors: which exceptions each operation throws, up to \<open>step\<close> and \<open>emulate\<close>.
  \<^item> Coherence: main memory as seen by stores, loads and fetches; the caches are transparent.
  \<^item> BaseIsa: RV32IMA with a console as an abstract machine, and the simulation of it by any number of steps of the processor.
  \<^item> Sv32: the Sv32 translation as a function on physical memory, refined by the walk of src/mmu/mmu.cpp,
    and the translation buffer, which answers as the walk did.
  \<^item> Ring: processing the queue of the block device ends and serves what the driver asked for.
  \<^item> Bytes: runs of bytes in main memory. Virtqueue: descriptors, chains and rings as functions of memory, the
    proof that the fuel of a walk is enough for every chain that ends, and the locale \<open>virtqueue\<close>, interpreted on
    both virtio devices. Block: a notification serves the requests of the queue one after the other, as a function
    on image and memory. Frames, Receive: frames sent and received are the contents of the descriptor chains.
  \<^item> Images: the memory that an ELF file describes, and the loader, which produces it. Program: \<open>main\<close> on a
    bare-metal executable, whose exit code and output are those of the abstract machine.
  \<^item> Atomic, Arith: the A and M extensions, on which BaseIsa rests. TrapReturn: a trap and the return from it cancel.
  \<^item> Pmp: the rule of physical memory protection, which the check follows. Sbi: what firmware calls change, and the
    supervisor's timer. Display: pixels stored through the bus are what the window shows.
  \<^item> Live: a processor that waits for the timer wakes within 1024 iterations.

  \<^bold>\<open>Bounds.\<close> \<open>BUS_DEPTH\<close> is 8. A virtio queue is processed with \<open>RING_FUEL\<close> = 65536 rounds, as many as
  the 16-bit ring index can move before it meets the driver's again, and a descriptor chain
  with \<open>CHAIN_FUEL\<close> = 65537 steps, one more than there are 16-bit descriptor numbers: a chain that
  exceeds it visits a descriptor twice. \<open>NoFuel\<close> therefore stands for a real loop that does not end.
  The run loop takes a list of clock readings, one per iteration.

  \<^bold>\<open>Arguments of the model.\<close> The bytes of files, the time that passes between readings of the host
  clock, the uninitialised memory of a new processor, and whether the network library starts.

  \<^bold>\<open>Not modelled.\<close> Log messages on the console, and what lies behind the libraries: the JSON parser (the
  document it yields is an argument), SDL (its events are arguments, the frames shown a result), libslirp and
  \<open>poll\<close> (functions of the record \<open>Library\<close>; to the rest of the model a frame from the network is an
  event and a frame sent is appended to a list), and races between threads other than at the boundaries of
  iterations.
\<close>

end
